(* ===== verification/Turtle_Prelude.thy ===== *)
theory Turtle_Prelude
  imports "HOL-Library.Word" "HOL-Library.Monad_Syntax"
begin

unbundle bit_operations_syntax

text \<open>
  What the component theories share: the machine integer types of the C++ code, the
  collections of facts used by the component proofs, checked vector accesses and the
  little-endian byte lemmas.
\<close>

type_synonym u8 = "8 word"
type_synonym u16 = "16 word"
type_synonym u32 = "32 word"
type_synonym u64 = "64 word"

named_theorems csr_consts \<open>numeric values of the macros of csr_cfg.hpp\<close>

subsection \<open>Words\<close>

lemma unat_power_lower:
  assumes "n < LENGTH('a)"
  shows "unat (2 ^ n :: 'a::len word) = 2 ^ n"
proof -
  have "unat (word_of_nat (2 ^ n) :: 'a word) = 2 ^ n"
    unfolding unsigned_of_nat using assms by (simp add: take_bit_nat_eq_self)
  then show ?thesis
    by simp
qed

lemma take_bit_word_small:
  fixes v :: "'a::len word"
  assumes "v < 2 ^ n" and "n < LENGTH('a)"
  shows "take_bit n v = v"
proof -
  have "unat v < 2 ^ n"
    using assms by (simp add: word_less_nat_alt unat_power_lower)
  then have "unat (take_bit n v) = unat v"
    by (simp add: unsigned_take_bit_eq take_bit_nat_eq_self)
  then show ?thesis
    by (simp add: word_unat_eq_iff)
qed

lemma ucast_bound:
  fixes v :: "'b::len word"
  assumes "LENGTH('b) < LENGTH('a)"
  shows "(ucast v :: 'a::len word) < 2 ^ LENGTH('b)"
proof -
  have "unat v < 2 ^ LENGTH('b)"
    by (rule unsigned_less)
  then show ?thesis
    using assms less_trans [OF _ power_strict_increasing [OF assms, of "2 :: nat"]]
    by (simp add: word_less_nat_alt unat_power_lower unsigned_ucast_eq take_bit_nat_eq_self)
qed

lemma ucast_narrow_widen:
  "(ucast (ucast v :: 'b::len word) :: 'a::len word) = take_bit LENGTH('b) v"
  by (intro bit_word_eqI) (auto simp: bit_simps)

lemma and_power_eq:
  "x AND 2 ^ n = (if bit x n then 2 ^ n else (0 :: 'a::len word))"
  by (intro bit_word_eqI) (auto simp: bit_simps)

lemma and_not_mask_eq_iff:
  fixes x y :: "'a::len word"
  shows "x AND NOT (mask k) = y AND NOT (mask k) \<longleftrightarrow> drop_bit k x = drop_bit k y"
proof
  assume eq: "x AND NOT (mask k) = y AND NOT (mask k)"
  have "drop_bit k z = drop_bit k (z AND NOT (mask k))" for z :: "'a word"
    by (intro bit_word_eqI) (auto simp: bit_simps dest: bit_imp_le_length)
  then show "drop_bit k x = drop_bit k y"
    using eq by metis
next
  assume eq: "drop_bit k x = drop_bit k y"
  have "z AND NOT (mask k) = push_bit k (drop_bit k z)" for z :: "'a word"
    by (intro bit_word_eqI) (auto simp: bit_simps)
  then show "x AND NOT (mask k) = y AND NOT (mask k)"
    using eq by simp
qed

lemma unat_drop_bit: "unat (drop_bit k x) = unat x div 2 ^ k"
  by (simp add: unsigned_drop_bit_eq take_bit_nat_eq_self flip: drop_bit_eq_div)

lemma and_3_eq_0:
  fixes a :: u32
  assumes "a AND 3 = 0"
  shows "a AND 1 = 0" and "unat a mod 4 = 0" and "unat a + 4 \<le> 2 ^ 32"
proof -
  have tb: "take_bit 2 a = 0"
    using assms by (simp add: take_bit_eq_mask mask_eq_exp_minus_1)
  have "a AND 1 = (a AND 3) AND 1"
    by (simp add: and.assoc)
  then show "a AND 1 = 0"
    using assms by simp
  have "take_bit 2 (unat a) = 0"
    using tb by (metis unsigned_take_bit_eq unsigned_0)
  then show m: "unat a mod 4 = 0"
    by (simp add: take_bit_eq_mod)
  have "unat a < 4294967296"
    using unsigned_less [of a, where 'a = nat] by simp
  with m show "unat a + 4 \<le> 2 ^ 32"
    by simp presburger
qed

lemma ucast_u8_eq_iff: "ucast (f :: u8) = (ucast g :: u32) \<longleftrightarrow> f = g"
proof -
  have "ucast (ucast h :: u32) = (h :: u8)" for h
    by (intro bit_word_eqI) (auto simp: bit_simps)
  then show ?thesis
    by metis
qed

lemma bit_times_2: "bit (x * 2 :: 'a::len word) n \<longleftrightarrow> 0 < n \<and> n < LENGTH('a) \<and> bit x (n - 1)"
  using bit_double_iff [of x n] by (auto simp: ac_simps)

lemma bit_mod_2: "bit (x mod 2 :: 'a::len word) n \<longleftrightarrow> n = 0 \<and> bit x 0"
proof -
  have "x mod 2 = take_bit 1 x"
    by simp
  then show ?thesis
    by (simp only: bit_take_bit_iff) auto
qed

lemma low_two_bits:
  fixes b :: "'a::len word"
  assumes "2 \<le> LENGTH('a)"
  shows "b AND 3 = 3 \<longleftrightarrow> bit b 0 \<and> bit b 1"
proof -
  have three: "(3 :: 'a word) = mask 2"
    by (simp add: mask_eq_exp_minus_1)
  show ?thesis
  proof
    assume eq: "b AND 3 = 3"
    have "bit (b AND 3) 0" "bit (b AND 3) 1"
      unfolding eq unfolding three using assms by (simp_all add: bit_mask_iff)
    then show "bit b 0 \<and> bit b 1"
      by (simp only: bit_and_iff)
  next
    assume "bit b 0 \<and> bit b 1"
    then show "b AND 3 = 3"
      unfolding three by (intro bit_word_eqI) (auto simp: bit_simps less_2_cases_iff)
  qed
qed

lemma odd_and_uminus:
  fixes q :: "'a::len word"
  shows "(2 * q + 1) AND - (2 * q + 1) = 1"
proof -
  have "- (2 * q + 1) = NOT (2 * q)"
    by (simp add: not_eq_complement)
  moreover have "2 * q + 1 = 2 * q OR 1"
    by (simp add: or_one_eq)
  moreover have "(2 * q OR 1) AND NOT (2 * q) = 1"
    by (intro bit_word_eqI) (auto simp: bit_simps bit_double_iff)
  ultimately show ?thesis
    by simp
qed

lemma lowest_zero_bit:
  fixes a :: "'a::len word"
  assumes ones: "\<And>j. j < t \<Longrightarrow> bit a j" and zero: "\<not> bit a t" and t: "t < LENGTH('a)"
  shows "(a + 1) AND - (a + 1) = 2 ^ t"
proof -
  let ?q = "drop_bit (Suc t) a"
  have "push_bit (Suc t) ?q AND mask t = 0"
    by (intro bit_word_eqI) (auto simp: bit_simps)
  then have "push_bit (Suc t) ?q + mask t = push_bit (Suc t) ?q OR mask t"
    by (rule disjunctive_add_eq_or)
  also have "\<dots> = a"
  proof (rule bit_word_eqI)
    fix n
    assume "n < LENGTH('a)"
    then show "bit (push_bit (Suc t) ?q OR mask t) n = bit a n"
      using ones [of n] zero by (cases "n < t"; cases "n = t") (auto simp: bit_simps simp del: push_bit_Suc)
  qed
  finally have "a = push_bit (Suc t) ?q + mask t" ..
  then have "a + 1 = push_bit (Suc t) ?q + (mask t + 1)"
    by (metis add.assoc)
  also have "\<dots> = push_bit t (2 * ?q + 1)"
    by (simp add: mask_eq_exp_minus_1 push_bit_eq_mult algebra_simps)
  finally have "a + 1 = push_bit t (2 * ?q + 1)" .
  then have "(a + 1) AND - (a + 1) = push_bit t ((2 * ?q + 1) AND - (2 * ?q + 1))"
    by (simp only: push_bit_and push_bit_minus)
  then show ?thesis
    by (simp only: odd_and_uminus push_bit_of_1)
qed

text \<open>The library moves the bits of a word numeral to those of the integer numeral.\<close>

lemma bit_ff: "bit (0xff :: int) n \<longleftrightarrow> n < 8"
proof -
  have "(0xff :: int) = mask 8"
    by (simp add: mask_eq_exp_minus_1)
  then show ?thesis
    by (simp only: bit_mask_iff possible_bit_int simp_thms)
qed

lemma ucast_and_ff [simp]: "(ucast (x AND 0xff) :: u8) = ucast x"
  by (intro bit_word_eqI) (auto simp: bit_simps bit_ff dest: bit_imp_le_length)

lemma and_ff_ucast [simp]:
  assumes "8 \<le> LENGTH('a)"
  shows "(ucast v :: 'a::len word) AND 0xff = ucast (v :: u8)"
proof (rule bit_word_eqI)
  fix n
  assume "n < LENGTH('a)"
  moreover have "bit v n \<Longrightarrow> n < 8"
    using bit_imp_le_length [of v n] by simp
  ultimately show "bit ((ucast v :: 'a word) AND 0xff) n = bit (ucast v :: 'a word) n"
    by (auto simp: bit_and_iff bit_ff bit_unsigned_iff)
qed

subsection \<open>Natural numbers\<close>

lemma less_8_cases:
  fixes j :: nat
  assumes "j < 8"
  shows "j = 0 \<or> j = 1 \<or> j = 2 \<or> j = 3 \<or> j = 4 \<or> j = 5 \<or> j = 6 \<or> j = 7"
  using assms by linarith

lemma div_eq_interval:
  fixes n :: nat
  assumes "0 < k"
  shows "n div k = q \<longleftrightarrow> q * k \<le> n \<and> n < q * k + k"
proof
  assume "n div k = q"
  then show "q * k \<le> n \<and> n < q * k + k"
    using assms div_times_less_eq_dividend [of n k] dividend_less_div_times [of k n] by auto
next
  assume "q * k \<le> n \<and> n < q * k + k"
  then show "n div k = q"
    by (intro div_nat_eqI) (auto simp: mult.commute)
qed

subsection \<open>Checked vector access\<close>

text \<open>\<^verbatim>\<open>v[i]\<close> on a \<^verbatim>\<open>std::vector\<close> is undefined outside the vector: \<open>None\<close>.\<close>

definition vget :: "'a list \<Rightarrow> nat \<Rightarrow> 'a option" where
  "vget v i = (if i < length v then Some (v ! i) else None)"

definition vset :: "'a list \<Rightarrow> nat \<Rightarrow> 'a \<Rightarrow> 'a list option" where
  "vset v i x = (if i < length v then Some (v[i := x]) else None)"

lemma vget_Some [simp]: "i < length v \<Longrightarrow> vget v i = Some (v ! i)"
  by (simp add: vget_def)

lemma vset_Some [simp]: "i < length v \<Longrightarrow> vset v i x = Some (v[i := x])"
  by (simp add: vset_def)

subsection \<open>Functional refinement of clocked modules\<close>

text \<open>
  A module with inputs \<open>'i\<close> simulates a specification when one clock edge of the module, seen
  through the abstraction, is one step of the specification.
\<close>

locale simulation =
  fixes ok :: "'s \<Rightarrow> bool" and abs :: "'s \<Rightarrow> 'a"
    and cstep :: "'i \<Rightarrow> 's \<Rightarrow> 's" and astep :: "'i \<Rightarrow> 'a \<Rightarrow> 'a"
  assumes step_ok: "ok s \<Longrightarrow> ok (cstep i s)"
    and step_abs: "ok s \<Longrightarrow> abs (cstep i s) = astep i (abs s)"
begin

lemma run: "ok s \<Longrightarrow> ok (fold cstep is s) \<and> abs (fold cstep is s) = fold astep is (abs s)"
  by (induction "is" arbitrary: s) (simp_all add: step_ok step_abs)

end

end
