(* ===== verification/Csr_Cfg.thy ===== *)
theory Csr_Cfg
  imports Turtle_Prelude
begin

unbundle bit_operations_syntax

text \<open>
  The constants and the two bit helpers of \<^verbatim>\<open>src/src/csr_cfg.hpp\<close>. The mask macros
  are definitions collected in \<open>csr_consts\<close>; the enumerators of \<^verbatim>\<open>CSRAddr\<close>
  (16 bit) and \<^verbatim>\<open>ExceptionCause\<close> (32 bit) and the privilege levels are
  abbreviations of their numbers, as in the source. The lemmas give the helpers their
  meaning: \<open>get_bits\<close> is a bit slice, \<open>sign_extend\<close> is two's complement.
\<close>

subsection \<open>Privilege modes\<close>

abbreviation (input) RV_PRIV_U_MODE :: u32 where "RV_PRIV_U_MODE \<equiv> 0"
abbreviation (input) RV_PRIV_S_MODE :: u32 where "RV_PRIV_S_MODE \<equiv> 1"
abbreviation (input) RV_PRIV_M_MODE :: u32 where "RV_PRIV_M_MODE \<equiv> 3"

subsection \<open>Fields of mstatus, mie and mip\<close>

definition MSTATUS_SIE :: u32 where [csr_consts]: "MSTATUS_SIE = 0x2"
definition MSTATUS_MIE :: u32 where [csr_consts]: "MSTATUS_MIE = 0x8"
definition MSTATUS_SPIE :: u32 where [csr_consts]: "MSTATUS_SPIE = 0x20"
definition MSTATUS_MPIE :: u32 where [csr_consts]: "MSTATUS_MPIE = 0x80"
definition MSTATUS_SPP :: u32 where [csr_consts]: "MSTATUS_SPP = 0x100"
definition MSTATUS_VS :: u32 where [csr_consts]: "MSTATUS_VS = 0x600"
definition MSTATUS_MPP :: u32 where [csr_consts]: "MSTATUS_MPP = 0x1800"
definition MSTATUS_FS :: u32 where [csr_consts]: "MSTATUS_FS = 0x6000"
definition MSTATUS_XS :: u32 where [csr_consts]: "MSTATUS_XS = 0x18000"
definition MSTATUS_MPRV :: u32 where [csr_consts]: "MSTATUS_MPRV = 0x20000"
definition MSTATUS_SUM :: u32 where [csr_consts]: "MSTATUS_SUM = 0x40000"
definition MSTATUS_MXR :: u32 where [csr_consts]: "MSTATUS_MXR = 0x80000"
definition MSTATUS_TVM :: u32 where [csr_consts]: "MSTATUS_TVM = 0x100000"
definition MSTATUS_TW :: u32 where [csr_consts]: "MSTATUS_TW = 0x200000"
definition MSTATUS_TSR :: u32 where [csr_consts]: "MSTATUS_TSR = 0x400000"
definition MSTATUS_SD :: u32 where [csr_consts]: "MSTATUS_SD = 0x80000000"

abbreviation (input) MSTATUS_SIE_SHIFT :: nat where "MSTATUS_SIE_SHIFT \<equiv> 1"
abbreviation (input) MSTATUS_MIE_SHIFT :: nat where "MSTATUS_MIE_SHIFT \<equiv> 3"
abbreviation (input) MSTATUS_SPIE_SHIFT :: nat where "MSTATUS_SPIE_SHIFT \<equiv> 5"
abbreviation (input) MSTATUS_MPIE_SHIFT :: nat where "MSTATUS_MPIE_SHIFT \<equiv> 7"
abbreviation (input) MSTATUS_SPP_SHIFT :: nat where "MSTATUS_SPP_SHIFT \<equiv> 8"
abbreviation (input) MSTATUS_MPP_SHIFT :: nat where "MSTATUS_MPP_SHIFT \<equiv> 11"
abbreviation (input) MSTATUS_MPRV_SHIFT :: nat where "MSTATUS_MPRV_SHIFT \<equiv> 17"
abbreviation (input) MSTATUS_SUM_SHIFT :: nat where "MSTATUS_SUM_SHIFT \<equiv> 18"
abbreviation (input) MSTATUS_MXR_SHIFT :: nat where "MSTATUS_MXR_SHIFT \<equiv> 19"

definition MSTATUS_MASK :: u32 where [csr_consts]:
  "MSTATUS_MASK = NOT (MSTATUS_FS OR MSTATUS_VS OR MSTATUS_XS OR MSTATUS_SD)"
definition SSTATUS_MASK :: u32 where [csr_consts]:
  "SSTATUS_MASK = MSTATUS_SIE OR MSTATUS_SPIE OR MSTATUS_SPP OR MSTATUS_SUM OR MSTATUS_MXR"

definition MIP_SSIP :: u32 where [csr_consts]: "MIP_SSIP = 0x2"
definition MIP_MSIP :: u32 where [csr_consts]: "MIP_MSIP = 0x8"
definition MIP_STIP :: u32 where [csr_consts]: "MIP_STIP = 0x20"
definition MIP_MTIP :: u32 where [csr_consts]: "MIP_MTIP = 0x80"
definition MIP_SEIP :: u32 where [csr_consts]: "MIP_SEIP = 0x200"
definition MIP_MEIP :: u32 where [csr_consts]: "MIP_MEIP = 0x800"

definition MIE_MASK :: u32 where [csr_consts]:
  "MIE_MASK = MIP_SSIP OR MIP_MSIP OR MIP_STIP OR MIP_MTIP OR MIP_SEIP OR MIP_MEIP"
definition MIP_WMASK :: u32 where [csr_consts]: "MIP_WMASK = MIP_SSIP OR MIP_SEIP"
definition SIP_WMASK :: u32 where [csr_consts]: "SIP_WMASK = MIP_SSIP"
definition MIP_RMASK :: u32 where [csr_consts]: "MIP_RMASK = MIE_MASK"

subsection \<open>Exception causes\<close>

abbreviation (input) INSTR_ADDR_MISALIGNED :: u32 where "INSTR_ADDR_MISALIGNED \<equiv> 0"
abbreviation (input) INSTR_ACCESS_FAULT :: u32 where "INSTR_ACCESS_FAULT \<equiv> 1"
abbreviation (input) ILLEGAL_INSTR :: u32 where "ILLEGAL_INSTR \<equiv> 2"
abbreviation (input) BREAKPOINT :: u32 where "BREAKPOINT \<equiv> 3"
abbreviation (input) LOAD_ADDR_MISALIGNED :: u32 where "LOAD_ADDR_MISALIGNED \<equiv> 4"
abbreviation (input) LOAD_ACCESS_FAULT :: u32 where "LOAD_ACCESS_FAULT \<equiv> 5"
abbreviation (input) STORE_ADDR_MISALIGNED :: u32 where "STORE_ADDR_MISALIGNED \<equiv> 6"
abbreviation (input) STORE_ACCESS_FAULT :: u32 where "STORE_ACCESS_FAULT \<equiv> 7"
abbreviation (input) ECALL_U :: u32 where "ECALL_U \<equiv> 8"
abbreviation (input) ECALL_S :: u32 where "ECALL_S \<equiv> 9"
abbreviation (input) ECALL_M :: u32 where "ECALL_M \<equiv> 11"
abbreviation (input) INSTR_PAGE_FAULT :: u32 where "INSTR_PAGE_FAULT \<equiv> 12"
abbreviation (input) LOAD_PAGE_FAULT :: u32 where "LOAD_PAGE_FAULT \<equiv> 13"
abbreviation (input) STORE_PAGE_FAULT :: u32 where "STORE_PAGE_FAULT \<equiv> 15"

subsection \<open>CSR addresses\<close>

abbreviation (input) CSR_MSTATUS :: u16 where "CSR_MSTATUS \<equiv> 0x300"
abbreviation (input) CSR_MISA :: u16 where "CSR_MISA \<equiv> 0x301"
abbreviation (input) CSR_MEDELEG :: u16 where "CSR_MEDELEG \<equiv> 0x302"
abbreviation (input) CSR_MIDELEG :: u16 where "CSR_MIDELEG \<equiv> 0x303"
abbreviation (input) CSR_MIE :: u16 where "CSR_MIE \<equiv> 0x304"
abbreviation (input) CSR_MTVEC :: u16 where "CSR_MTVEC \<equiv> 0x305"
abbreviation (input) CSR_MCOUNTEREN :: u16 where "CSR_MCOUNTEREN \<equiv> 0x306"
abbreviation (input) CSR_MCOUNTERINHIBIT :: u16 where "CSR_MCOUNTERINHIBIT \<equiv> 0x320"
abbreviation (input) CSR_MSCRATCH :: u16 where "CSR_MSCRATCH \<equiv> 0x340"
abbreviation (input) CSR_MEPC :: u16 where "CSR_MEPC \<equiv> 0x341"
abbreviation (input) CSR_MCAUSE :: u16 where "CSR_MCAUSE \<equiv> 0x342"
abbreviation (input) CSR_MTVAL :: u16 where "CSR_MTVAL \<equiv> 0x343"
abbreviation (input) CSR_MIP :: u16 where "CSR_MIP \<equiv> 0x344"
abbreviation (input) CSR_MHARTID :: u16 where "CSR_MHARTID \<equiv> 0xF14"
abbreviation (input) CSR_TSELECT :: u16 where "CSR_TSELECT \<equiv> 0x7A0"
abbreviation (input) CSR_TDATA1 :: u16 where "CSR_TDATA1 \<equiv> 0x7A1"
abbreviation (input) CSR_TDATA2 :: u16 where "CSR_TDATA2 \<equiv> 0x7A2"
abbreviation (input) CSR_TDATA3 :: u16 where "CSR_TDATA3 \<equiv> 0x7A3"
abbreviation (input) CSR_MCONTEXT :: u16 where "CSR_MCONTEXT \<equiv> 0x7A8"
abbreviation (input) CSR_MCYCLE :: u16 where "CSR_MCYCLE \<equiv> 0xB00"
abbreviation (input) CSR_MINSTRET :: u16 where "CSR_MINSTRET \<equiv> 0xB02"
abbreviation (input) CSR_MCYCLEH :: u16 where "CSR_MCYCLEH \<equiv> 0xB80"
abbreviation (input) CSR_MINSTRETH :: u16 where "CSR_MINSTRETH \<equiv> 0xB82"
abbreviation (input) PMPCONFIG0 :: u16 where "PMPCONFIG0 \<equiv> 0x3A0"
abbreviation (input) PMPADDR0 :: u16 where "PMPADDR0 \<equiv> 0x3B0"
abbreviation (input) CSR_SSTATUS :: u16 where "CSR_SSTATUS \<equiv> 0x100"
abbreviation (input) CSR_SIE :: u16 where "CSR_SIE \<equiv> 0x104"
abbreviation (input) CSR_STVEC :: u16 where "CSR_STVEC \<equiv> 0x105"
abbreviation (input) CSR_SSCRATCH :: u16 where "CSR_SSCRATCH \<equiv> 0x140"
abbreviation (input) CSR_SEPC :: u16 where "CSR_SEPC \<equiv> 0x141"
abbreviation (input) CSR_SCAUSE :: u16 where "CSR_SCAUSE \<equiv> 0x142"
abbreviation (input) CSR_STVAL :: u16 where "CSR_STVAL \<equiv> 0x143"
abbreviation (input) CSR_SIP :: u16 where "CSR_SIP \<equiv> 0x144"
abbreviation (input) CSR_STIMECMP :: u16 where "CSR_STIMECMP \<equiv> 0x14D"
abbreviation (input) CSR_STIMECMPH :: u16 where "CSR_STIMECMPH \<equiv> 0x15D"
abbreviation (input) CSR_SATP :: u16 where "CSR_SATP \<equiv> 0x180"
abbreviation (input) CSR_CYCLE :: u16 where "CSR_CYCLE \<equiv> 0xC00"
abbreviation (input) CSR_TIME :: u16 where "CSR_TIME \<equiv> 0xC01"
abbreviation (input) CSR_CYCLEH :: u16 where "CSR_CYCLEH \<equiv> 0xC80"
abbreviation (input) CSR_TIMEH :: u16 where "CSR_TIMEH \<equiv> 0xC81"

subsection \<open>Bit helpers\<close>

definition get_bits :: "u32 \<Rightarrow> nat \<Rightarrow> nat \<Rightarrow> u32" where
  "get_bits inst hi lo = drop_bit lo inst AND (push_bit (hi - lo + 1) 1 - 1)"

text \<open>
  \<^verbatim>\<open>sign_extend\<close> returns \<^verbatim>\<open>int32_t\<close>; every caller stores it in a
  \<^verbatim>\<open>uint32_t\<close>, so the model returns the 32-bit pattern.
\<close>

definition sign_extend :: "u32 \<Rightarrow> nat \<Rightarrow> u32" where
  "sign_extend val bits = (let mask = push_bit (bits - 1) 1 in (val XOR mask) - mask)"

lemma get_bits_slice: "get_bits inst hi lo = take_bit (hi - lo + 1) (drop_bit lo inst)"
  by (simp add: get_bits_def take_bit_eq_mask mask_eq_exp_minus_1 push_bit_eq_mult del: push_bit_of_1)

lemma bit_get_bits:
  "bit (get_bits inst hi lo) n \<longleftrightarrow> n < hi - lo + 1 \<and> bit inst (lo + n)"
  by (auto simp: get_bits_slice bit_take_bit_iff bit_drop_bit_eq)

text \<open>
  On a value of at most \<open>n\<close> bits \<open>sign_extend\<close> copies bit \<open>n - 1\<close> upwards, which is
  the library's \<open>signed_take_bit\<close>.
\<close>

lemma sign_extend_signed_take_bit:
  assumes "n < 32"
  shows "sign_extend (take_bit (Suc n) v) (Suc n) = signed_take_bit n v"
proof (cases "bit v n")
  case True
  have "take_bit (Suc n) v XOR 2 ^ n = take_bit n v"
    using True assms by (intro bit_word_eqI) (auto simp: bit_simps less_Suc_eq)
  moreover have "signed_take_bit n v = take_bit n v + - (2 ^ n)"
  proof -
    have "take_bit n v AND NOT (mask n) = 0"
      by (intro bit_word_eqI) (auto simp: bit_simps)
    then have "take_bit n v AND - (2 ^ n) = 0"
      by (simp add: minus_exp_eq_not_mask)
    then have "take_bit n v + - (2 ^ n) = take_bit n v OR - (2 ^ n)"
      by (rule disjunctive_add_eq_or)
    then show ?thesis
      using True by (simp add: signed_take_bit_def minus_exp_eq_not_mask)
  qed
  ultimately show ?thesis
    by (simp add: sign_extend_def)
next
  case False
  have "take_bit n v AND 2 ^ n = 0"
    by (intro bit_word_eqI) (auto simp: bit_simps)
  then have "take_bit n v XOR 2 ^ n = take_bit n v + 2 ^ n"
    by (rule disjunctive_add_eq_xor [symmetric])
  moreover have "take_bit (Suc n) v = take_bit n v"
    using False by (intro bit_word_eqI) (auto simp: bit_simps less_Suc_eq)
  ultimately show ?thesis
    using False by (simp add: sign_extend_def Let_def signed_take_bit_def)
qed

end
