(* ===== verification/Tlb.thy ===== *)
theory Tlb
  imports Csr_Cfg "HOL-Library.Multiset"
begin

unbundle bit_operations_syntax

text \<open>
  The translation look-aside buffer of \<^verbatim>\<open>src/src/tlb.hpp\<close>: a table of 32 entries
  with a lookup that moves a hit to the front, an insertion that shifts entries towards
  the end, and the invalidation used by \<^verbatim>\<open>SFENCE.VMA\<close>. The table is the list of
  its entries; \<^verbatim>\<open>size\<close> is its length. The locale \<open>translation_cache\<close> states what
  the MMU relies on (a lookup only returns live entries that match, insertion invents
  nothing, invalidation removes what it names), with the coherence lemma proved once from
  these laws; the interpretation \<open>tlb\<close> discharges them for the code.
\<close>

subsection \<open>Entries and operations\<close>

record TLBEntry =
  te_vpn :: "20 word"
  te_asid :: "10 word"
  te_pte :: u32
  te_valid :: bool
  te_is_megapage :: bool

type_synonym TLB = "TLBEntry list"

text \<open>The constructor of an entry clears \<open>valid\<close> and leaves the other fields as they are
  in memory: \<open>junk\<close> stands for that memory.\<close>

definition TLBEntry_ctor :: "TLBEntry \<Rightarrow> TLBEntry" where
  "TLBEntry_ctor junk = junk\<lparr>te_valid := False\<rparr>"

definition TLB_ctor :: "TLBEntry \<Rightarrow> TLB" where
  "TLB_ctor junk = replicate 32 (TLBEntry_ctor junk)"

definition flush_match :: "u32 \<Rightarrow> u32 \<Rightarrow> TLBEntry \<Rightarrow> bool" where
  "flush_match asid vpn e \<longleftrightarrow>
     (ucast (te_asid e) = asid \<or> asid = 0) \<and> (vpn = ucast (te_vpn e) \<or> vpn = 0)"

definition tlb_flush :: "u32 \<Rightarrow> u32 \<Rightarrow> TLB \<Rightarrow> TLB" where
  "tlb_flush asid vpn table =
     map (\<lambda>e. if flush_match asid vpn e then e\<lparr>te_valid := False\<rparr> else e) table"

definition tlb_hit :: "u32 \<Rightarrow> u32 \<Rightarrow> TLBEntry \<Rightarrow> bool" where
  "tlb_hit asid vpn e \<longleftrightarrow>
     te_valid e \<and>
     (te_pte e AND 0x20 = 0x20 \<or> asid = ucast (te_asid e)) \<and>
     drop_bit 10 (ucast (te_vpn e) :: u32) = drop_bit 10 vpn \<and>
     (te_is_megapage e \<or> (ucast (te_vpn e) :: u32) AND 0x3ff = vpn AND 0x3ff)"

text \<open>The scan of \<^verbatim>\<open>find\<close>: the index of the first entry that matches.\<close>

fun find_index :: "u32 \<Rightarrow> u32 \<Rightarrow> TLB \<Rightarrow> nat option" where
  "find_index asid vpn [] = None"
| "find_index asid vpn (e # es) =
     (if tlb_hit asid vpn e then Some 0 else map_option Suc (find_index asid vpn es))"

definition promote :: "nat \<Rightarrow> TLB \<Rightarrow> TLB" where
  "promote i table = (if i \<noteq> 0 then table[i := table ! 0, 0 := table ! i] else table)"

definition tlb_find :: "TLBEntry \<Rightarrow> u32 \<Rightarrow> u32 \<Rightarrow> TLB \<Rightarrow> TLBEntry \<times> TLB" where
  "tlb_find junk asid vpn table =
     (case find_index asid vpn table of
        None \<Rightarrow> (TLBEntry_ctor junk, table)
      | Some i \<Rightarrow> (table ! i, promote i table))"

text \<open>The shifting loop of \<^verbatim>\<open>store\<close>: \<open>asid\<close> and \<open>vpn\<close> are those of the stored page
  throughout, \<open>tmp\<close> is the entry carried along.\<close>

fun store_loop :: "u32 \<Rightarrow> u32 \<Rightarrow> TLBEntry \<Rightarrow> TLB \<Rightarrow> TLB" where
  "store_loop asid vpn tmp [] = []"
| "store_loop asid vpn tmp (e # es) =
     (if (ucast (te_asid e) = asid \<or> ucast (te_vpn e) = vpn) \<or> \<not> te_valid e
      then tmp # es
      else tmp # store_loop asid vpn e es)"

definition store_vpn :: "u32 \<Rightarrow> bool \<Rightarrow> u32" where
  "store_vpn vpn is_megapage = (if is_megapage then vpn AND 0xfffffc00 else vpn)"

definition store_entry :: "u32 \<Rightarrow> u32 \<Rightarrow> u32 \<Rightarrow> bool \<Rightarrow> TLBEntry" where
  "store_entry asid vpn pte is_megapage =
     \<lparr>te_vpn = ucast (store_vpn vpn is_megapage), te_asid = ucast asid, te_pte = pte,
      te_valid = True, te_is_megapage = is_megapage\<rparr>"

definition tlb_store :: "u32 \<Rightarrow> u32 \<Rightarrow> u32 \<Rightarrow> bool \<Rightarrow> TLB \<Rightarrow> TLB" where
  "tlb_store asid vpn pte is_megapage table =
     store_loop asid (store_vpn vpn is_megapage) (store_entry asid vpn pte is_megapage) table"

subsection \<open>Basic facts\<close>

definition live :: "TLB \<Rightarrow> TLBEntry set" where
  "live table = {e \<in> set table. te_valid e}"

lemma length_tlb_flush [simp]: "length (tlb_flush asid vpn t) = length t"
  by (simp add: tlb_flush_def)

lemma length_store_loop [simp]: "length (store_loop asid vpn tmp t) = length t"
  by (induction asid vpn tmp t rule: store_loop.induct) auto

lemma length_tlb_store [simp]: "length (tlb_store asid vpn pte m t) = length t"
  by (simp add: tlb_store_def)

lemma length_tlb_find [simp]: "length (snd (tlb_find junk asid vpn t)) = length t"
  by (simp add: tlb_find_def promote_def split: option.split)

lemma find_index_Some:
  "find_index asid vpn t = Some i \<Longrightarrow> i < length t \<and> tlb_hit asid vpn (t ! i)"
  by (induction asid vpn t arbitrary: i rule: find_index.induct) (auto split: if_splits)

lemma find_index_None:
  "find_index asid vpn t = None \<longleftrightarrow> (\<forall>e \<in> set t. \<not> tlb_hit asid vpn e)"
  by (induction asid vpn t rule: find_index.induct) auto

lemma mset_tlb_find: "mset (snd (tlb_find junk asid vpn t)) = mset t"
proof (cases "find_index asid vpn t")
  case None
  then show ?thesis by (simp add: tlb_find_def)
next
  case (Some i)
  then have "i < length t" and "0 < length t"
    using find_index_Some by fastforce+
  then show ?thesis
    using Some by (simp add: tlb_find_def promote_def mset_swap)
qed

lemma set_store_loop: "set (store_loop asid vpn tmp t) \<subseteq> insert tmp (set t)"
  by (induction asid vpn tmp t rule: store_loop.induct) auto

lemma store_loop_hd: "t \<noteq> [] \<Longrightarrow> hd (store_loop asid vpn tmp t) = tmp"
  by (cases t) auto

lemma store_loop_in: "t \<noteq> [] \<Longrightarrow> tmp \<in> set (store_loop asid vpn tmp t)"
  by (cases t) auto

lemma tlb_store_Cons:
  assumes "t \<noteq> []"
  obtains es where "tlb_store asid vpn pte m t = store_entry asid vpn pte m # es"
proof (cases t)
  case (Cons e es)
  then show ?thesis
    using that by (cases "(ucast (te_asid e) = asid \<or> ucast (te_vpn e) = store_vpn vpn m) \<or> \<not> te_valid e")
      (simp_all add: tlb_store_def)
qed (use assms in simp)

lemma TLB_ctor_Cons:
  "TLB_ctor junk = TLBEntry_ctor junk # TLBEntry_ctor junk # replicate 30 (TLBEntry_ctor junk)"
  by (simp add: TLB_ctor_def flip: replicate_Suc)

lemma tlb_hit_valid: "tlb_hit asid vpn e \<Longrightarrow> te_valid e"
  by (simp add: tlb_hit_def)

subsection \<open>What the MMU relies on\<close>

locale translation_cache =
  fixes entries :: "'c \<Rightarrow> 'e set"
    and hit :: "'k \<Rightarrow> 'e \<Rightarrow> bool"
    and lookup :: "'k \<Rightarrow> 'c \<Rightarrow> 'e option \<times> 'c"
    and insert_entry :: "'s \<Rightarrow> 'c \<Rightarrow> 'c"
    and entry_of :: "'s \<Rightarrow> 'e"
    and evict :: "'f \<Rightarrow> 'c \<Rightarrow> 'c"
    and evicted :: "'f \<Rightarrow> 'e \<Rightarrow> bool"
  assumes lookup_Some: "fst (lookup k c) = Some e \<Longrightarrow> e \<in> entries c \<and> hit k e"
    and lookup_None: "fst (lookup k c) = None \<Longrightarrow> e \<in> entries c \<Longrightarrow> \<not> hit k e"
    and lookup_keeps: "entries (snd (lookup k c)) = entries c"
    and insert_bound: "entries (insert_entry s c) \<subseteq> insert (entry_of s) (entries c)"
    and evict_entries: "entries (evict f c) = {e \<in> entries c. \<not> evicted f e}"
begin

lemma sound_insert:
  assumes "\<forall>e \<in> entries c. P e" and "P (entry_of s)"
  shows "\<forall>e \<in> entries (insert_entry s c). P e"
  using assms insert_bound by blast

lemma sound_lookup:
  assumes "\<forall>e \<in> entries c. P e" and "fst (lookup k c) = Some e"
  shows "P e \<and> hit k e"
  using assms lookup_Some by blast

lemma sound_evict:
  assumes "\<forall>e \<in> entries c. P e" and "\<And>e. P e \<Longrightarrow> \<not> evicted f e \<Longrightarrow> Q e"
  shows "\<forall>e \<in> entries (evict f c). Q e"
  using assms evict_entries by auto

end

definition find_live :: "u32 \<times> u32 \<Rightarrow> TLB \<Rightarrow> TLBEntry option \<times> TLB" where
  "find_live k t =
     (map_option ((!) t) (find_index (fst k) (snd k) t),
      case find_index (fst k) (snd k) t of None \<Rightarrow> t | Some i \<Rightarrow> promote i t)"

lemma tlb_find_live:
  "fst (tlb_find junk asid vpn t) =
     (case fst (find_live (asid, vpn) t) of None \<Rightarrow> TLBEntry_ctor junk | Some e \<Rightarrow> e)"
  "snd (tlb_find junk asid vpn t) = snd (find_live (asid, vpn) t)"
  by (auto simp: tlb_find_def find_live_def split: option.split)

lemma set_tlb_find: "set (snd (tlb_find junk asid vpn t)) = set t"
  using mset_tlb_find [of junk asid vpn t] by (metis set_mset_mset)

interpretation tlb: translation_cache live "\<lambda>(asid, vpn). tlb_hit asid vpn" find_live
  "\<lambda>(asid, vpn, pte, m). tlb_store asid vpn pte m"
  "\<lambda>(asid, vpn, pte, m). store_entry asid vpn pte m"
  "\<lambda>(asid, vpn). tlb_flush asid vpn" "\<lambda>(asid, vpn). flush_match asid vpn"
proof unfold_locales
  fix k c e
  assume "fst (find_live k c) = Some e"
  then show "e \<in> live c \<and> (case k of (asid, vpn) \<Rightarrow> tlb_hit asid vpn) e"
    by (auto simp: find_live_def live_def dest!: find_index_Some intro: tlb_hit_valid
        split: prod.split)
next
  fix k c e
  assume "fst (find_live k c) = None" and "e \<in> live c"
  then show "\<not> (case k of (asid, vpn) \<Rightarrow> tlb_hit asid vpn) e"
    by (auto simp: find_live_def live_def find_index_None split: prod.split)
next
  fix k c
  show "live (snd (find_live k c)) = live c"
    using set_tlb_find [of _ "fst k" "snd k" c]
    by (simp add: live_def tlb_find_live(2))
next
  fix s c
  show "live ((case s of (asid, vpn, pte, m) \<Rightarrow> tlb_store asid vpn pte m) c) \<subseteq>
      insert (case s of (asid, vpn, pte, m) \<Rightarrow> store_entry asid vpn pte m) (live c)"
    using set_store_loop by (fastforce simp: live_def tlb_store_def split: prod.split)
next
  fix f c
  show "live ((case f of (asid, vpn) \<Rightarrow> tlb_flush asid vpn) c) =
      {e \<in> live c. \<not> (case f of (asid, vpn) \<Rightarrow> flush_match asid vpn) e}"
    by (auto simp: live_def tlb_flush_def split: prod.split if_splits)
qed

subsection \<open>Histories of operations\<close>

datatype tlb_op = Find u32 u32 | Store u32 u32 u32 bool | Flush u32 u32

fun tlb_apply :: "TLBEntry \<Rightarrow> tlb_op \<Rightarrow> TLB \<Rightarrow> TLB" where
  "tlb_apply junk (Find asid vpn) t = snd (tlb_find junk asid vpn t)"
| "tlb_apply junk (Store asid vpn pte m) t = tlb_store asid vpn pte m t"
| "tlb_apply junk (Flush asid vpn) t = tlb_flush asid vpn t"

text \<open>An entry descends from a store that no later flush has named.\<close>

definition stored_in :: "tlb_op list \<Rightarrow> TLBEntry \<Rightarrow> bool" where
  "stored_in ops e \<longleftrightarrow>
     (\<exists>xs a v p m ys. ops = xs @ Store a v p m # ys \<and> e = store_entry a v p m \<and>
        (\<forall>a' v'. Flush a' v' \<in> set ys \<longrightarrow> \<not> flush_match a' v' e))"

lemma stored_in_snoc:
  assumes "stored_in ops e" and "\<And>a v. op = Flush a v \<Longrightarrow> \<not> flush_match a v e"
  shows "stored_in (ops @ [op]) e"
proof -
  obtain xs a v p m ys where "ops = xs @ Store a v p m # ys" and "e = store_entry a v p m"
    and "\<forall>a' v'. Flush a' v' \<in> set ys \<longrightarrow> \<not> flush_match a' v' e"
    using assms(1) by (auto simp: stored_in_def)
  then have "ops @ [op] = xs @ Store a v p m # (ys @ [op])" and
    "\<forall>a' v'. Flush a' v' \<in> set (ys @ [op]) \<longrightarrow> \<not> flush_match a' v' e"
    using assms(2) by auto
  then show ?thesis
    unfolding stored_in_def using \<open>e = store_entry a v p m\<close> by blast
qed

lemma stored_in_Store: "stored_in (ops @ [Store a v p m]) (store_entry a v p m)"
  unfolding stored_in_def by force

lemma live_stored_in:
  "\<forall>e \<in> live (fold (tlb_apply junk) ops (TLB_ctor junk)). stored_in ops e"
proof (induction ops rule: rev_induct)
  case Nil
  show ?case
    by (simp add: live_def TLB_ctor_def TLBEntry_ctor_def)
next
  case (snoc op ops)
  let ?t = "fold (tlb_apply junk) ops (TLB_ctor junk)"
  have keep: "\<forall>e \<in> live ?t. (\<forall>a v. op = Flush a v \<longrightarrow> \<not> flush_match a v e) \<longrightarrow>
      stored_in (ops @ [op]) e"
    using snoc.IH stored_in_snoc by blast
  show ?case
  proof (cases op)
    case (Find a v)
    then show ?thesis
      using keep tlb.lookup_keeps [of "(a, v)" ?t] by (simp add: tlb_find_live)
  next
    case (Store a v p m)
    then show ?thesis
      using keep tlb.insert_bound [of "(a, v, p, m)" ?t] stored_in_Store [of ops a v p m]
      by auto
  next
    case (Flush a v)
    then show ?thesis
      using keep tlb.evict_entries [of "(a, v)" ?t] by auto
  qed
qed

subsection \<open>Properties\<close>

text \<open>
  C30. Every translation the TLB hands out comes from a page walk: after any sequence of
  lookups, stores and flushes from the empty table, an entry returned as valid matches
  the requested address space and page, is exactly an entry some earlier store wrote, and
  no flush after that store named it.
\<close>

theorem tlb_find_provenance:
  assumes "tlb_find junk asid vpn (fold (tlb_apply junk) ops (TLB_ctor junk)) = (e, t)"
    and "te_valid e"
  shows "tlb_hit asid vpn e \<and> stored_in ops e"
proof -
  let ?t = "fold (tlb_apply junk) ops (TLB_ctor junk)"
  have "fst (find_live (asid, vpn) ?t) = Some e"
    using assms tlb_find_live(1) [of junk asid vpn ?t]
    by (auto simp: TLBEntry_ctor_def split: option.splits)
  then show ?thesis
    using tlb.sound_lookup [OF live_stored_in] by fastforce
qed

theorem tlb_find_provenance_witness:
  "let junk = \<lparr>te_vpn = 7, te_asid = 7, te_pte = 7, te_valid = True, te_is_megapage = True\<rparr>;
       ops = [Store 1 0x12345 0xCF False, Flush 2 0, Store 3 0x80000 0xEF True];
       e = store_entry 1 0x12345 0xCF False
   in te_valid e \<and>
      fst (tlb_find junk 1 0x12345 (fold (tlb_apply junk) ops (TLB_ctor junk))) = e \<and>
      tlb_hit 1 0x12345 e \<and> stored_in ops e"
proof -
  define junk where
    "junk = \<lparr>te_vpn = 7, te_asid = 7, te_pte = 7, te_valid = True, te_is_megapage = True\<rparr>"
  define ops where "ops = [Store 1 0x12345 0xCF False, Flush 2 0, Store 3 0x80000 0xEF True]"
  define e where "e = store_entry 1 0x12345 0xCF False"
  define r where "r = tlb_find junk 1 0x12345 (fold (tlb_apply junk) ops (TLB_ctor junk))"
  have r: "fst r = e"
    by (simp add: r_def e_def ops_def junk_def TLB_ctor_Cons TLBEntry_ctor_def tlb_store_def
        store_entry_def store_vpn_def tlb_flush_def flush_match_def tlb_find_def tlb_hit_def)
  have v: "te_valid e"
    by (simp add: e_def store_entry_def)
  have "tlb_hit 1 0x12345 e \<and> stored_in ops e"
    by (rule tlb_find_provenance [of junk _ _ _ _ "snd r", OF _ v]) (simp add: r_def [symmetric] r prod_eq_iff)
  then show ?thesis
    using r v by (simp add: Let_def r_def junk_def ops_def e_def)
qed

lemma store_entry_hit:
  assumes "asid < 0x400" and "vpn < 0x100000"
    and "if m then drop_bit 10 v = drop_bit 10 vpn else v = vpn"
  shows "tlb_hit asid v (store_entry asid vpn pte m)"
proof -
  have a: "take_bit 10 asid = asid" and v: "take_bit 20 vpn = vpn"
    using assms(1,2) by (simp_all add: take_bit_word_small)
  have "drop_bit 10 (take_bit 20 (vpn AND NOT (mask 10))) = drop_bit 10 (take_bit 20 vpn)"
    by (intro bit_word_eqI) (auto simp: bit_simps)
  then have "drop_bit 10 (take_bit 20 (vpn AND 0xFFFFFC00)) = drop_bit 10 vpn"
    by (simp add: v mask_eq_exp_minus_1)
  then show ?thesis
    using assms(3) by (auto simp: tlb_hit_def store_entry_def store_vpn_def ucast_narrow_widen a v)
qed

text \<open>
  A page stored in the TLB is found again: right after a store, a lookup in the same
  address space returns the stored entry, for exactly the page or, for a megapage, for
  every page of the megapage, and leaves the table as it is.
\<close>

theorem tlb_store_find:
  assumes "t \<noteq> []" and "asid < 0x400" and "vpn < 0x100000"
    and "if m then drop_bit 10 v = drop_bit 10 vpn else v = vpn"
  shows "tlb_find junk asid v (tlb_store asid vpn pte m t) =
           (store_entry asid vpn pte m, tlb_store asid vpn pte m t)"
proof -
  obtain es where "tlb_store asid vpn pte m t = store_entry asid vpn pte m # es"
    using tlb_store_Cons [OF assms(1)] .
  then show ?thesis
    using store_entry_hit [OF assms(2-4)] by (simp add: tlb_find_def promote_def)
qed

theorem tlb_store_find_witness:
  "[store_entry 0 1 0xCF False] \<noteq> [] \<and> (5 :: u32) < 0x400 \<and> (0x80400 :: u32) < 0x100000 \<and>
   drop_bit 10 (0x80555 :: u32) = drop_bit 10 0x80400 \<and>
   fst (tlb_find (store_entry 0 0 0 False) 5 0x80555
     (tlb_store 5 0x80400 0xCF True [store_entry 0 1 0xCF False])) = store_entry 5 0x80400 0xCF True"
  using tlb_store_find [of "[store_entry 0 1 0xCF False]" 5 "0x80400" True "0x80555"] by simp

text \<open>
  Invalidation by address never hits: the table compares the second argument of
  \<^verbatim>\<open>flush\<close> with 20-bit page numbers, so a flush given a virtual address of
  \<open>2\<^sup>20\<close> or above, which is what \<^verbatim>\<open>SFENCE.VMA\<close> passes, changes nothing.
\<close>

theorem tlb_flush_address_noop:
  assumes "0x100000 \<le> vaddr"
  shows "tlb_flush asid vaddr t = t"
proof -
  have "vaddr \<noteq> ucast (te_vpn e)" for e :: TLBEntry
  proof -
    have "(ucast (te_vpn e) :: u32) < 2 ^ 20"
      using ucast_bound [of "te_vpn e", where 'a = 32] by simp
    then show ?thesis
      using assms by auto
  qed
  moreover have "vaddr \<noteq> 0"
    using assms by auto
  ultimately have "\<not> flush_match asid vaddr e" for e
    by (simp add: flush_match_def)
  then show ?thesis
    by (simp add: tlb_flush_def)
qed

theorem tlb_flush_address_noop_witness:
  "(0x100000 :: u32) \<le> 0x80400000 \<and>
   live (tlb_flush 0 0x80400000 [store_entry 0 0x80400 0xCF False]) = {store_entry 0 0x80400 0xCF False}"
proof -
  have "(0x100000 :: u32) \<le> 0x80400000"
    by simp
  then show ?thesis
    using tlb_flush_address_noop [of "0x80400000" 0 "[store_entry 0 0x80400 0xCF False]"]
    by (auto simp: live_def store_entry_def)
qed

text \<open>
  A store evicts by address space alone: when the first entry belongs to the address
  space of the stored page, it is overwritten whatever page it maps, and the rest of the
  table is not used.
\<close>

theorem tlb_store_same_asid:
  assumes "ucast (te_asid e) = asid"
  shows "tlb_store asid vpn pte m (e # es) = store_entry asid vpn pte m # es"
  using assms by (simp add: tlb_store_def)

theorem tlb_store_same_asid_witness:
  "let t = tlb_store 5 0x222 0xCF False [store_entry 5 0x111 0xCF False, store_entry 6 0 0xCF False]
   in t = [store_entry 5 0x222 0xCF False, store_entry 6 0 0xCF False] \<and>
      \<not> te_valid (fst (tlb_find (store_entry 0 0 0 False) 5 0x111 t))"
proof -
  have "ucast (te_asid (store_entry 5 0x111 0xCF False)) = (5 :: u32)"
    by (simp add: store_entry_def)
  then have "tlb_store 5 0x222 0xCF False [store_entry 5 0x111 0xCF False, store_entry 6 0 0xCF False] =
      [store_entry 5 0x222 0xCF False, store_entry 6 0 0xCF False]"
    by (rule tlb_store_same_asid)
  then show ?thesis
    by (simp add: TLBEntry_ctor_def store_entry_def store_vpn_def tlb_find_def tlb_hit_def Let_def)
qed

end
