(* ===== verification/Pmp.thy ===== *)
theory Pmp
  imports Csr_Cfg
begin

unbundle bit_operations_syntax

text \<open>
  Physical memory protection, \<^verbatim>\<open>src/src/pmp.hpp\<close>: 64 address and configuration
  registers, the set \<^verbatim>\<open>pmpentry_id\<close> of configured entries, the two access checks and
  the two register updates with their lock rules. The registers are SystemC signals: a
  write becomes visible after the process has run, so the loop of \<^verbatim>\<open>update_config\<close>
  reads the old configuration throughout, while \<^verbatim>\<open>pmpentry_id\<close> is an ordinary
  \<^verbatim>\<open>std::set\<close> (kept as its ascending list) that changes at once.

  Shown here: the set always names exactly the configured entries, the checks agree with
  a reference check over all 64 entries, the NAPOT mask arithmetic describes the aligned
  power-of-two region, and locked entries keep their region for ever.
\<close>

subsection \<open>State and operations\<close>

abbreviation (input) PMPCOUNT :: nat where "PMPCOUNT \<equiv> 64"
abbreviation (input) PMPLOCK :: u8 where "PMPLOCK \<equiv> 128"
abbreviation (input) PMPA :: u8 where "PMPA \<equiv> 24"
abbreviation (input) PMPOFF :: u8 where "PMPOFF \<equiv> 0"
abbreviation (input) PMPTOR :: u8 where "PMPTOR \<equiv> 8"
abbreviation (input) PMPNA4 :: u8 where "PMPNA4 \<equiv> 16"
abbreviation (input) PMPNAPOT :: u8 where "PMPNAPOT \<equiv> 24"

record PMP =
  pmpaddr :: "u64 list"
  pmpconfig :: "u8 list"
  pmpentry_id :: "nat list"

definition PMP_ctor :: PMP where
  "PMP_ctor = \<lparr>pmpaddr = replicate 64 0, pmpconfig = replicate 64 0, pmpentry_id = []\<rparr>"

definition napot_mask :: "u64 \<Rightarrow> u64" where
  "napot_mask a = push_bit 2 (- (push_bit 1 ((a + 1) AND (- (a + 1)))))"

text \<open>The range test of entry \<open>i\<close>: whether the first and the last byte of the access lie in it.\<close>

definition pmp_range :: "PMP \<Rightarrow> nat \<Rightarrow> u64 \<Rightarrow> u8 \<Rightarrow> bool \<times> bool" where
  "pmp_range p i addr sz =
     (let cfg = pmpconfig p ! i; last = addr + ucast sz - 1
      in if cfg AND PMPA = PMPTOR then
           (let base = (if i \<noteq> 0 then push_bit 2 (pmpaddr p ! (i - 1)) else 0);
                top = push_bit 2 (pmpaddr p ! i)
            in (base \<le> addr \<and> addr < top, base \<le> last \<and> last < top))
         else if cfg AND PMPA = PMPNA4 then
           (let base = push_bit 2 (pmpaddr p ! i); top = push_bit 2 (pmpaddr p ! i) + 3
            in (base \<le> addr \<and> addr \<le> top, base \<le> last \<and> last \<le> top))
         else if cfg AND PMPA = PMPNAPOT then
           (let mask = napot_mask (pmpaddr p ! i)
            in (addr AND mask = push_bit 2 (pmpaddr p ! i) AND mask,
                last AND mask = push_bit 2 (pmpaddr p ! i) AND mask))
         else (False, False))"

definition pmp_applies :: "PMP \<Rightarrow> nat \<Rightarrow> u64 \<Rightarrow> u8 \<Rightarrow> u8 \<Rightarrow> bool" where
  "pmp_applies p i addr sz priv \<longleftrightarrow>
     (fst (pmp_range p i addr sz) \<or> snd (pmp_range p i addr sz)) \<and>
     (priv \<noteq> 3 \<or> (pmpconfig p ! i) AND PMPLOCK \<noteq> 0)"

definition pmp_permits :: "PMP \<Rightarrow> nat \<Rightarrow> u64 \<Rightarrow> u8 \<Rightarrow> u8 \<Rightarrow> bool" where
  "pmp_permits p i addr op sz \<longleftrightarrow>
     (let cfg = pmpconfig p ! i
      in op AND (cfg OR of_bool (cfg AND 2 \<noteq> 0)) = op \<and>
         fst (pmp_range p i addr sz) \<and> snd (pmp_range p i addr sz))"

fun pmp_scan :: "PMP \<Rightarrow> nat list \<Rightarrow> u64 \<Rightarrow> u8 \<Rightarrow> u8 \<Rightarrow> u8 \<Rightarrow> bool" where
  "pmp_scan p [] addr op sz priv = (priv = 3)"
| "pmp_scan p (i # is) addr op sz priv =
     (if pmp_applies p i addr sz priv then pmp_permits p i addr op sz
      else pmp_scan p is addr op sz priv)"

definition dcheck :: "PMP \<Rightarrow> u64 \<Rightarrow> u8 \<Rightarrow> u8 \<Rightarrow> u8 \<Rightarrow> bool" where
  "dcheck p addr op sz priv = pmp_scan p (pmpentry_id p) addr op sz priv"

definition icheck :: "PMP \<Rightarrow> u64 \<Rightarrow> u8 \<Rightarrow> u8 \<Rightarrow> u8 \<Rightarrow> bool" where
  "icheck p addr op sz priv = pmp_scan p (pmpentry_id p) addr op sz priv"

text \<open>The guard both updates share: entry \<open>a\<close> is unlocked and is not the base of a locked
  TOR entry.\<close>

definition pmp_writable :: "u8 list \<Rightarrow> nat \<Rightarrow> bool" where
  "pmp_writable cfg a \<longleftrightarrow>
     cfg ! a AND PMPLOCK = 0 \<and>
     (a = PMPCOUNT - 1 \<or> cfg ! (a + 1) AND (PMPLOCK OR 0x18) \<noteq> PMPLOCK OR 0x8)"

definition update_addr :: "nat \<Rightarrow> u32 \<Rightarrow> PMP \<Rightarrow> PMP" where
  "update_addr addr val p =
     (if pmp_writable (pmpconfig p) addr
      then p\<lparr>pmpaddr := (pmpaddr p)[addr := ucast val]\<rparr> else p)"

text \<open>One round of the loop of \<^verbatim>\<open>update_config\<close>; \<open>cfg\<close> is the configuration the signals
  show during the whole call.\<close>

definition update_config_step :: "u8 list \<Rightarrow> nat \<Rightarrow> u32 \<Rightarrow> nat \<Rightarrow> PMP \<Rightarrow> PMP" where
  "update_config_step cfg addr val i p =
     (let a = addr * 4 + i; v = ucast (drop_bit (8 * i) val) :: u8
      in if pmp_writable cfg a then
           p\<lparr>pmpconfig := (pmpconfig p)[a := v],
             pmpentry_id :=
               (let ids = (if cfg ! a = 0 \<and> v \<noteq> 0 then insort_insert a (pmpentry_id p)
                           else pmpentry_id p)
                in if cfg ! a \<noteq> 0 \<and> v = 0 then removeAll a ids else ids)\<rparr>
         else p)"

definition update_config :: "nat \<Rightarrow> u32 \<Rightarrow> PMP \<Rightarrow> PMP" where
  "update_config addr val p = fold (update_config_step (pmpconfig p) addr val) [0..<4] p"

subsection \<open>Invariant\<close>

definition pmp_ok :: "PMP \<Rightarrow> bool" where
  "pmp_ok p \<longleftrightarrow>
     length (pmpaddr p) = 64 \<and> length (pmpconfig p) = 64 \<and>
     pmpentry_id p = filter (\<lambda>i. pmpconfig p ! i \<noteq> 0) [0..<64]"

lemma pmp_ok_ctor: "pmp_ok PMP_ctor"
  by (simp add: pmp_ok_def PMP_ctor_def)

lemma pmp_ok_update_addr: "pmp_ok p \<Longrightarrow> pmp_ok (update_addr a v p)"
  by (simp add: pmp_ok_def update_addr_def)

lemma filter_upd_insert:
  assumes "a < n" and "\<not> P a"
  shows "filter (P(a := True)) [0..<n] = insort_insert a (filter P [0..<n])"
proof -
  have "sorted (filter (P(a := True)) [0..<n])" and "distinct (filter (P(a := True)) [0..<n])"
    and "sorted (insort_insert a (filter P [0..<n]))"
    and "distinct (insort_insert a (filter P [0..<n]))"
    by (simp_all add: sorted_wrt_filter sorted_insort_insert distinct_insort_insert)
  moreover have "set (filter (P(a := True)) [0..<n]) = set (insort_insert a (filter P [0..<n]))"
    using assms by (auto simp: set_insort_insert)
  ultimately show ?thesis
    by (rule sorted_distinct_set_unique)
qed

lemma filter_upd_remove:
  "filter (P(a := False)) xs = removeAll a (filter P xs)"
  by (induction xs) auto

lemma update_config_step_config:
  "pmpconfig (update_config_step cfg addr val i p) =
     (if pmp_writable cfg (addr * 4 + i)
      then (pmpconfig p)[addr * 4 + i := ucast (drop_bit (8 * i) val)] else pmpconfig p)"
  by (simp add: update_config_step_def Let_def)

lemma update_config_step_addr [simp]:
  "pmpaddr (update_config_step cfg addr val i p) = pmpaddr p"
  by (simp add: update_config_step_def Let_def)

lemma pmp_ok_update_config_step:
  assumes ok: "pmp_ok p" and a: "addr * 4 + i < 64"
    and old: "cfg ! (addr * 4 + i) = pmpconfig p ! (addr * 4 + i)"
  shows "pmp_ok (update_config_step cfg addr val i p)"
proof -
  let ?a = "addr * 4 + i" and ?v = "ucast (drop_bit (8 * i) val) :: u8"
  let ?P = "\<lambda>j. pmpconfig p ! j \<noteq> 0"
  have len: "length (pmpconfig p) = 64" and ids: "pmpentry_id p = filter ?P [0..<64]"
    using ok by (simp_all add: pmp_ok_def)
  have new: "filter (\<lambda>j. (pmpconfig p)[?a := ?v] ! j \<noteq> 0) [0..<64] =
      filter (?P(?a := ?v \<noteq> 0)) [0..<64]"
    using len a by (intro filter_cong) (auto simp: nth_list_update)
  have same: "?P(?a := ?P ?a) = ?P"
    by auto
  have "filter (?P(?a := ?v \<noteq> 0)) [0..<64] =
      (let ids = (if ?P ?a = False \<and> ?v \<noteq> 0 then insort_insert ?a (pmpentry_id p) else pmpentry_id p)
       in if ?P ?a \<and> ?v = 0 then removeAll ?a ids else ids)"
    using filter_upd_insert [of ?a 64 ?P] filter_upd_remove [of ?P ?a "[0..<64]"] a same
    by (cases "?P ?a"; cases "?v = 0") (simp_all add: ids Let_def)
  then show ?thesis
    using ok new by (simp add: pmp_ok_def update_config_step_def Let_def old)
qed

lemma upt_4: "[0..<4] = [0, 1, 2, 3 :: nat]"
  by (simp add: upt_rec)

lemma pmp_ok_update_config:
  assumes "pmp_ok p" and "addr < 16"
  shows "pmp_ok (update_config addr val p)"
  using assms
  by (simp add: update_config_def upt_4 pmp_ok_update_config_step update_config_step_config)

lemma fold_config_nth:
  assumes "\<forall>i \<in> set is. addr * 4 + i < length (pmpconfig p)"
  shows "pmpconfig (fold (update_config_step cfg addr val) is p) ! j =
     (if addr * 4 \<le> j \<and> j - addr * 4 \<in> set is \<and> pmp_writable cfg j
      then ucast (drop_bit (8 * (j - addr * 4)) val) else pmpconfig p ! j)"
  using assms
proof (induction "is" arbitrary: p)
  case (Cons i "is")
  have "\<forall>i \<in> set is. addr * 4 + i < length (pmpconfig (update_config_step cfg addr val i p))"
    for i using Cons.prems by (simp add: update_config_step_config)
  with Cons.IH Cons.prems show ?case
    by (auto simp: update_config_step_config nth_list_update)
qed simp

lemma update_config_nth:
  assumes "length (pmpconfig p) = 64" and "addr < 16"
  shows "pmpconfig (update_config addr val p) ! j =
     (if j div 4 = addr \<and> pmp_writable (pmpconfig p) j
      then ucast (drop_bit (8 * (j mod 4)) val) else pmpconfig p ! j)"
proof -
  have "addr * 4 \<le> j \<and> j - addr * 4 \<in> set [0..<4] \<longleftrightarrow> j div 4 = addr"
    by auto
  moreover have "j - addr * 4 = j mod 4" if "j div 4 = addr"
    using that by (simp add: modulo_nat_def)
  ultimately show ?thesis
    using assms fold_config_nth [of "[0..<4]" addr p "pmpconfig p" val j]
    by (auto simp: update_config_def)
qed

lemma update_config_addr [simp]: "pmpaddr (update_config addr val p) = pmpaddr p"
  by (simp add: update_config_def upt_4)

subsection \<open>Lock rules\<close>

text \<open>
  What a client of lockable registers may rely on: while an entry is locked, no operation
  changes what is visible of it, nor unlocks it.
\<close>

locale lockable =
  fixes ok :: "'s \<Rightarrow> bool"
    and step :: "'op \<Rightarrow> 's \<Rightarrow> 's"
    and valid_op :: "'op \<Rightarrow> bool"
    and locked :: "'s \<Rightarrow> 'i \<Rightarrow> bool"
    and view :: "'s \<Rightarrow> 'i \<Rightarrow> 'v"
  assumes step_ok: "ok s \<Longrightarrow> valid_op op \<Longrightarrow> ok (step op s)"
    and step_locked: "ok s \<Longrightarrow> valid_op op \<Longrightarrow> locked s i \<Longrightarrow> locked (step op s) i"
    and step_view: "ok s \<Longrightarrow> valid_op op \<Longrightarrow> locked s i \<Longrightarrow> view (step op s) i = view s i"
begin

lemma run_ok: "ok s \<Longrightarrow> \<forall>op \<in> set ops. valid_op op \<Longrightarrow> ok (fold step ops s)"
  by (induction ops arbitrary: s) (auto simp: step_ok)

lemma run_locked:
  "ok s \<Longrightarrow> \<forall>op \<in> set ops. valid_op op \<Longrightarrow> locked s i \<Longrightarrow>
     locked (fold step ops s) i \<and> view (fold step ops s) i = view s i"
  by (induction ops arbitrary: s) (auto simp: step_ok step_locked step_view)

end

datatype pmp_op = Update_config nat u32 | Update_addr nat u32

fun pmp_apply :: "pmp_op \<Rightarrow> PMP \<Rightarrow> PMP" where
  "pmp_apply (Update_config a v) p = update_config a v p"
| "pmp_apply (Update_addr a v) p = update_addr a v p"

text \<open>The operations \<^verbatim>\<open>exec.hpp\<close> performs: configuration registers 0 to 15, address
  registers 0 to 63.\<close>

fun pmp_op_ok :: "pmp_op \<Rightarrow> bool" where
  "pmp_op_ok (Update_config a v) = (a < 16)"
| "pmp_op_ok (Update_addr a v) = (a < 64)"

definition pmp_locked :: "PMP \<Rightarrow> nat \<Rightarrow> bool" where
  "pmp_locked p i \<longleftrightarrow> i < 64 \<and> pmpconfig p ! i AND PMPLOCK \<noteq> 0"

definition tor_base :: "PMP \<Rightarrow> nat \<Rightarrow> u64" where
  "tor_base p i = (if pmpconfig p ! i AND PMPA = PMPTOR \<and> i \<noteq> 0 then pmpaddr p ! (i - 1) else 0)"

definition pmp_view :: "PMP \<Rightarrow> nat \<Rightarrow> u8 \<times> u64 \<times> u64" where
  "pmp_view p i = (pmpconfig p ! i, pmpaddr p ! i, tor_base p i)"

lemma locked_tor_mask:
  fixes cfg :: u8
  assumes "cfg AND 128 \<noteq> 0" and "cfg AND 24 = 8"
  shows "cfg AND 152 = 136"
proof -
  have "cfg AND 128 = 128"
    using assms(1) and_power_eq [of cfg 7] by (simp split: if_splits)
  moreover have "cfg AND 152 = (cfg AND 128) OR (cfg AND 24)"
    by (simp flip: bit.conj_disj_distrib)
  ultimately show ?thesis
    using assms(2) by simp
qed

lemma locked_not_writable: "pmp_locked p i \<Longrightarrow> \<not> pmp_writable (pmpconfig p) i"
  by (simp add: pmp_locked_def pmp_writable_def)

lemma locked_tor_base_not_writable:
  assumes "pmp_locked p i" and "pmpconfig p ! i AND PMPA = PMPTOR" and "i \<noteq> 0"
  shows "\<not> pmp_writable (pmpconfig p) (i - 1)"
  using assms locked_tor_mask [of "pmpconfig p ! i"]
  by (auto simp: pmp_locked_def pmp_writable_def)

lemma pmp_apply_locked_view:
  assumes "pmp_ok p" and "pmp_op_ok op" and "pmp_locked p i"
  shows "pmp_view (pmp_apply op p) i = pmp_view p i"
proof (cases op)
  case (Update_config a v)
  then show ?thesis
    using assms by (simp add: pmp_view_def tor_base_def pmp_ok_def update_config_nth locked_not_writable)
next
  case (Update_addr a v)
  have "a \<noteq> i" if "pmp_writable (pmpconfig p) a"
    using that assms(3) locked_not_writable by auto
  moreover have "a \<noteq> i - 1"
    if "pmp_writable (pmpconfig p) a" "pmpconfig p ! i AND PMPA = PMPTOR" "i \<noteq> 0"
    using that assms(3) locked_tor_base_not_writable by auto
  ultimately show ?thesis
    using Update_addr by (auto simp: pmp_view_def tor_base_def update_addr_def)
qed

interpretation pmp_lock: lockable pmp_ok pmp_apply pmp_op_ok pmp_locked pmp_view
proof unfold_locales
  fix s op
  assume "pmp_ok s" and "pmp_op_ok op"
  then show "pmp_ok (pmp_apply op s)"
    by (cases op) (auto simp: pmp_ok_update_addr pmp_ok_update_config)
next
  fix s op i
  assume *: "pmp_ok s" "pmp_op_ok op" "pmp_locked s i"
  show "pmp_view (pmp_apply op s) i = pmp_view s i"
    using * by (rule pmp_apply_locked_view)
  then show "pmp_locked (pmp_apply op s) i"
    using * by (simp add: pmp_locked_def pmp_view_def)
qed

subsection \<open>The checks against a reference\<close>

text \<open>The reference looks at all 64 entries in order and lets the first one that applies decide.\<close>

definition pmp_reference :: "PMP \<Rightarrow> u64 \<Rightarrow> u8 \<Rightarrow> u8 \<Rightarrow> u8 \<Rightarrow> bool" where
  "pmp_reference p addr op sz priv =
     (case find (\<lambda>i. pmp_applies p i addr sz priv) [0..<64] of
        None \<Rightarrow> priv = 3
      | Some i \<Rightarrow> pmp_permits p i addr op sz)"

lemma pmp_scan_find:
  "pmp_scan p is addr op sz priv =
     (case find (\<lambda>i. pmp_applies p i addr sz priv) is of
        None \<Rightarrow> priv = 3 | Some i \<Rightarrow> pmp_permits p i addr op sz)"
  by (induction "is") auto

lemma pmp_scan_filter:
  assumes "\<And>i. i \<in> set is \<Longrightarrow> \<not> P i \<Longrightarrow> \<not> pmp_applies p i addr sz priv"
  shows "pmp_scan p (filter P is) addr op sz priv = pmp_scan p is addr op sz priv"
  using assms by (induction "is") auto

lemma pmp_off_no_range: "pmpconfig p ! i = 0 \<Longrightarrow> \<not> pmp_applies p i addr sz priv"
  by (simp add: pmp_applies_def pmp_range_def Let_def)

lemma pmp_scan_reference:
  assumes "pmp_ok p"
  shows "pmp_scan p (pmpentry_id p) addr op sz priv = pmp_reference p addr op sz priv"
proof -
  have "pmp_scan p (filter (\<lambda>i. pmpconfig p ! i \<noteq> 0) [0..<64]) addr op sz priv =
      pmp_scan p [0..<64] addr op sz priv"
    by (rule pmp_scan_filter) (simp add: pmp_off_no_range)
  then show ?thesis
    using assms by (simp add: pmp_ok_def pmp_reference_def pmp_scan_find)
qed

text \<open>
  C27. The access checks walk only the entries recorded in \<open>pmpentry_id\<close>, yet after any
  sequence of configuration and address register writes they return what a check of all
  64 entries in priority order returns: the lowest-numbered entry that covers a byte of
  the access (and binds the privilege level) decides, and with none only machine mode
  may proceed.
\<close>

theorem pmp_checks_reference:
  assumes "\<forall>op \<in> set ops. pmp_op_ok op"
  shows "dcheck (fold pmp_apply ops PMP_ctor) addr op sz priv =
           pmp_reference (fold pmp_apply ops PMP_ctor) addr op sz priv \<and>
         icheck (fold pmp_apply ops PMP_ctor) addr op sz priv =
           pmp_reference (fold pmp_apply ops PMP_ctor) addr op sz priv"
  using pmp_lock.run_ok [OF pmp_ok_ctor assms]
  by (simp add: dcheck_def icheck_def pmp_scan_reference)

theorem pmp_checks_reference_witness:
  "list_all pmp_op_ok [Update_addr 0 0x20000000, Update_config 0 0x0B] \<and>
   dcheck (fold pmp_apply [Update_addr 0 0x20000000, Update_config 0 0x0B] PMP_ctor) 0x1000 2 4 0 =
   pmp_reference (fold pmp_apply [Update_addr 0 0x20000000, Update_config 0 0x0B] PMP_ctor) 0x1000 2 4 0"
  using pmp_checks_reference [of "[Update_addr 0 0x20000000, Update_config 0 0x0B]"] by simp

text \<open>
  C28. A locked entry is fixed until reset: whatever sequence of register writes follows,
  its configuration stays, and so does the address range it covers, including the lower
  bound a locked TOR entry takes from its neighbour.
\<close>

theorem pmp_locked_region_fixed:
  assumes "pmp_ok p" and "\<forall>op \<in> set ops. pmp_op_ok op"
    and "i < 64" and "pmpconfig p ! i AND PMPLOCK \<noteq> 0"
  shows "pmpconfig (fold pmp_apply ops p) ! i = pmpconfig p ! i \<and>
         pmp_range (fold pmp_apply ops p) i addr sz = pmp_range p i addr sz"
proof -
  have "pmp_locked p i"
    using assms(3,4) by (simp add: pmp_locked_def)
  then have "pmp_view (fold pmp_apply ops p) i = pmp_view p i"
    using pmp_lock.run_locked assms(1,2) by blast
  then show ?thesis
    by (auto simp: pmp_view_def tor_base_def pmp_range_def Let_def split: if_splits)
qed

text \<open>Entry 1 locked as a TOR entry: neither its bounds nor its configuration can be written.\<close>

theorem pmp_locked_region_fixed_witness:
  "let p = PMP_ctor\<lparr>pmpconfig := (replicate 64 0)[1 := 0x8F], pmpentry_id := [1]\<rparr>;
       ops = [Update_addr 0 7, Update_addr 1 9, Update_config 0 0]
   in pmp_ok p \<and> (\<forall>op \<in> set ops. pmp_op_ok op) \<and> pmpconfig p ! 1 AND 128 \<noteq> 0 \<and>
      pmp_range (fold pmp_apply ops p) 1 0x10 4 = pmp_range p 1 0x10 4"
proof -
  define p where "p = PMP_ctor\<lparr>pmpconfig := (replicate 64 0)[1 := 0x8F], pmpentry_id := [1]\<rparr>"
  define ops where "ops = [Update_addr 0 7, Update_addr 1 9, Update_config 0 0]"
  have "filter (\<lambda>i. (replicate 64 (0::u8))[1 := 0x8F] ! i \<noteq> 0) [0..<64] = [1]"
    by (simp add: upt_rec nth_list_update cong: filter_cong)
  then have ok: "pmp_ok p"
    by (simp add: pmp_ok_def p_def PMP_ctor_def)
  have ops: "\<forall>op \<in> set ops. pmp_op_ok op"
    by (simp add: ops_def)
  have lock: "pmpconfig p ! 1 AND 128 \<noteq> 0"
    by (simp add: p_def)
  show ?thesis
    unfolding Let_def p_def [symmetric] ops_def [symmetric]
    using pmp_locked_region_fixed [OF ok ops _ lock] ok ops lock by simp
qed

lemma napot_mask_eq:
  assumes "\<And>j. j < t \<Longrightarrow> bit a j" and "\<not> bit a t" and "t < 61"
  shows "napot_mask a = NOT (mask (t + 3))"
proof -
  have "(a + 1) AND - (a + 1) = 2 ^ t"
    using assms by (intro lowest_zero_bit) auto
  then have "napot_mask a = - (2 ^ (t + 3))"
    by (simp add: napot_mask_def push_bit_eq_mult power_add)
  then show ?thesis
    by (simp add: minus_exp_eq_not_mask)
qed

text \<open>
  C29. The mask arithmetic of a NAPOT entry is right: if the address register holds
  \<open>A\<close> with exactly \<open>t\<close> trailing one bits, the entry covers precisely the aligned region
  of \<open>2\<^sup>(t+3)\<close> bytes that starts at \<open>A div 2\<^sup>(t+1) * 2\<^sup>(t+3)\<close>.
\<close>

theorem pmp_napot_region:
  assumes "pmpconfig p ! i AND PMPA = PMPNAPOT" and "pmpaddr p ! i < 2 ^ 32"
    and "\<And>j. j < t \<Longrightarrow> bit (pmpaddr p ! i) j" and "\<not> bit (pmpaddr p ! i) t" and "t \<le> 32"
  shows "fst (pmp_range p i addr sz) \<longleftrightarrow>
           (let base = unat (pmpaddr p ! i) div 2 ^ (t + 1) * 2 ^ (t + 3)
            in base \<le> unat addr \<and> unat addr < base + 2 ^ (t + 3))"
proof -
  let ?a = "pmpaddr p ! i" and ?k = "t + 3"
  have small: "unat ?a < 2 ^ 32"
    using assms(2) by (simp add: word_less_nat_alt)
  have "unat (push_bit 2 ?a) = 4 * unat ?a"
    using small by (simp add: push_bit_eq_mult unat_word_ariths)
  then have quot: "unat (push_bit 2 ?a) div 2 ^ ?k = unat ?a div 2 ^ (t + 1)"
    by (simp add: power_add mult.commute div_mult2_eq)
  have "fst (pmp_range p i addr sz) \<longleftrightarrow> drop_bit ?k addr = drop_bit ?k (push_bit 2 ?a)"
    using napot_mask_eq [of t ?a] assms(1,3-5)
    by (simp add: pmp_range_def Let_def and_not_mask_eq_iff)
  also have "\<dots> \<longleftrightarrow> unat addr div 2 ^ ?k = unat ?a div 2 ^ (t + 1)"
    by (simp only: word_unat_eq_iff unat_drop_bit quot)
  also have "\<dots> \<longleftrightarrow> (let base = unat ?a div 2 ^ (t + 1) * 2 ^ ?k
      in base \<le> unat addr \<and> unat addr < base + 2 ^ ?k)"
    by (subst div_eq_interval) (simp_all add: Let_def)
  finally show ?thesis .
qed

theorem pmp_napot_region_witness:
  "let p = PMP_ctor\<lparr>pmpconfig := (replicate 64 0)[0 := 0x1F],
         pmpaddr := (replicate 64 0)[0 := 0x20000FFF]\<rparr>
   in pmpconfig p ! 0 AND 24 = 24 \<and> pmpaddr p ! 0 < 2 ^ 32 \<and> (\<forall>j < 12. bit (pmpaddr p ! 0) j) \<and>
      \<not> bit (pmpaddr p ! 0) 12 \<and> fst (pmp_range p 0 0x80000000 4) \<and>
      fst (pmp_range p 0 0x80007FFF 1) \<and> \<not> fst (pmp_range p 0 0x80008000 1)"
proof -
  define p where "p = PMP_ctor\<lparr>pmpconfig := (replicate 64 0)[0 := 0x1F],
      pmpaddr := (replicate 64 0)[0 := 0x20000FFF]\<rparr>"
  have c: "pmpconfig p ! 0 AND 24 = 24" and a: "pmpaddr p ! 0 = 0x20000FFF"
    by (simp_all add: p_def)
  have mask: "mask 12 AND (0x20000FFF :: u64) = mask 12"
    by (simp add: mask_eq_exp_minus_1)
  have ones: "bit (pmpaddr p ! 0) j" if "j < 12" for j
  proof -
    have "bit (mask 12 :: u64) j"
      using that by (simp add: bit_mask_iff)
    then have "bit (mask 12 AND (0x20000FFF :: u64)) j"
      by (simp only: mask)
    then show ?thesis
      by (simp only: a bit_and_iff)
  qed
  have zero: "\<not> bit (pmpaddr p ! 0) 12"
    by (simp add: a)
  have "fst (pmp_range p 0 addr sz) \<longleftrightarrow> 0x80000000 \<le> unat addr \<and> unat addr < 0x80008000"
    for addr sz
    using pmp_napot_region [of p 0 12 addr sz] c ones zero by (simp add: a Let_def)
  then show ?thesis
    unfolding Let_def p_def [symmetric] using c a ones zero by simp
qed

end
