(* ===== verification/Mem_Types.thy ===== *)
theory Mem_Types
  imports Csr_Cfg
begin

unbundle bit_operations_syntax

text \<open>
  The request and response bundles that travel between the core, the MMU and the memory
  (\<^verbatim>\<open>src/src/memory.hpp\<close>), the address map, and the arithmetic of the atomic
  memory operations.
\<close>

abbreviation (input) PLIC_BASE :: u32 where "PLIC_BASE \<equiv> 0x30000000"
abbreviation (input) PLIC_TOP :: u32 where "PLIC_TOP \<equiv> 0x34000000"
abbreviation (input) UART_BASE :: u32 where "UART_BASE \<equiv> 0x10000000"
abbreviation (input) UART_TOP :: u32 where "UART_TOP \<equiv> 0x10000100"
abbreviation (input) CLINT_BASE :: u32 where "CLINT_BASE \<equiv> 0x20000000"
abbreviation (input) CLINT_TOP :: u32 where "CLINT_TOP \<equiv> 0x20010000"

record IMEM_IN =
  imem_req_ack :: bool
  imem_addr :: u32

definition IMEM_IN_ctor :: IMEM_IN where
  "IMEM_IN_ctor = \<lparr>imem_req_ack = False, imem_addr = 0\<rparr>"

record DMEM_IN =
  dmem_req_ack :: bool
  dmem_addr :: u32
  dmem_wdata :: u32
  dmem_size :: u8
  dmem_is_load :: bool
  dmem_is_store :: bool
  dmem_is_amo :: bool
  dmem_amoop :: u8

definition DMEM_IN_ctor :: DMEM_IN where
  "DMEM_IN_ctor =
     \<lparr>dmem_req_ack = False, dmem_addr = 0, dmem_wdata = 0, dmem_size = 4, dmem_is_load = False,
      dmem_is_store = False, dmem_is_amo = False, dmem_amoop = 0\<rparr>"

record MEM_OUT =
  mem_rsp_ack :: bool
  mem_rsp_rdata :: u32
  mem_rsp_fault :: u8

definition MEM_OUT_ctor :: MEM_OUT where
  "MEM_OUT_ctor = \<lparr>mem_rsp_ack = False, mem_rsp_rdata = 0, mem_rsp_fault = 0\<rparr>"

record MMU_RSP =
  mmu_rsp_ack :: bool
  mmu_rsp_rdata :: u32
  mmu_rsp_tval :: u32
  mmu_rsp_fault :: u8

definition MMU_RSP_ctor :: MMU_RSP where
  "MMU_RSP_ctor = \<lparr>mmu_rsp_ack = False, mmu_rsp_rdata = 0, mmu_rsp_tval = 0, mmu_rsp_fault = 0\<rparr>"

text \<open>\<^verbatim>\<open>a\<close> is the register operand, \<^verbatim>\<open>b\<close> the old memory word.\<close>

definition amo_op :: "u8 \<Rightarrow> u32 \<Rightarrow> u32 \<Rightarrow> u32" where
  "amo_op amoop a b =
     (if amoop = 2 then a
      else if amoop = 3 then a + b
      else if amoop = 4 then a XOR b
      else if amoop = 5 then a AND b
      else if amoop = 6 then a OR b
      else if amoop = 7 then (if b <s a then b else a)
      else if amoop = 8 then (if a <s b then b else a)
      else if amoop = 9 then (if b < a then b else a)
      else if amoop = 10 then (if a < b then b else a)
      else 0)"

text \<open>
  The four comparing atomic operations are the signed and unsigned minimum and
  maximum of the two operands read as numbers, and swap and add are the operand and the
  sum modulo \<open>2\<^sup>32\<close>.
\<close>

theorem amo_op_values:
  "sint (amo_op 7 a b) = min (sint a) (sint b) \<and> sint (amo_op 8 a b) = max (sint a) (sint b) \<and>
   unat (amo_op 9 a b) = min (unat a) (unat b) \<and> unat (amo_op 10 a b) = max (unat a) (unat b) \<and>
   amo_op 2 a b = a \<and> unat (amo_op 3 a b) = (unat a + unat b) mod 2 ^ 32"
  by (auto simp: amo_op_def word_sless_alt word_less_nat_alt min_def max_def unat_word_ariths)

subsection \<open>The byte loops of the memory\<close>

text \<open>
  \<^verbatim>\<open>Memory\<close> assembles a load from the highest byte down and takes a store apart from
  the lowest byte up. The loops are functions of the byte access they call; a byte access
  may fail (an index outside a C++ vector), which ends the loop with \<open>None\<close>.
\<close>

fun load_loop :: "(u32 \<Rightarrow> 's \<Rightarrow> (u8 \<times> 's) option) \<Rightarrow> u32 \<Rightarrow> nat \<Rightarrow> u32 \<Rightarrow> 's \<Rightarrow> (u32 \<times> 's) option" where
  "load_loop rd addr 0 acc s = Some (acc, s)"
| "load_loop rd addr (Suc i) acc s =
     do { (b, s') \<leftarrow> rd (addr + of_nat i) s;
          load_loop rd addr i (push_bit 8 acc OR ucast b) s' }"

fun store_bytes :: "(u32 \<Rightarrow> u8 \<Rightarrow> 's \<Rightarrow> 's option) \<Rightarrow> u32 \<Rightarrow> nat \<Rightarrow> u32 \<Rightarrow> 's \<Rightarrow> 's option" where
  "store_bytes wr addr 0 wdata s = Some s"
| "store_bytes wr addr (Suc n) wdata s =
     do { s' \<leftarrow> wr addr (ucast wdata) s;
          store_bytes wr (addr + 1) n (drop_bit 8 wdata) s' }"

text \<open>The little-endian word of \<open>n\<close> bytes, the specification of both loops.\<close>

fun le_word :: "(u32 \<Rightarrow> u8) \<Rightarrow> u32 \<Rightarrow> nat \<Rightarrow> u32" where
  "le_word m a 0 = 0"
| "le_word m a (Suc n) = le_word m a n OR push_bit (8 * n) (ucast (m (a + of_nat n)))"

lemma bit_le_word:
  "bit (le_word m a n) k \<longleftrightarrow> k < 8 * n \<and> k < 32 \<and> bit (m (a + of_nat (k div 8))) (k mod 8)"
proof (induction n)
  case (Suc n)
  have "bit (push_bit (8 * n) (ucast (m (a + of_nat n))) :: u32) k \<longleftrightarrow>
      8 * n \<le> k \<and> k < 8 * n + 8 \<and> k < 32 \<and> bit (m (a + of_nat (k div 8))) (k mod 8)"
  proof (cases "8 * n \<le> k \<and> k < 8 * n + 8")
    case True
    then have "k div 8 = n" and "k mod 8 = k - 8 * n"
      by (auto simp: div_nat_eqI modulo_nat_def)
    then show ?thesis
      using True by (auto simp: bit_simps)
  qed (auto simp: bit_simps dest: bit_imp_le_length)
  then show ?case
    using Suc by (auto simp: bit_or_iff)
qed simp

lemma le_word_cong: "(\<And>j. j < n \<Longrightarrow> m (a + of_nat j) = m' (a + of_nat j)) \<Longrightarrow> le_word m a n = le_word m' a n"
  by (induction n) auto

definition byte_of :: "u32 \<Rightarrow> nat \<Rightarrow> u8" where
  "byte_of w j = ucast (drop_bit (8 * j) w)"

lemma le_word_bytes:
  assumes "\<And>j. j < n \<Longrightarrow> m (a + of_nat j) = byte_of w j" and "n \<le> 4"
  shows "le_word m a n = take_bit (8 * n) w"
proof (rule bit_word_eqI)
  fix k :: nat
  assume k: "k < LENGTH(32)"
  show "bit (le_word m a n) k \<longleftrightarrow> bit (take_bit (8 * n) w) k"
  proof (cases "k < 8 * n")
    case True
    then have "m (a + of_nat (k div 8)) = byte_of w (k div 8)"
      by (intro assms) auto
    then show ?thesis
      using True k by (simp add: bit_le_word byte_of_def bit_simps)
  qed (simp add: bit_le_word bit_simps)
qed

subsection \<open>Byte memories\<close>

lemma offset_Suc:
  fixes x a :: u32
  assumes "x \<noteq> a"
  shows "unat (x - a) = Suc (unat (x - (a + 1)))"
proof -
  have "0 < unat (x - a)" and "unat (x - (a + 1)) = unat (x - a) - 1"
    using assms unat_minus_one [of "x - a"] by (simp_all add: unat_gt_0 algebra_simps)
  then show ?thesis
    by linarith
qed

lemma offset_last: "unat (- 1 :: u32) = 2 ^ 32 - 1"
  by (simp add: unsigned_minus_1_eq_mask mask_eq_exp_minus_1)

text \<open>
  What the bus relies on of a byte-addressed memory in the addresses \<open>inr\<close> it answers for:
  a read returns the byte last written there and changes nothing visible, a write changes
  exactly one byte, and neither fails while the representation is sound.
\<close>

locale byte_memory =
  fixes ok :: "'s \<Rightarrow> bool"
    and inr :: "u32 \<Rightarrow> bool"
    and byte_at :: "'s \<Rightarrow> u32 \<Rightarrow> u8"
    and rd :: "u32 \<Rightarrow> 's \<Rightarrow> (u8 \<times> 's) option"
    and wr :: "u32 \<Rightarrow> u8 \<Rightarrow> 's \<Rightarrow> 's option"
  assumes rd_ok: "ok s \<Longrightarrow> inr a \<Longrightarrow>
      \<exists>s'. rd a s = Some (byte_at s a, s') \<and> ok s' \<and> byte_at s' = byte_at s"
    and wr_ok: "ok s \<Longrightarrow> inr a \<Longrightarrow>
      \<exists>s'. wr a v s = Some s' \<and> ok s' \<and> byte_at s' = (byte_at s)(a := v)"
begin

lemma load_loop_ok:
  "ok s \<Longrightarrow> (\<And>j. j < n \<Longrightarrow> inr (a + of_nat j)) \<Longrightarrow>
   \<exists>s'. load_loop rd a n acc s = Some (push_bit (8 * n) acc OR le_word (byte_at s) a n, s') \<and>
     ok s' \<and> byte_at s' = byte_at s"
proof (induction n arbitrary: acc s)
  case (Suc n)
  obtain s1 where s1: "rd (a + of_nat n) s = Some (byte_at s (a + of_nat n), s1)" "ok s1"
    "byte_at s1 = byte_at s"
    using rd_ok [OF Suc.prems(1)] Suc.prems(2) [of n] by blast
  have "push_bit (8 * n) (push_bit 8 acc OR ucast b) OR w =
      push_bit (8 * Suc n) acc OR (w OR push_bit (8 * n) (ucast b))" for b :: u8 and w :: u32
    by (simp add: push_bit_or ac_simps)
  then show ?case
    using s1 Suc.IH [OF s1(2), of "push_bit 8 acc OR ucast (byte_at s (a + of_nat n))"]
      Suc.prems(2) by simp
qed simp

lemma store_bytes_ok:
  assumes "ok s" and "n \<le> 2 ^ 32" and "\<And>j. j < n \<Longrightarrow> inr (a + of_nat j)"
  shows "\<exists>s'. store_bytes wr a n w s = Some s' \<and> ok s' \<and>
     byte_at s' = (\<lambda>x. if unat (x - a) < n then byte_of w (unat (x - a)) else byte_at s x)"
  using assms
proof (induction n arbitrary: a w s)
  case (Suc n)
  have "inr a"
    using Suc.prems(3) [of 0] by simp
  then obtain s1 where s1: "wr a (ucast w) s = Some s1" "ok s1" "byte_at s1 = (byte_at s)(a := ucast w)"
    using wr_ok [OF Suc.prems(1)] by blast
  have "inr (a + 1 + of_nat j)" if "j < n" for j
    using Suc.prems(3) [of "Suc j"] that by (simp add: ac_simps)
  then obtain s2 where s2: "store_bytes wr (a + 1) n (drop_bit 8 w) s1 = Some s2" "ok s2"
    "byte_at s2 = (\<lambda>x. if unat (x - (a + 1)) < n then byte_of (drop_bit 8 w) (unat (x - (a + 1)))
       else byte_at s1 x)"
    using Suc.IH [OF s1(2)] Suc.prems(2) by fastforce
  have "byte_at s2 x = (if unat (x - a) < Suc n then byte_of w (unat (x - a)) else byte_at s x)" for x
  proof (cases "x = a")
    case True
    then show ?thesis
      using s1(3) s2(3) Suc.prems(2) by (simp add: byte_of_def offset_last)
  next
    case False
    then show ?thesis
      using s1(3) s2(3) offset_Suc [OF False]
      by (simp add: byte_of_def drop_bit_drop_bit algebra_simps)
  qed
  then show ?case
    using s1 s2 by auto
qed simp

lemma store_load_ok:
  assumes "ok s" and "n \<le> 4" and "\<And>j. j < n \<Longrightarrow> inr (a + of_nat j)"
  shows "\<exists>s1 s2. store_bytes wr a n w s = Some s1 \<and> ok s1 \<and>
     load_loop rd a n 0 s1 = Some (take_bit (8 * n) w, s2) \<and> ok s2 \<and> byte_at s2 = byte_at s1 \<and>
     (\<forall>x. n \<le> unat (x - a) \<longrightarrow> byte_at s1 x = byte_at s x)"
proof -
  have "n \<le> 2 ^ 32"
    using assms(2) by simp
  then obtain s1 where s1: "store_bytes wr a n w s = Some s1" "ok s1" "byte_at s1 =
      (\<lambda>x. if unat (x - a) < n then byte_of w (unat (x - a)) else byte_at s x)"
    using store_bytes_ok [OF assms(1) _ assms(3)] by blast
  have "unat (of_nat j :: u32) = j" if "j < n" for j
    using that assms(2) by (simp add: unat_of_nat take_bit_nat_eq_self)
  then have "le_word (byte_at s1) a n = take_bit (8 * n) w"
    using assms(2) by (intro le_word_bytes) (simp_all add: s1(3))
  then show ?thesis
    using s1 load_loop_ok [OF s1(2) assms(3), of n 0] by (auto intro!: exI [of _ s1])
qed

end

text \<open>
  A memory with reservations promises in addition that reads keep every reservation and
  that a write drops the reservation of the byte it writes.
\<close>

locale reservable_memory = byte_memory ok inr byte_at rd wr
  for ok :: "'s \<Rightarrow> bool" and inr byte_at rd wr +
  fixes resv_at :: "'s \<Rightarrow> u32 \<Rightarrow> bool"
  assumes rd_resv: "ok s \<Longrightarrow> inr a \<Longrightarrow> rd a s = Some (v, s') \<Longrightarrow> resv_at s' = resv_at s"
    and wr_resv: "ok s \<Longrightarrow> inr a \<Longrightarrow> wr a v s = Some s' \<Longrightarrow> resv_at s' = (resv_at s)(a := False)"
begin

lemma load_loop_resv:
  "ok s \<Longrightarrow> (\<And>j. j < n \<Longrightarrow> inr (a + of_nat j)) \<Longrightarrow> load_loop rd a n acc s = Some (w, s') \<Longrightarrow>
   resv_at s' = resv_at s"
proof (induction n arbitrary: acc s)
  case (Suc n)
  obtain s1 where s1: "rd (a + of_nat n) s = Some (byte_at s (a + of_nat n), s1)" "ok s1"
    using rd_ok [OF Suc.prems(1)] Suc.prems(2) [of n] by blast
  then have "resv_at s1 = resv_at s"
    using rd_resv Suc.prems(1,2) by blast
  moreover have "resv_at s' = resv_at s1"
    using Suc.prems(3) s1(1) by (intro Suc.IH [OF s1(2)]) (simp_all add: Suc.prems(2))
  ultimately show ?case
    by simp
qed simp

lemma store_bytes_resv:
  assumes "ok s" and "n \<le> 2 ^ 32" and "\<And>j. j < n \<Longrightarrow> inr (a + of_nat j)"
    and "store_bytes wr a n w s = Some s'"
  shows "resv_at s' = (\<lambda>x. n \<le> unat (x - a) \<and> resv_at s x)"
  using assms
proof (induction n arbitrary: a w s)
  case (Suc n)
  have "inr a"
    using Suc.prems(3) [of 0] by simp
  then obtain s1 where s1: "wr a (ucast w) s = Some s1" "ok s1"
    using wr_ok [OF Suc.prems(1)] by blast
  have r1: "resv_at s1 = (resv_at s)(a := False)"
    by (rule wr_resv [OF Suc.prems(1) \<open>inr a\<close> s1(1)])
  have inr: "inr (a + 1 + of_nat j)" if "j < n" for j
    using Suc.prems(3) [of "Suc j"] that by (simp add: ac_simps)
  have r2: "resv_at s' = (\<lambda>x. n \<le> unat (x - (a + 1)) \<and> resv_at s1 x)"
    using Suc.prems(2,4) s1(1) by (intro Suc.IH [OF s1(2) _ inr]) simp_all
  have "resv_at s' x \<longleftrightarrow> Suc n \<le> unat (x - a) \<and> resv_at s x" for x
    by (cases "x = a") (simp_all add: r1 r2 offset_Suc)
  then show ?case
    by blast
qed simp

end

end
