(* ===== verification/Ram.thy ===== *)
theory Ram
  imports Mem_Types
begin

unbundle bit_operations_syntax

text \<open>
  The main memory of \<^verbatim>\<open>src/src/memory.hpp\<close> (\<^verbatim>\<open>struct RAM\<close>): segments of \<open>SIZE\<close>
  bytes created on demand, one selected segment each for data and instructions, and one
  reservation bit per byte for LR/SC. The pointers \<^verbatim>\<open>dmem\<close>, \<^verbatim>\<open>dreserve\<close> and
  \<^verbatim>\<open>imem\<close> always point into the tables at \<^verbatim>\<open>dseg_base\<close> and \<^verbatim>\<open>iseg_base\<close>
  (references into an \<^verbatim>\<open>unordered_map\<close> stay valid), so they are looked up there.
  Every vector access is checked: an operation that would index outside a segment is
  \<open>None\<close>. The refinement lemmas show that this never happens while \<open>ram_ok\<close> holds and
  that the segments implement one flat byte array and one flat set of reservation bits.
\<close>

subsection \<open>State and operations\<close>

record RAM =
  ram_base :: u32
  ram_top :: u32
  dseg_base :: u32
  iseg_base :: u32
  ram_SIZE :: u32
  seg_table :: "u32 \<rightharpoonup> u8 list"
  reservation :: "u32 \<rightharpoonup> bool list"

definition build_seg :: "u32 \<Rightarrow> RAM \<Rightarrow> RAM" where
  "build_seg base r =
     (if seg_table r base = None
      then r\<lparr>seg_table := (seg_table r)(base \<mapsto> replicate (unat (ram_SIZE r)) 0),
             reservation := (reservation r)(base \<mapsto> replicate (unat (ram_SIZE r)) False)\<rparr>
      else r)"

definition RAM_ctor :: "u32 \<Rightarrow> RAM" where
  "RAM_ctor SIZE =
     build_seg 0x80000000
       \<lparr>ram_base = 0, ram_top = - 1, dseg_base = 0x80000000, iseg_base = 0x80000000,
        ram_SIZE = SIZE, seg_table = Map.empty, reservation = Map.empty\<rparr>"

definition find_seg :: "u32 \<Rightarrow> u32 \<Rightarrow> u32" where
  "find_seg SIZE addr = addr AND NOT (SIZE - 1)"

text \<open>The prologue of \<^verbatim>\<open>read\<close>, \<^verbatim>\<open>write\<close>, \<^verbatim>\<open>amo_sc\<close> and \<^verbatim>\<open>amo_lr\<close>.\<close>

definition dselect :: "u32 \<Rightarrow> RAM \<Rightarrow> RAM" where
  "dselect addr r =
     (let base = find_seg (ram_SIZE r) addr
      in if dseg_base r \<noteq> base then (build_seg base r)\<lparr>dseg_base := base\<rparr> else r)"

definition iselect :: "u32 \<Rightarrow> RAM \<Rightarrow> RAM" where
  "iselect addr r =
     (let base = find_seg (ram_SIZE r) addr
      in if iseg_base r \<noteq> base then (build_seg base r)\<lparr>iseg_base := base\<rparr> else r)"

definition ram_read :: "u32 \<Rightarrow> RAM \<Rightarrow> (u8 \<times> RAM) option" where
  "ram_read addr r0 =
     (let r = dselect addr r0
      in do { dmem \<leftarrow> seg_table r (dseg_base r);
              v \<leftarrow> vget dmem (unat (addr - dseg_base r));
              Some (v, r) })"

definition ram_write :: "u32 \<Rightarrow> u8 \<Rightarrow> RAM \<Rightarrow> RAM option" where
  "ram_write addr val r0 =
     (let r = dselect addr r0
      in do { dmem \<leftarrow> seg_table r (dseg_base r);
              dreserve \<leftarrow> reservation r (dseg_base r);
              dmem' \<leftarrow> vset dmem (unat (addr - dseg_base r)) val;
              dreserve' \<leftarrow> vset dreserve (unat (addr - dseg_base r)) False;
              Some (r\<lparr>seg_table := (seg_table r)(dseg_base r \<mapsto> dmem'),
                      reservation := (reservation r)(dseg_base r \<mapsto> dreserve')\<rparr>) })"

definition fetch_byte :: "u8 list \<Rightarrow> u32 \<Rightarrow> u32 \<Rightarrow> unit \<Rightarrow> (u8 \<times> unit) option" where
  "fetch_byte imem base a u = map_option (\<lambda>b. (b, u)) (vget imem (unat (a - base)))"

definition ram_fetch :: "u32 \<Rightarrow> RAM \<Rightarrow> (u32 \<times> RAM) option" where
  "ram_fetch addr r0 =
     (let r = iselect addr r0
      in do { imem \<leftarrow> seg_table r (iseg_base r);
              (out, _) \<leftarrow> load_loop (fetch_byte imem (iseg_base r)) addr 4 0 ();
              Some (out, r) })"

definition amo_sc :: "u32 \<Rightarrow> RAM \<Rightarrow> (bool \<times> RAM) option" where
  "amo_sc addr r0 =
     (let r = dselect addr r0
      in do { dreserve \<leftarrow> reservation r (dseg_base r);
              v \<leftarrow> vget dreserve (unat (addr - dseg_base r));
              Some (v = False, r) })"

definition amo_lr :: "u32 \<Rightarrow> RAM \<Rightarrow> RAM option" where
  "amo_lr addr r0 =
     (let r = dselect addr r0
      in do { dreserve \<leftarrow> reservation r (dseg_base r);
              dreserve' \<leftarrow> vset dreserve (unat (addr - dseg_base r)) True;
              Some (r\<lparr>reservation := (reservation r)(dseg_base r \<mapsto> dreserve')\<rparr>) })"

subsection \<open>Invariant and abstraction\<close>

definition ram_ok :: "RAM \<Rightarrow> bool" where
  "ram_ok r \<longleftrightarrow>
     (\<exists>k < 32. ram_SIZE r = 2 ^ k) \<and>
     dom (reservation r) = dom (seg_table r) \<and>
     (\<forall>b m. seg_table r b = Some m \<longrightarrow> length m = unat (ram_SIZE r)) \<and>
     (\<forall>b m. reservation r b = Some m \<longrightarrow> length m = unat (ram_SIZE r)) \<and>
     dseg_base r \<in> dom (seg_table r) \<and> iseg_base r \<in> dom (seg_table r)"

definition ram_byte :: "RAM \<Rightarrow> u32 \<Rightarrow> u8" where
  "ram_byte r a =
     (let b = find_seg (ram_SIZE r) a
      in case seg_table r b of None \<Rightarrow> 0 | Some m \<Rightarrow> m ! unat (a - b))"

definition ram_resv :: "RAM \<Rightarrow> u32 \<Rightarrow> bool" where
  "ram_resv r a =
     (let b = find_seg (ram_SIZE r) a
      in case reservation r b of None \<Rightarrow> False | Some m \<Rightarrow> m ! unat (a - b))"

lemma find_seg_offset:
  assumes "SIZE = 2 ^ k" and "k < 32"
  shows "a - find_seg SIZE a = take_bit k a" and "unat (a - find_seg SIZE a) < unat SIZE"
proof -
  have m: "find_seg SIZE a = a AND NOT (mask k)"
    by (simp add: find_seg_def assms mask_eq_exp_minus_1)
  have "(a AND NOT (mask k)) AND take_bit k a = 0"
    by (intro bit_word_eqI) (auto simp: bit_simps)
  then have "(a AND NOT (mask k)) + take_bit k a = (a AND NOT (mask k)) OR take_bit k a"
    by (rule disjunctive_add_eq_or)
  also have "\<dots> = a"
    by (intro bit_word_eqI) (auto simp: bit_simps)
  finally show off: "a - find_seg SIZE a = take_bit k a"
    by (simp add: m algebra_simps)
  have "unat (take_bit k a) < 2 ^ k"
    by (simp add: unsigned_take_bit_eq)
  then show "unat (a - find_seg SIZE a) < unat SIZE"
    unfolding off using assms by (simp add: unat_power_lower)
qed

lemma ram_ok_offset:
  assumes "ram_ok r"
  shows "unat (a - find_seg (ram_SIZE r) a) < unat (ram_SIZE r)"
  using assms find_seg_offset(2) by (auto simp: ram_ok_def)

lemma build_seg_SIZE [simp]: "ram_SIZE (build_seg b r) = ram_SIZE r"
  by (simp add: build_seg_def)

lemma build_seg_abs:
  assumes "ram_ok r"
  shows "ram_ok (build_seg b r)" and "ram_byte (build_seg b r) = ram_byte r"
    and "ram_resv (build_seg b r) = ram_resv r" and "b \<in> dom (seg_table (build_seg b r))"
proof -
  have dom: "reservation r c = None \<longleftrightarrow> seg_table r c = None" for c
    using assms by (auto simp: ram_ok_def)
  show "ram_ok (build_seg b r)"
    using assms by (auto simp: ram_ok_def build_seg_def)
  show "ram_byte (build_seg b r) = ram_byte r" and "ram_resv (build_seg b r) = ram_resv r"
    using ram_ok_offset [OF assms] dom [of b]
    by (auto simp: fun_eq_iff ram_byte_def ram_resv_def build_seg_def Let_def split: option.splits)
  show "b \<in> dom (seg_table (build_seg b r))"
    by (auto simp: build_seg_def)
qed

lemma dselect_abs:
  assumes "ram_ok r"
  shows "ram_ok (dselect a r)" and "ram_byte (dselect a r) = ram_byte r"
    and "ram_resv (dselect a r) = ram_resv r" and "ram_SIZE (dselect a r) = ram_SIZE r"
    and "dseg_base (dselect a r) = find_seg (ram_SIZE r) a"
proof -
  have upd: "ram_ok (s\<lparr>dseg_base := b\<rparr>)" if "ram_ok s" "b \<in> dom (seg_table s)" for s b
    using that by (simp add: ram_ok_def)
  show "ram_ok (dselect a r)"
    using assms build_seg_abs by (simp add: dselect_def Let_def upd)
  have frame: "ram_byte (s\<lparr>dseg_base := b\<rparr>) = ram_byte s" "ram_resv (s\<lparr>dseg_base := b\<rparr>) = ram_resv s"
    for s b by (simp_all add: fun_eq_iff ram_byte_def ram_resv_def)
  show "ram_byte (dselect a r) = ram_byte r" "ram_resv (dselect a r) = ram_resv r"
    using assms build_seg_abs by (simp_all add: dselect_def Let_def frame)
qed (simp_all add: dselect_def Let_def)

lemma iselect_abs:
  assumes "ram_ok r"
  shows "ram_ok (iselect a r)" and "ram_byte (iselect a r) = ram_byte r"
    and "ram_resv (iselect a r) = ram_resv r" and "ram_SIZE (iselect a r) = ram_SIZE r"
    and "iseg_base (iselect a r) = find_seg (ram_SIZE r) a"
proof -
  have upd: "ram_ok (s\<lparr>iseg_base := b\<rparr>)" if "ram_ok s" "b \<in> dom (seg_table s)" for s b
    using that by (simp add: ram_ok_def)
  show "ram_ok (iselect a r)"
    using assms build_seg_abs by (simp add: iselect_def Let_def upd)
  have frame: "ram_byte (s\<lparr>iseg_base := b\<rparr>) = ram_byte s" "ram_resv (s\<lparr>iseg_base := b\<rparr>) = ram_resv s"
    for s b by (simp_all add: fun_eq_iff ram_byte_def ram_resv_def)
  show "ram_byte (iselect a r) = ram_byte r" "ram_resv (iselect a r) = ram_resv r"
    using assms build_seg_abs by (simp_all add: iselect_def Let_def frame)
qed (simp_all add: iselect_def Let_def)

text \<open>The selected segment exists, has full length and holds the byte of the address.\<close>

lemma dselect_seg:
  assumes "ram_ok r"
  obtains m v where "seg_table (dselect a r) (find_seg (ram_SIZE r) a) = Some m"
    and "reservation (dselect a r) (find_seg (ram_SIZE r) a) = Some v"
    and "unat (a - find_seg (ram_SIZE r) a) < length m"
    and "unat (a - find_seg (ram_SIZE r) a) < length v"
    and "ram_byte r a = m ! unat (a - find_seg (ram_SIZE r) a)"
    and "ram_resv r a = v ! unat (a - find_seg (ram_SIZE r) a)"
proof -
  let ?s = "dselect a r" and ?b = "find_seg (ram_SIZE r) a"
  note abs = dselect_abs [OF assms, of a]
  have "?b \<in> dom (seg_table ?s)" and "dom (reservation ?s) = dom (seg_table ?s)"
    using abs(1,5) unfolding ram_ok_def by auto
  then obtain m v where mv: "seg_table ?s ?b = Some m" "reservation ?s ?b = Some v"
    by blast
  moreover have "length m = unat (ram_SIZE r)" "length v = unat (ram_SIZE r)"
    using mv abs(1,4) unfolding ram_ok_def by auto
  moreover have "ram_byte r a = ram_byte ?s a" "ram_resv r a = ram_resv ?s a"
    by (simp_all add: abs)
  ultimately show ?thesis
    using that ram_ok_offset [OF assms, of a] by (simp add: ram_byte_def ram_resv_def Let_def abs(4))
qed

subsection \<open>Refinement of a flat memory\<close>

lemma ram_read_ok:
  assumes "ram_ok r"
  shows "\<exists>r'. ram_read a r = Some (ram_byte r a, r') \<and> ram_ok r' \<and> ram_byte r' = ram_byte r \<and>
     ram_resv r' = ram_resv r"
proof -
  obtain m where "seg_table (dselect a r) (find_seg (ram_SIZE r) a) = Some m"
    "unat (a - find_seg (ram_SIZE r) a) < length m"
    "ram_byte r a = m ! unat (a - find_seg (ram_SIZE r) a)"
    using dselect_seg [OF assms] by metis
  then show ?thesis
    using dselect_abs [OF assms, of a] by (simp add: ram_read_def Let_def)
qed

text \<open>Writing one slot of one segment is a pointwise update of the flat view.\<close>

lemma ram_slot_update:
  fixes x :: u8 and y :: bool
  assumes "ram_ok r" and "b = find_seg (ram_SIZE r) a"
    and "seg_table r b = Some m" and "reservation r b = Some v"
  defines "r' \<equiv> r\<lparr>seg_table := (seg_table r)(b \<mapsto> m[unat (a - b) := x]),
      reservation := (reservation r)(b \<mapsto> v[unat (a - b) := y])\<rparr>"
  shows "ram_ok r' \<and> ram_byte r' = (ram_byte r)(a := x) \<and> ram_resv r' = (ram_resv r)(a := y)"
proof -
  have len: "length m = unat (ram_SIZE r)" "length v = unat (ram_SIZE r)"
    using assms by (simp_all add: ram_ok_def)
  have inj: "c = a" if "find_seg (ram_SIZE r) c = b" "unat (c - b) = unat (a - b)" for c
    using that by (simp add: word_unat_eq_iff [symmetric])
  have bound: "unat (a - b) < unat (ram_SIZE r)"
    using ram_ok_offset [OF assms(1)] assms(2) by simp
  have "ram_ok r'"
    using assms(1-4) len by (auto simp: ram_ok_def r'_def)
  moreover have "ram_byte r' c = ((ram_byte r)(a := x)) c" "ram_resv r' c = ((ram_resv r)(a := y)) c" for c
    using inj [of c] bound len assms(2-4)
    by (auto simp: ram_byte_def ram_resv_def r'_def Let_def nth_list_update)
  ultimately show ?thesis
    by (simp add: fun_eq_iff)
qed

lemma ram_write_ok:
  assumes "ram_ok r"
  shows "\<exists>r'. ram_write a x r = Some r' \<and> ram_ok r' \<and> ram_byte r' = (ram_byte r)(a := x) \<and>
     ram_resv r' = (ram_resv r)(a := False)"
proof -
  note abs = dselect_abs [OF assms, of a]
  obtain m v where mv: "seg_table (dselect a r) (find_seg (ram_SIZE r) a) = Some m"
    "reservation (dselect a r) (find_seg (ram_SIZE r) a) = Some v"
    "unat (a - find_seg (ram_SIZE r) a) < length m" "unat (a - find_seg (ram_SIZE r) a) < length v"
    using dselect_seg [OF assms] by metis
  then show ?thesis
    using ram_slot_update [OF abs(1) _ mv(1,2), where a = a and x = x and y = False] abs
    by (simp add: ram_write_def Let_def)
qed

lemma amo_lr_ok:
  assumes "ram_ok r"
  shows "\<exists>r'. amo_lr a r = Some r' \<and> ram_ok r' \<and> ram_byte r' = ram_byte r \<and>
     ram_resv r' = (ram_resv r)(a := True)"
proof -
  note abs = dselect_abs [OF assms, of a]
  let ?b = "find_seg (ram_SIZE r) a"
  obtain m v where mv: "seg_table (dselect a r) ?b = Some m" "reservation (dselect a r) ?b = Some v"
    "unat (a - ?b) < length m" "unat (a - ?b) < length v" "ram_byte r a = m ! unat (a - ?b)"
    using dselect_seg [OF assms] by metis
  have "(seg_table (dselect a r))(?b \<mapsto> m[unat (a - ?b) := ram_byte r a]) = seg_table (dselect a r)"
    using mv by (simp add: fun_upd_idem)
  then show ?thesis
    using mv(1-4) ram_slot_update [OF abs(1) _ mv(1,2), where a = a and x = "ram_byte r a" and y = True] abs
    by (simp add: amo_lr_def Let_def)
qed

lemma amo_sc_ok:
  assumes "ram_ok r"
  shows "\<exists>r'. amo_sc a r = Some (\<not> ram_resv r a, r') \<and> ram_ok r' \<and> ram_byte r' = ram_byte r \<and>
     ram_resv r' = ram_resv r"
proof -
  obtain v where "reservation (dselect a r) (find_seg (ram_SIZE r) a) = Some v"
    "unat (a - find_seg (ram_SIZE r) a) < length v"
    "ram_resv r a = v ! unat (a - find_seg (ram_SIZE r) a)"
    using dselect_seg [OF assms] by metis
  then show ?thesis
    using dselect_abs [OF assms, of a] by (simp add: amo_sc_def Let_def)
qed

interpretation ram: reservable_memory ram_ok "\<lambda>_. True" ram_byte ram_read ram_write ram_resv
proof unfold_locales
  show "ram_resv s' = ram_resv s" if "ram_ok s" "ram_read a s = Some (v, s')" for s a v s'
    using ram_read_ok [OF that(1), of a] that(2) by auto
  show "ram_resv s' = (ram_resv s)(a := False)" if "ram_ok s" "ram_write a v s = Some s'" for s a v s'
    using ram_write_ok [OF that(1), of a v] that(2) by auto
qed (use ram_read_ok ram_write_ok in blast)+

definition ram_range :: "RAM \<Rightarrow> u32 \<times> u32 \<times> u32" where
  "ram_range r = (ram_base r, ram_top r, ram_SIZE r)"

lemma dselect_range [simp]: "ram_range (dselect a r) = ram_range r"
  by (simp add: ram_range_def dselect_def build_seg_def Let_def)

lemma ram_range_update [simp]:
  "ram_range (r\<lparr>seg_table := t\<rparr>) = ram_range r" "ram_range (r\<lparr>reservation := v\<rparr>) = ram_range r"
  by (simp_all add: ram_range_def)

lemma ram_read_range: "ram_read a r = Some (v, r') \<Longrightarrow> ram_range r' = ram_range r"
  by (auto simp: ram_read_def Let_def bind_eq_Some_conv)

lemma ram_write_range: "ram_write a v r = Some r' \<Longrightarrow> ram_range r' = ram_range r"
  by (auto simp: ram_write_def Let_def bind_eq_Some_conv)

lemma ram_fetch_range: "ram_fetch a r = Some (v, r') \<Longrightarrow> ram_range r' = ram_range r"
  by (auto simp: ram_fetch_def iselect_def build_seg_def ram_range_def Let_def bind_eq_Some_conv)

lemma amo_lr_range: "amo_lr a r = Some r' \<Longrightarrow> ram_range r' = ram_range r"
  by (auto simp: amo_lr_def Let_def bind_eq_Some_conv)

lemma amo_sc_range: "amo_sc a r = Some (v, r') \<Longrightarrow> ram_range r' = ram_range r"
  by (auto simp: amo_sc_def Let_def bind_eq_Some_conv)

lemma ram_ok_base [simp]: "ram_ok (r\<lparr>ram_base := b\<rparr>) = ram_ok r"
  by (simp add: ram_ok_def)

lemma ram_ok_ctor: "k < 32 \<Longrightarrow> ram_ok (RAM_ctor (2 ^ k))"
  by (auto simp: ram_ok_def RAM_ctor_def build_seg_def)

subsection \<open>Instruction fetch\<close>

lemma find_seg_same:
  assumes "SIZE = 2 ^ k" and "k < 32" and "unat (c - find_seg SIZE a) < unat SIZE"
  shows "find_seg SIZE c = find_seg SIZE a"
proof -
  let ?b = "find_seg SIZE a"
  have b: "?b = a AND NOT (mask k)"
    by (simp add: find_seg_def assms mask_eq_exp_minus_1)
  have "c - ?b < 2 ^ k"
    using assms by (simp add: word_less_nat_alt)
  then have d: "take_bit k (c - ?b) = c - ?b"
    using assms(2) by (simp add: take_bit_word_small)
  have "?b AND take_bit k (c - ?b) = 0"
    unfolding b by (intro bit_word_eqI) (auto simp: bit_simps)
  then have "?b + (c - ?b) = ?b OR (c - ?b)"
    unfolding d by (rule disjunctive_add_eq_or)
  then have "c = ?b OR take_bit k (c - ?b)"
    using d by simp
  then have "c AND NOT (mask k) = (?b OR take_bit k (c - ?b)) AND NOT (mask k)"
    by simp
  also have "\<dots> = ?b"
    unfolding b by (intro bit_word_eqI) (auto simp: bit_simps)
  finally show ?thesis
    by (simp add: find_seg_def assms mask_eq_exp_minus_1)
qed

text \<open>\<^verbatim>\<open>fetch\<close> indexes four bytes of one segment, so it is sound away from a segment's end.\<close>

lemma ram_fetch_ok:
  assumes "ram_ok r" and room: "unat (a - find_seg (ram_SIZE r) a) + 3 < unat (ram_SIZE r)"
  shows "\<exists>r'. ram_fetch a r = Some (le_word (ram_byte r) a 4, r') \<and> ram_ok r' \<and>
     ram_byte r' = ram_byte r \<and> ram_resv r' = ram_resv r"
proof -
  let ?b = "find_seg (ram_SIZE r) a"
  note abs = iselect_abs [OF assms(1), of a]
  obtain m where m: "seg_table (iselect a r) ?b = Some m" "length m = unat (ram_SIZE r)"
    using abs(1,4,5) unfolding ram_ok_def by (metis domIff option.exhaust)
  obtain k where k: "ram_SIZE r = 2 ^ k" "k < 32"
    using assms(1) by (auto simp: ram_ok_def)
  have off: "unat (a + of_nat j - ?b) = unat (a - ?b) + j" if "j < 4" for j
  proof -
    have "unat (a - ?b) + j < 2 ^ 32"
      using that room unsigned_less [of "ram_SIZE r", where 'a = nat] by simp
    moreover have "a + of_nat j - ?b = (a - ?b) + of_nat j"
      by simp
    ultimately show ?thesis
      using that by (simp only: unat_word_ariths unat_of_nat) simp
  qed
  have "ram_byte r (a + of_nat j) = m ! (unat (a - ?b) + j)" if "j < 4" for j
  proof -
    have "find_seg (ram_SIZE r) (a + of_nat j) = ?b"
      using find_seg_same [OF k, of "a + of_nat j" a] off [OF that] room that by simp
    moreover have "ram_byte r (a + of_nat j) = ram_byte (iselect a r) (a + of_nat j)"
      by (simp add: abs)
    ultimately show ?thesis
      using m off [OF that] by (simp add: ram_byte_def Let_def abs(4))
  qed
  then have "fetch_byte m ?b (a + of_nat j) () = Some (ram_byte r (a + of_nat j), ())" if "j < 4" for j
    using that room m off [OF that] by (simp add: fetch_byte_def)
  then have "load_loop (fetch_byte m ?b) a n acc () =
      Some (push_bit (8 * n) acc OR le_word (ram_byte r) a n, ())" if "n \<le> 4" for n acc
    using that
  proof (induction n arbitrary: acc)
    case (Suc n)
    then show ?case
      by (simp add: push_bit_or ac_simps)
  qed simp
  from this [of 4 0] show ?thesis
    using abs m(1) by (simp add: ram_fetch_def Let_def)
qed

lemma aligned_fetch_room:
  assumes "ram_ok r" and "4 \<le> ram_SIZE r" and "a AND 3 = 0"
  shows "unat (a - find_seg (ram_SIZE r) a) + 3 < unat (ram_SIZE r)"
proof -
  obtain k where k: "ram_SIZE r = 2 ^ k" "k < 32"
    using assms(1) by (auto simp: ram_ok_def)
  have sz: "unat (ram_SIZE r) = 2 ^ k"
    using k by (simp add: unat_power_lower)
  have "4 \<le> unat (ram_SIZE r)"
    using assms(2) by (simp add: word_le_nat_alt)
  then have "(2::nat) ^ 2 \<le> 2 ^ k"
    using sz by simp
  then have k2: "2 \<le> k"
    by (simp only: power_increasing_iff [of "2::nat"])
  have "take_bit 2 (a - find_seg (ram_SIZE r) a) = take_bit 2 a"
    using k2 by (simp add: find_seg_offset(1) [OF k] min_def)
  also have "\<dots> = 0"
    using assms(3) by (simp add: take_bit_eq_mask mask_eq_exp_minus_1)
  finally have "take_bit 2 (unat (a - find_seg (ram_SIZE r) a)) = 0"
    by (metis unsigned_take_bit_eq unsigned_0)
  then have "4 dvd unat (a - find_seg (ram_SIZE r) a)"
    by (simp add: take_bit_eq_mod dvd_eq_mod_eq_0)
  moreover have "(4::nat) dvd 2 ^ k"
    using le_imp_power_dvd [OF k2, of "2::nat"] by simp
  moreover have "unat (a - find_seg (ram_SIZE r) a) < unat (ram_SIZE r)"
    by (rule ram_ok_offset [OF assms(1)])
  ultimately show ?thesis
    unfolding sz by (auto elim!: dvdE)
qed

end
