(* ===== verification/Uart.thy ===== *)
theory Uart
  imports Mem_Types
begin

unbundle bit_operations_syntax

text \<open>
  The serial port of \<^verbatim>\<open>src/src/memory.hpp\<close> (\<^verbatim>\<open>struct UART_DEV\<close>): a 16550-like
  register file over a 128-byte ring buffer for keyboard input. Characters the guest
  sends go to \<^verbatim>\<open>std::cerr\<close>; the model appends them to \<open>uart_out\<close>. The ring
  buffer refines a queue of at most 127 bytes: the locale \<open>bounded_fifo\<close> states the
  queue laws and proves what follows for whole strings, the interpretation \<open>uart_q\<close>
  discharges them for the index arithmetic of the code.
\<close>

subsection \<open>State and operations\<close>

record UART_DEV =
  uart_iir :: u32
  uart_ier :: u32
  uart_lcr :: u32
  uart_buf_begin :: u32
  uart_buf_end :: u32
  uart_buf :: "u8 list"
  uart_thri :: bool
  uart_dlm :: u32
  uart_dll :: u32
  uart_out :: "u8 list"

abbreviation (input) UART_BUF_SIZE :: u32 where "UART_BUF_SIZE \<equiv> 128"

text \<open>The constructor does not initialise the buffer: \<open>mem\<close> is what its 128 bytes hold.\<close>

definition UART_DEV_ctor :: "u8 list \<Rightarrow> UART_DEV" where
  "UART_DEV_ctor mem =
     \<lparr>uart_iir = 1, uart_ier = 0, uart_lcr = 0, uart_buf_begin = 0, uart_buf_end = 0,
      uart_buf = mem, uart_thri = False, uart_dlm = 0, uart_dll = 0, uart_out = []\<rparr>"

fun keyboard_input :: "u8 list \<Rightarrow> UART_DEV \<Rightarrow> UART_DEV" where
  "keyboard_input [] u = u"
| "keyboard_input (c # cs) u =
     (let nxt_end = (if uart_buf_end u + 1 \<noteq> UART_BUF_SIZE then uart_buf_end u + 1 else 0)
      in if nxt_end = uart_buf_begin u then u
         else keyboard_input cs
                (u\<lparr>uart_buf := (uart_buf u)[unat (uart_buf_end u) := c],
                   uart_buf_end := nxt_end\<rparr>))"

definition uart_irq :: "UART_DEV \<Rightarrow> bool \<times> UART_DEV" where
  "uart_irq u =
     (if uart_buf_end u \<noteq> uart_buf_begin u \<and> uart_ier u AND 1 \<noteq> 0
      then (True, u\<lparr>uart_iir := 4\<rparr>)
      else if uart_ier u AND 2 \<noteq> 0 \<and> uart_thri u
      then (True, u\<lparr>uart_iir := 2\<rparr>)
      else (False, u\<lparr>uart_iir := 1\<rparr>))"

definition uart_dlab :: "UART_DEV \<Rightarrow> bool" where
  "uart_dlab u \<longleftrightarrow> drop_bit 7 (uart_lcr u) AND 1 \<noteq> 0"

text \<open>The branch of \<^verbatim>\<open>read\<close> that takes a byte out of the buffer.\<close>

definition uart_pop :: "UART_DEV \<Rightarrow> u8 \<times> UART_DEV" where
  "uart_pop u =
     (let val = uart_buf u ! unat (uart_buf_begin u);
          b = uart_buf_begin u + 1;
          u' = u\<lparr>uart_buf_begin := (if UART_BUF_SIZE \<le> b then 0 else b)\<rparr>
      in (val, snd (uart_irq u')))"

definition uart_read :: "u32 \<Rightarrow> UART_DEV \<Rightarrow> u8 \<times> UART_DEV" where
  "uart_read addr u =
     (let offset = addr - UART_BASE; dlab = uart_dlab u
      in if offset = 0 then
           (if dlab then (ucast (uart_dll u), u)
            else if uart_buf_end u \<noteq> uart_buf_begin u then uart_pop u
            else (0, u))
         else if offset = 1 then (if dlab then (ucast (uart_dlm u), u) else (ucast (uart_ier u), u))
         else if offset = 2 then
           (let u' = (snd (uart_irq u))\<lparr>uart_thri := False\<rparr> in (ucast (uart_iir u'), u'))
         else if offset = 3 then (ucast (uart_lcr u), u)
         else if offset = 5 then (0x60 OR of_bool (uart_buf_end u \<noteq> uart_buf_begin u), u)
         else (0, u))"

definition uart_write :: "u32 \<Rightarrow> u8 \<Rightarrow> UART_DEV \<Rightarrow> UART_DEV" where
  "uart_write addr val u =
     (let offset = addr - UART_BASE; dlab = uart_dlab u
      in if offset = 0 then
           (if dlab then u\<lparr>uart_dll := ucast val\<rparr>
            else (let u' = snd (uart_irq (u\<lparr>uart_thri := True\<rparr>))
                  in u'\<lparr>uart_out := uart_out u' @ [val]\<rparr>))
         else if offset = 1 then
           (if dlab then u\<lparr>uart_dlm := ucast val\<rparr>
            else snd (uart_irq (u\<lparr>uart_ier := ucast val\<rparr>)))
         else if offset = 3 then u\<lparr>uart_lcr := ucast val\<rparr>
         else u)"

subsection \<open>Bounded queues\<close>

locale bounded_fifo =
  fixes ok :: "'q \<Rightarrow> bool"
    and contents :: "'q \<Rightarrow> 'a list"
    and capacity :: nat
    and put :: "'a \<Rightarrow> 'q \<Rightarrow> 'q"
    and get :: "'q \<Rightarrow> 'a \<times> 'q"
  assumes put_ok: "ok q \<Longrightarrow> ok (put x q)"
    and put_room: "ok q \<Longrightarrow> length (contents q) < capacity \<Longrightarrow> contents (put x q) = contents q @ [x]"
    and put_full: "ok q \<Longrightarrow> capacity \<le> length (contents q) \<Longrightarrow> put x q = q"
    and get_ok: "ok q \<Longrightarrow> contents q \<noteq> [] \<Longrightarrow> ok (snd (get q))"
    and get_fst: "ok q \<Longrightarrow> contents q \<noteq> [] \<Longrightarrow> fst (get q) = hd (contents q)"
    and get_snd: "ok q \<Longrightarrow> contents q \<noteq> [] \<Longrightarrow> contents (snd (get q)) = tl (contents q)"
    and contents_bound: "ok q \<Longrightarrow> length (contents q) \<le> capacity"
begin

fun drain :: "nat \<Rightarrow> 'q \<Rightarrow> 'a list \<times> 'q" where
  "drain 0 q = ([], q)"
| "drain (Suc n) q = (let (x, q') = get q; (xs, q'') = drain n q' in (x # xs, q''))"

lemma puts_ok: "ok q \<Longrightarrow> ok (fold put xs q)"
  by (induction xs arbitrary: q) (auto simp: put_ok)

lemma puts_contents:
  "ok q \<Longrightarrow> contents (fold put xs q) = contents q @ take (capacity - length (contents q)) xs"
proof (induction xs arbitrary: q)
  case (Cons x xs)
  show ?case
  proof (cases "length (contents q) < capacity")
    case True
    then have "capacity - length (contents q) = Suc (capacity - Suc (length (contents q)))"
      by simp
    then show ?thesis
      using Cons True by (simp add: put_ok put_room)
  next
    case False
    then show ?thesis
      using Cons by (simp add: put_full)
  qed
qed simp

lemma drain_contents:
  "ok q \<Longrightarrow> n \<le> length (contents q) \<Longrightarrow>
     fst (drain n q) = take n (contents q) \<and> contents (snd (drain n q)) = drop n (contents q) \<and>
     ok (snd (drain n q))"
proof (induction n arbitrary: q)
  case (Suc n)
  then have ne: "contents q \<noteq> []" by auto
  then have len: "n \<le> length (contents (snd (get q)))"
    using Suc.prems get_snd by simp
  from Suc.IH [OF get_ok [OF Suc.prems(1) ne] len] show ?case
    using Suc.prems(1) ne
    by (cases "contents q") (auto simp: split_beta Let_def get_fst get_snd)
qed simp

end

subsection \<open>The ring buffer is a bounded queue\<close>

definition uart_ok :: "UART_DEV \<Rightarrow> bool" where
  "uart_ok u \<longleftrightarrow> length (uart_buf u) = 128 \<and> uart_buf_begin u < 128 \<and> uart_buf_end u < 128"

definition ring_dist :: "nat \<Rightarrow> nat \<Rightarrow> nat" where
  "ring_dist b e = (e + 128 - b) mod 128"

definition uart_contents :: "UART_DEV \<Rightarrow> u8 list" where
  "uart_contents u =
     (let b = unat (uart_buf_begin u); e = unat (uart_buf_end u)
      in map (\<lambda>k. uart_buf u ! ((b + k) mod 128)) [0..<ring_dist b e])"

definition uart_put :: "u8 \<Rightarrow> UART_DEV \<Rightarrow> UART_DEV" where
  "uart_put c u = keyboard_input [c] u"

lemma length_uart_contents:
  "length (uart_contents u) = ring_dist (unat (uart_buf_begin u)) (unat (uart_buf_end u))"
  by (simp add: uart_contents_def Let_def)

lemma uart_ok_nat:
  "uart_ok u \<longleftrightarrow> length (uart_buf u) = 128 \<and> unat (uart_buf_begin u) < 128 \<and> unat (uart_buf_end u) < 128"
  by (simp add: uart_ok_def word_less_nat_alt)

lemma mod_128_if: "n < 256 \<Longrightarrow> n mod 128 = (if n < 128 then n else n - 128)" for n :: nat
  by (simp add: mod_if)

lemma ring_dist_if:
  assumes "b < 128" and "e < 128"
  shows "ring_dist b e = (if b \<le> e then e - b else e + 128 - b)"
  using assms mod_128_if [of "e + 128 - b"] by (auto simp: ring_dist_def)

lemma ring_dist_facts:
  assumes "b < 128" and "e < 128"
  shows "ring_dist b e < 128"
    and "(b + ring_dist b e) mod 128 = e"
    and "k < ring_dist b e \<Longrightarrow> (b + k) mod 128 \<noteq> e"
    and "ring_dist b e < 127 \<Longrightarrow> ring_dist b ((e + 1) mod 128) = ring_dist b e + 1"
    and "ring_dist b e < 127 \<longleftrightarrow> (e + 1) mod 128 \<noteq> b"
    and "ring_dist b e \<noteq> 0 \<Longrightarrow> ring_dist ((b + 1) mod 128) e = ring_dist b e - 1"
    and "ring_dist b e = 0 \<longleftrightarrow> b = e"
  using assms mod_128_if [of "b + ring_dist b e"] mod_128_if [of "b + k"] mod_128_if [of "e + 1"]
    mod_128_if [of "b + 1"]
  by (auto simp: ring_dist_if split: if_splits)

lemma unat_ring_next:
  fixes e :: u32
  assumes "unat e < 128"
  shows "unat (if e + 1 \<noteq> 128 then e + 1 else 0) = (unat e + 1) mod 128"
proof -
  have "unat (e + 1) = unat e + 1"
    using assms by (simp add: unat_word_ariths)
  moreover have "e + 1 = 128 \<longleftrightarrow> unat (e + 1) = 128"
    by (simp add: word_unat_eq_iff)
  ultimately show ?thesis
    using assms by auto
qed

lemma unat_ring_wrap:
  fixes b :: u32
  assumes "unat b < 128"
  shows "unat (if 128 \<le> b + 1 then 0 else b + 1) = (unat b + 1) mod 128"
proof -
  have "unat (b + 1) = unat b + 1"
    using assms by (simp add: unat_word_ariths)
  then show ?thesis
    using assms by (cases "unat b = 127") (auto simp: word_le_nat_alt)
qed

lemma uart_put_eq:
  assumes "uart_ok u"
  shows "uart_put c u =
     (if ring_dist (unat (uart_buf_begin u)) (unat (uart_buf_end u)) < 127
      then u\<lparr>uart_buf := (uart_buf u)[unat (uart_buf_end u) := c],
             uart_buf_end := (if uart_buf_end u + 1 \<noteq> 128 then uart_buf_end u + 1 else 0)\<rparr>
      else u)"
proof -
  let ?b = "unat (uart_buf_begin u)" and ?e = "unat (uart_buf_end u)"
  let ?n = "if uart_buf_end u + 1 \<noteq> 128 then uart_buf_end u + 1 else 0"
  have "?b < 128" and "?e < 128"
    using assms by (simp_all add: uart_ok_nat)
  then have "ring_dist ?b ?e < 127 \<longleftrightarrow> ?n \<noteq> uart_buf_begin u"
    using ring_dist_facts(5) [of ?b ?e] unat_ring_next [of "uart_buf_end u"]
    by (simp only: word_unat_eq_iff)
  then show ?thesis
    by (simp only: uart_put_def keyboard_input.simps Let_def split: if_split) simp
qed

lemma uart_contents_put:
  assumes "uart_ok u" and "ring_dist (unat (uart_buf_begin u)) (unat (uart_buf_end u)) < 127"
  shows "uart_contents (uart_put c u) = uart_contents u @ [c]"
proof -
  let ?b = "unat (uart_buf_begin u)" and ?e = "unat (uart_buf_end u)"
  have be: "?b < 128" "?e < 128" and len: "length (uart_buf u) = 128"
    using assms(1) by (simp_all add: uart_ok_nat)
  have "(uart_buf u)[?e := c] ! ((?b + k) mod 128) = uart_buf u ! ((?b + k) mod 128)"
    if "k < ring_dist ?b ?e" for k
    using ring_dist_facts(3) [OF be that] by (metis nth_list_update_neq)
  then have "map (\<lambda>k. (uart_buf u)[?e := c] ! ((?b + k) mod 128)) [0..<ring_dist ?b ?e] =
      map (\<lambda>k. uart_buf u ! ((?b + k) mod 128)) [0..<ring_dist ?b ?e]"
    by (intro map_cong) auto
  moreover have "(uart_buf u)[?e := c] ! ((?b + ring_dist ?b ?e) mod 128) = c"
    using ring_dist_facts(2) [OF be] be len by simp
  ultimately show ?thesis
    using assms ring_dist_facts(4) [OF be] unat_ring_next [OF be(2)]
    by (simp add: uart_put_eq uart_contents_def Let_def del: unsigned_eq_0_iff)
qed

lemma uart_irq_frame [simp]:
  "uart_buf (snd (uart_irq u)) = uart_buf u"
  "uart_buf_begin (snd (uart_irq u)) = uart_buf_begin u"
  "uart_buf_end (snd (uart_irq u)) = uart_buf_end u"
  "uart_lcr (snd (uart_irq u)) = uart_lcr u"
  "uart_ier (snd (uart_irq u)) = uart_ier u"
  "uart_thri (snd (uart_irq u)) = uart_thri u"
  by (auto simp: uart_irq_def)

lemma uart_contents_pop:
  assumes "uart_ok u" and "uart_contents u \<noteq> []"
  shows "fst (uart_pop u) = hd (uart_contents u)"
    and "uart_contents (snd (uart_pop u)) = tl (uart_contents u)"
    and "uart_ok (snd (uart_pop u))"
proof -
  let ?b = "unat (uart_buf_begin u)" and ?e = "unat (uart_buf_end u)"
  have be: "?b < 128" "?e < 128" and len: "length (uart_buf u) = 128"
    using assms(1) by (simp_all add: uart_ok_nat)
  obtain n where n: "ring_dist ?b ?e = Suc n"
    using assms(2) by (cases "ring_dist ?b ?e") (auto simp: uart_contents_def Let_def)
  have upt: "[0..<Suc n] = 0 # map Suc [0..<n]"
    by (simp add: upt_conv_Cons map_Suc_upt del: upt_Suc)
  have wrap: "unat (uart_buf_begin (snd (uart_pop u))) = (?b + 1) mod 128"
    using unat_ring_wrap [OF be(1)] by (simp add: uart_pop_def Let_def)
  show "fst (uart_pop u) = hd (uart_contents u)"
    using be by (simp add: uart_pop_def uart_contents_def Let_def n upt del: upt_Suc)
  have "((?b + 1) mod 128 + k) mod 128 = (?b + Suc k) mod 128" for k
    by (simp add: mod_simps)
  then show "uart_contents (snd (uart_pop u)) = tl (uart_contents u)"
    using ring_dist_facts(6) [OF be] wrap
    by (simp add: uart_contents_def Let_def n upt del: upt_Suc) (simp add: uart_pop_def Let_def)
  show "uart_ok (snd (uart_pop u))"
    using wrap be len by (simp add: uart_ok_nat) (simp add: uart_pop_def Let_def)
qed

interpretation uart_q: bounded_fifo uart_ok uart_contents 127 uart_put uart_pop
proof unfold_locales
  fix q x
  assume ok: "uart_ok q"
  show "uart_ok (uart_put x q)"
    using ok unat_ring_next [of "uart_buf_end q"] by (auto simp: uart_put_eq uart_ok_nat)
  show "length (uart_contents q) < 127 \<Longrightarrow> uart_contents (uart_put x q) = uart_contents q @ [x]"
    using ok by (simp add: uart_contents_put length_uart_contents)
  show "127 \<le> length (uart_contents q) \<Longrightarrow> uart_put x q = q"
    using ok by (simp add: uart_put_eq length_uart_contents)
  show "length (uart_contents q) \<le> 127"
    using ok ring_dist_facts(1) [of "unat (uart_buf_begin q)" "unat (uart_buf_end q)"]
    by (simp add: uart_ok_nat length_uart_contents)
qed (simp_all add: uart_contents_pop)

lemma uart_puts_full: "\<forall>c. uart_put c u = u \<Longrightarrow> fold uart_put cs u = u"
  by (induction cs) auto

lemma keyboard_input_fold: "keyboard_input cs u = fold uart_put cs u"
proof (induction cs arbitrary: u)
  case (Cons c cs)
  show ?case
  proof (cases "(if uart_buf_end u + 1 \<noteq> 128 then uart_buf_end u + 1 else 0) = uart_buf_begin u")
    case True
    then have "\<forall>c. uart_put c u = u"
      by (simp add: uart_put_def Let_def)
    then show ?thesis
      using True uart_puts_full by (simp add: Let_def)
  next
    case False
    then show ?thesis
      using Cons.IH by (simp add: uart_put_def Let_def)
  qed
qed simp

subsection \<open>Properties\<close>

text \<open>
  Keyboard input is queued in order and never overwrites unread bytes: the buffer
  behaves as a queue of capacity 127, and of a typed string exactly the prefix that still
  fits is appended.
\<close>

theorem keyboard_input_queue:
  assumes "uart_ok u"
  shows "uart_ok (keyboard_input cs u) \<and>
     uart_contents (keyboard_input cs u) =
       uart_contents u @ take (127 - length (uart_contents u)) cs"
  using assms by (simp add: keyboard_input_fold uart_q.puts_ok uart_q.puts_contents)

lemma uart_ok_ctor: "length mem = 128 \<Longrightarrow> uart_ok (UART_DEV_ctor mem)"
  by (simp add: uart_ok_def UART_DEV_ctor_def)

lemma uart_contents_ctor: "uart_contents (UART_DEV_ctor mem) = []"
  by (simp add: uart_contents_def UART_DEV_ctor_def ring_dist_def)

theorem keyboard_input_queue_witness:
  "uart_ok (UART_DEV_ctor (replicate 128 0)) \<and>
   uart_contents (keyboard_input [104, 105] (UART_DEV_ctor (replicate 128 0))) = [104, 105]"
  using keyboard_input_queue [of "UART_DEV_ctor (replicate 128 0)" "[104, 105]"]
  by (simp add: uart_ok_ctor uart_contents_ctor)

text \<open>The guest's receive loop: \<open>n\<close> loads of the receive buffer register.\<close>

fun uart_reads :: "nat \<Rightarrow> UART_DEV \<Rightarrow> u8 list \<times> UART_DEV" where
  "uart_reads 0 u = ([], u)"
| "uart_reads (Suc n) u =
     (let (x, u') = uart_read UART_BASE u; (xs, u'') = uart_reads n u' in (x # xs, u''))"

lemma uart_contents_Nil_iff:
  assumes "uart_ok u"
  shows "uart_contents u = [] \<longleftrightarrow> uart_buf_end u = uart_buf_begin u"
proof -
  have "uart_contents u = [] \<longleftrightarrow> length (uart_contents u) = 0"
    by simp
  then show ?thesis
    using assms ring_dist_facts(7) [of "unat (uart_buf_begin u)" "unat (uart_buf_end u)"]
    by (auto simp: length_uart_contents uart_ok_nat word_unat_eq_iff)
qed

lemma uart_dlab_pop: "uart_dlab (snd (uart_pop u)) = uart_dlab u"
  by (simp add: uart_dlab_def uart_pop_def Let_def)

lemma uart_reads_drain:
  "uart_ok u \<Longrightarrow> \<not> uart_dlab u \<Longrightarrow> n \<le> length (uart_contents u) \<Longrightarrow> uart_reads n u = uart_q.drain n u"
proof (induction n arbitrary: u)
  case (Suc n)
  then have ne: "uart_contents u \<noteq> []" by auto
  then have "uart_read UART_BASE u = uart_pop u"
    using Suc.prems by (simp add: uart_read_def uart_contents_Nil_iff)
  moreover have "uart_reads n (snd (uart_pop u)) = uart_q.drain n (snd (uart_pop u))"
    using Suc ne by (intro Suc.IH) (simp_all add: uart_contents_pop uart_dlab_pop)
  ultimately show ?case
    by (simp add: split_beta Let_def)
qed simp

lemma uart_dlab_put [simp]: "uart_dlab (uart_put c u) = uart_dlab u"
  by (simp add: uart_put_def uart_dlab_def Let_def)

lemma uart_dlab_keyboard: "uart_dlab (keyboard_input cs u) = uart_dlab u"
  unfolding keyboard_input_fold by (induction cs arbitrary: u) auto

text \<open>
  What is typed is what the guest reads: a string that fits is delivered byte for
  byte, in order, after the bytes already waiting, by successive loads of the receive
  buffer register (with the divisor latch closed), and the buffer is empty afterwards.
\<close>

theorem keyboard_input_readback:
  assumes "uart_ok u" and "\<not> uart_dlab u" and "length (uart_contents u) + length cs \<le> 127"
  shows "let r = uart_reads (length (uart_contents u) + length cs) (keyboard_input cs u)
         in fst r = uart_contents u @ cs \<and> uart_contents (snd r) = []"
proof -
  let ?u = "keyboard_input cs u" and ?n = "length (uart_contents u) + length cs"
  have ok: "uart_ok ?u" and c: "uart_contents ?u = uart_contents u @ cs"
    using keyboard_input_fold uart_q.puts_ok uart_q.puts_contents assms by auto
  have "uart_reads ?n ?u = uart_q.drain ?n ?u"
    using ok c assms(2) by (intro uart_reads_drain) (simp_all add: uart_dlab_keyboard)
  then show ?thesis
    using uart_q.drain_contents [OF ok, of ?n] c by (simp add: Let_def)
qed

theorem keyboard_input_readback_witness:
  "uart_ok (UART_DEV_ctor (replicate 128 0)) \<and> \<not> uart_dlab (UART_DEV_ctor (replicate 128 0)) \<and>
   fst (uart_reads (length [104, 105 :: u8]) (keyboard_input [104, 105] (UART_DEV_ctor (replicate 128 0)))) = [104, 105]"
proof -
  have "\<not> uart_dlab (UART_DEV_ctor (replicate 128 0))"
    by (simp add: uart_dlab_def UART_DEV_ctor_def)
  then show ?thesis
    using keyboard_input_readback [of "UART_DEV_ctor (replicate 128 0)" "[104, 105]"]
    by (simp add: uart_ok_ctor uart_contents_ctor Let_def
        del: uart_reads.simps keyboard_input.simps)
qed

end
