(* ===== verification/Plic.thy ===== *)
theory Plic
  imports Uart
begin

unbundle bit_operations_syntax

text \<open>
  The interrupt controller of \<^verbatim>\<open>src/src/memory.hpp\<close> (\<^verbatim>\<open>struct PLIC_DEV\<close>) with its
  single source, the UART at line 10, and two contexts (machine and supervisor mode of
  hart 0). Registers are read and written byte by byte; a claim is a read with a side
  effect, so a 32-bit load performs it four times and a 32-bit store to the completion
  register runs its side effect four times. \<^verbatim>\<open>update\<close> runs once per clock cycle and
  asks the UART for its line, which also refreshes the UART's identification register.
  A shift of 1 by a completion number of 32 or more is undefined in C++; here it is 0.
\<close>

subsection \<open>State and operations\<close>

record PLIC_DEV =
  uart_priority :: u32
  source_pending :: u32
  core0_m_threshold :: u32
  core0_s_threshold :: u32
  core0_m_clm :: u32
  core0_s_clm :: u32
  core0_m_irq :: u32
  core0_s_irq :: u32
  core0_m_cmplt :: u32
  core0_s_cmplt :: u32
  core0_m_enable :: u32
  core0_s_enable :: u32
  claim_mask :: u32

definition PLIC_DEV_ctor :: PLIC_DEV where
  "PLIC_DEV_ctor =
     \<lparr>uart_priority = 0, source_pending = 0, core0_m_threshold = 0, core0_s_threshold = 0,
      core0_m_clm = 0, core0_s_clm = 0, core0_m_irq = 0, core0_s_irq = 0, core0_m_cmplt = 0,
      core0_s_cmplt = 0, core0_m_enable = 0, core0_s_enable = 0, claim_mask = 0\<rparr>"

abbreviation (input) CNTXT_0_CLM_CMPLT_THRESHOLD_ADDR :: u32
  where "CNTXT_0_CLM_CMPLT_THRESHOLD_ADDR \<equiv> 0x30200000"
abbreviation (input) CNTXT_1_CLM_CMPLT_THRESHOLD_ADDR :: u32
  where "CNTXT_1_CLM_CMPLT_THRESHOLD_ADDR \<equiv> 0x30201000"
abbreviation (input) CNTXT_0_CLM_CMPLT_ADDR :: u32 where "CNTXT_0_CLM_CMPLT_ADDR \<equiv> 0x30200004"
abbreviation (input) CNTXT_1_CLM_CMPLT_ADDR :: u32 where "CNTXT_1_CLM_CMPLT_ADDR \<equiv> 0x30201004"
abbreviation (input) UART_PRIORITY_ADDR :: u32 where "UART_PRIORITY_ADDR \<equiv> 0x30000028"
abbreviation (input) SOURCE_PENDING_ADDR :: u32 where "SOURCE_PENDING_ADDR \<equiv> 0x30001000"
abbreviation (input) CNTXT_0_ENABLE_ADDR :: u32 where "CNTXT_0_ENABLE_ADDR \<equiv> 0x30002000"
abbreviation (input) CNTXT_1_ENABLE_ADDR :: u32 where "CNTXT_1_ENABLE_ADDR \<equiv> 0x30002080"

definition plic_retire :: "PLIC_DEV \<Rightarrow> PLIC_DEV" where
  "plic_retire p =
     (let p = (if core0_m_cmplt p = core0_m_clm p
               then p\<lparr>core0_m_clm := 0, core0_m_irq := 0\<rparr> else p)
      in if core0_s_cmplt p = core0_s_clm p
         then p\<lparr>core0_s_clm := 0, core0_s_irq := 0\<rparr> else p)"

definition plic_update :: "PLIC_DEV \<Rightarrow> UART_DEV \<Rightarrow> PLIC_DEV \<times> UART_DEV" where
  "plic_update p0 uart =
     (let p = plic_retire p0;
          (line, uart') = uart_irq uart;
          pend = push_bit 10 (of_bool line) AND NOT (claim_mask p);
          m = pend AND 0x400 \<noteq> 0 \<and> core0_m_enable p AND 0x400 \<noteq> 0 \<and>
              core0_m_threshold p < uart_priority p;
          s = pend AND 0x400 \<noteq> 0 \<and> core0_s_enable p AND 0x400 \<noteq> 0 \<and>
              core0_s_threshold p < uart_priority p
      in (p\<lparr>source_pending := pend,
            core0_m_irq := (if m then 10 else core0_m_clm p),
            core0_s_irq := (if s then 10 else core0_s_clm p),
            core0_s_cmplt := 0, core0_m_cmplt := 0\<rparr>, uart'))"

definition plic_read :: "u32 \<Rightarrow> PLIC_DEV \<Rightarrow> u8 \<times> PLIC_DEV" where
  "plic_read addr0 p =
     (let off = unat ((addr0 AND 3) * 8); addr = addr0 AND NOT 3
      in if addr = CNTXT_0_CLM_CMPLT_THRESHOLD_ADDR then (ucast (drop_bit off (core0_m_threshold p)), p)
         else if addr = CNTXT_1_CLM_CMPLT_THRESHOLD_ADDR then (ucast (drop_bit off (core0_s_threshold p)), p)
         else if addr = CNTXT_0_CLM_CMPLT_ADDR then
           (let p' = p\<lparr>claim_mask := claim_mask p OR push_bit (unat (core0_m_clm p)) 1,
                       core0_m_clm := core0_m_irq p\<rparr>
            in (ucast (drop_bit off (core0_m_clm p')), p'))
         else if addr = CNTXT_1_CLM_CMPLT_ADDR then
           (let p' = p\<lparr>claim_mask := claim_mask p OR push_bit (unat (core0_s_clm p)) 1,
                       core0_s_clm := core0_s_irq p\<rparr>
            in (ucast (drop_bit off (core0_s_clm p')), p'))
         else if addr = UART_PRIORITY_ADDR then (ucast (drop_bit off (uart_priority p)), p)
         else if addr = SOURCE_PENDING_ADDR then (ucast (drop_bit off (source_pending p)), p)
         else if addr = CNTXT_0_ENABLE_ADDR then (ucast (drop_bit off (core0_m_enable p)), p)
         else if addr = CNTXT_1_ENABLE_ADDR then (ucast (drop_bit off (core0_s_enable p)), p)
         else (0, p))"

text \<open>\<^verbatim>\<open>(x & ~mask) | (val << off)\<close>, the byte update of every register.\<close>

definition put_byte :: "nat \<Rightarrow> u8 \<Rightarrow> u32 \<Rightarrow> u32" where
  "put_byte off val x = (x AND NOT (push_bit off 0xff)) OR push_bit off (ucast val)"

definition plic_write :: "u32 \<Rightarrow> u8 \<Rightarrow> PLIC_DEV \<Rightarrow> PLIC_DEV" where
  "plic_write addr0 val p =
     (let off = unat ((addr0 AND 3) * 8); addr = addr0 AND NOT 3
      in if addr = CNTXT_0_CLM_CMPLT_THRESHOLD_ADDR
         then p\<lparr>core0_m_threshold := put_byte off val (core0_m_threshold p)\<rparr>
         else if addr = CNTXT_1_CLM_CMPLT_THRESHOLD_ADDR
         then p\<lparr>core0_s_threshold := put_byte off val (core0_s_threshold p)\<rparr>
         else if addr = CNTXT_0_CLM_CMPLT_ADDR
         then p\<lparr>claim_mask := claim_mask p AND NOT (push_bit (unat (core0_m_cmplt p)) 1),
                core0_m_cmplt := put_byte off val (core0_m_cmplt p)\<rparr>
         else if addr = CNTXT_1_CLM_CMPLT_ADDR
         then p\<lparr>claim_mask := claim_mask p AND NOT (push_bit (unat (core0_s_cmplt p)) 1),
                core0_s_cmplt := put_byte off val (core0_s_cmplt p)\<rparr>
         else if addr = UART_PRIORITY_ADDR
         then p\<lparr>uart_priority := put_byte off val (uart_priority p)\<rparr>
         else if addr = SOURCE_PENDING_ADDR then p
         else if addr = CNTXT_0_ENABLE_ADDR
         then p\<lparr>core0_m_enable := put_byte off val (core0_m_enable p)\<rparr>
         else if addr = CNTXT_1_ENABLE_ADDR
         then p\<lparr>core0_s_enable := put_byte off val (core0_s_enable p)\<rparr>
         else p)"

subsection \<open>Word accesses\<close>

text \<open>A 32-bit load and store of a register, in the byte order of the bus.\<close>

definition plic_load32 :: "u32 \<Rightarrow> PLIC_DEV \<Rightarrow> (u32 \<times> PLIC_DEV) option" where
  "plic_load32 addr p = load_loop (\<lambda>a p. Some (plic_read a p)) addr 4 0 p"

definition plic_store32 :: "u32 \<Rightarrow> u32 \<Rightarrow> PLIC_DEV \<Rightarrow> PLIC_DEV option" where
  "plic_store32 addr w p = store_bytes (\<lambda>a v p. Some (plic_write a v p)) addr 4 w p"

lemma bit_put_byte:
  "bit (put_byte off v x) n \<longleftrightarrow>
     n < 32 \<and> (if off \<le> n \<and> n < off + 8 then bit v (n - off) else bit x n)"
proof -
  have "bit v (n - off) \<Longrightarrow> n - off < 8"
    using bit_imp_le_length [of v "n - off"] by simp
  moreover have "bit x n \<Longrightarrow> n < 32"
    using bit_imp_le_length [of x n] by simp
  ultimately show ?thesis
    by (auto simp: put_byte_def bit_simps bit_ff)
qed

lemma bit_byte_of: "bit (byte_of w j) n \<longleftrightarrow> n < 8 \<and> bit w (8 * j + n)"
  by (auto simp: byte_of_def bit_simps dest: bit_imp_le_length)

lemma put_bytes_word:
  "put_byte 24 (byte_of w 3) (put_byte 16 (byte_of w 2)
     (put_byte 8 (byte_of w 1) (put_byte 0 (byte_of w 0) x))) = w"
  by (intro bit_word_eqI) (auto simp: bit_put_byte bit_byte_of)

lemma load_bytes_word:
  "push_bit 24 (ucast (ucast (drop_bit 24 w) :: u8)) OR push_bit 16 (ucast (ucast (drop_bit 16 w) :: u8)) OR
   push_bit 8 (ucast (ucast (drop_bit 8 w) :: u8)) OR ucast (ucast w :: u8) = (w :: u32)"
proof (rule bit_word_eqI, goal_cases)
  case (1 n)
  then show ?case
    by (cases "n < 8"; cases "n < 16"; cases "n < 24") (auto simp: bit_simps)
qed

lemma load_loop_4:
  "load_loop (\<lambda>a s. Some (f a s)) a 4 0 s =
     (let (b3, s3) = f (a + 3) s; (b2, s2) = f (a + 2) s3; (b1, s1) = f (a + 1) s2; (b0, s0) = f a s1
      in Some (push_bit 8 (push_bit 8 (push_bit 8 (ucast b3) OR ucast b2) OR ucast b1) OR ucast b0, s0))"
  by (simp add: numeral_eq_Suc split_beta)

lemma store_bytes_4:
  "store_bytes (\<lambda>a v s. Some (f a v s)) a 4 w s =
     Some (f (a + 3) (byte_of w 3) (f (a + 2) (byte_of w 2) (f (a + 1) (byte_of w 1) (f a (byte_of w 0) s))))"
  by (simp add: numeral_eq_Suc byte_of_def drop_bit_drop_bit add.assoc)

lemma plic_claim_s:
  "plic_load32 CNTXT_1_CLM_CMPLT_ADDR p =
     Some (core0_s_irq p,
       p\<lparr>core0_s_clm := core0_s_irq p,
         claim_mask := claim_mask p OR push_bit (unat (core0_s_clm p)) 1 OR
           push_bit (unat (core0_s_irq p)) 1\<rparr>)"
  by (simp add: plic_load32_def load_loop_4 plic_read_def Let_def or.assoc load_bytes_word
      del: push_bit_of_1)

lemma plic_complete_s:
  assumes "core0_s_cmplt p = 0" and "w < 256"
  shows "plic_store32 CNTXT_1_CLM_CMPLT_ADDR w p =
     Some (p\<lparr>core0_s_cmplt := w,
       claim_mask := claim_mask p AND NOT 1 AND NOT (push_bit (unat w) 1)\<rparr>)"
proof -
  have "take_bit 8 w = w"
    using assms(2) by (intro take_bit_word_small) simp_all
  then have bits: "bit w n \<Longrightarrow> n < 8" for n
    by (metis bit_take_bit_iff)
  have b: "byte_of w (Suc 0) = 0" "byte_of w 2 = 0" "byte_of w 3 = 0"
    by (intro bit_word_eqI, auto simp: bit_byte_of dest: bits)+
  have w: "put_byte 0 (byte_of w 0) 0 = w"
    by (intro bit_word_eqI) (auto simp: bit_put_byte bit_byte_of dest: bits)
  have z: "put_byte k 0 w = w" if "8 \<le> k" for k
    using that by (intro bit_word_eqI) (auto simp: bit_put_byte dest: bits)
  show ?thesis
    using assms(1)
    by (simp add: plic_store32_def store_bytes_4 plic_write_def Let_def b w z and.assoc
      del: push_bit_of_1)
qed

subsection \<open>Properties\<close>

lemma bit_and_400: "x AND 0x400 \<noteq> 0 \<longleftrightarrow> bit x 10" for x :: u32
  using and_power_eq [of x 10] by simp

text \<open>
  C35. The life of a supervisor interrupt: once the UART raises its line, the source is
  enabled and its priority exceeds the threshold, \<^verbatim>\<open>update\<close> raises interrupt 10; a
  32-bit claim returns 10 and masks the source, so the following updates hold the claimed
  interrupt and offer it to no context again; a 32-bit completion of 10 followed by an
  update retires the claim, unmasks the source and lowers the interrupt, unless the UART
  line is still up.
\<close>

theorem plic_interrupt_lifecycle:
  assumes "fst (uart_irq u)" and "bit (core0_s_enable p) 10"
    and "core0_s_threshold p < uart_priority p" and "claim_mask p = 0"
    and "core0_s_clm p = 0" and "core0_s_cmplt p = 0"
  shows "let p1 = fst (plic_update p u);
             (claimed, p2) = the (plic_load32 CNTXT_1_CLM_CMPLT_ADDR p1);
             p3 = fst (plic_update p2 u2);
             p4 = the (plic_store32 CNTXT_1_CLM_CMPLT_ADDR 10 p3);
             p5 = fst (plic_update p4 u3)
         in core0_s_irq p1 = 10 \<and> claimed = 10 \<and> core0_s_clm p2 = 10 \<and>
            source_pending p3 = 0 \<and> core0_s_irq p3 = 10 \<and> core0_m_irq p3 = core0_m_clm p3 \<and>
            core0_s_clm p5 = 0 \<and> \<not> bit (claim_mask p5) 10 \<and>
            core0_s_irq p5 = (if fst (uart_irq u3) then 10 else 0)"
proof -
  define p1 where "p1 = fst (plic_update p u)"
  have en: "core0_s_enable p AND 0x400 \<noteq> 0"
    using assms(2) by (simp only: bit_and_400)
  have p1: "core0_s_irq p1 = 10" "core0_s_clm p1 = 0" "core0_s_cmplt p1 = 0" "claim_mask p1 = 0"
    "core0_s_enable p1 AND 0x400 \<noteq> 0" "core0_s_threshold p1 < uart_priority p1"
    using assms en by (simp_all add: p1_def plic_update_def plic_retire_def split_beta Let_def)
  define p2 where "p2 = p1\<lparr>core0_s_clm := 10, claim_mask := 0x401\<rparr>"
  have claim: "plic_load32 CNTXT_1_CLM_CMPLT_ADDR p1 = Some (10, p2)"
    using p1 by (simp add: plic_claim_s p2_def)
  define p3 where "p3 = fst (plic_update p2 u2)"
  have p3: "source_pending p3 = 0" "core0_s_irq p3 = 10" "core0_m_irq p3 = core0_m_clm p3"
    "core0_s_clm p3 = 10" "core0_s_cmplt p3 = 0" "claim_mask p3 = 0x401"
    "core0_s_enable p3 AND 0x400 \<noteq> 0" "core0_s_threshold p3 < uart_priority p3"
    using p1 by (simp_all add: p3_def p2_def plic_update_def plic_retire_def split_beta Let_def)
  define p4 where "p4 = p3\<lparr>core0_s_cmplt := 10, claim_mask := 0\<rparr>"
  have complete: "plic_store32 CNTXT_1_CLM_CMPLT_ADDR 10 p3 = Some p4"
    using p3 plic_complete_s [of p3 10] by (simp add: p4_def)
  define p5 where "p5 = fst (plic_update p4 u3)"
  have p5: "core0_s_clm p5 = 0" "claim_mask p5 = 0"
    "core0_s_irq p5 = (if fst (uart_irq u3) then 10 else 0)"
    using p3 by (simp_all add: p5_def p4_def plic_update_def plic_retire_def split_beta Let_def)
  show ?thesis
    unfolding Let_def p1_def [symmetric] claim option.sel prod.case p3_def [symmetric] complete
      p5_def [symmetric]
    using p1 p3 p5 by (simp add: p2_def)
qed

text \<open>Witness: the UART with its transmit interrupt enabled, line 10 enabled for supervisor mode.\<close>

theorem plic_interrupt_lifecycle_witness:
  "let u = (UART_DEV_ctor [])\<lparr>uart_ier := 2, uart_thri := True\<rparr>;
       p = PLIC_DEV_ctor\<lparr>uart_priority := 1, core0_s_enable := 0x400\<rparr>
   in fst (uart_irq u) \<and> bit (core0_s_enable p) 10 \<and> core0_s_threshold p < uart_priority p \<and>
      core0_s_irq (fst (plic_update p u)) = 10"
proof -
  define u where "u = (UART_DEV_ctor [])\<lparr>uart_ier := 2, uart_thri := True\<rparr>"
  define p where "p = PLIC_DEV_ctor\<lparr>uart_priority := 1, core0_s_enable := 0x400\<rparr>"
  have h: "fst (uart_irq u)" "bit (core0_s_enable p) 10" "core0_s_threshold p < uart_priority p"
    "claim_mask p = 0" "core0_s_clm p = 0" "core0_s_cmplt p = 0"
    by (simp_all add: u_def p_def uart_irq_def UART_DEV_ctor_def PLIC_DEV_ctor_def)
  show ?thesis
    using plic_interrupt_lifecycle [OF h, of u u] h
    by (simp add: Let_def split_beta u_def [symmetric] p_def [symmetric])
qed

end
