(* ===== verification/Clint.thy ===== *)
theory Clint
  imports Mem_Types
begin

unbundle bit_operations_syntax

text \<open>
  The core-local timer of \<^verbatim>\<open>src/src/memory.hpp\<close> (\<^verbatim>\<open>struct CLINT_DEV\<close>): the
  64-bit \<open>mtime\<close>, readable byte by byte at offset 0xBFF8, and the 64-bit \<open>mtimecmp\<close>,
  writable byte by byte at offset 0x4000.
\<close>

record CLINT_DEV =
  mtime :: u64
  mtimecmp :: u64

definition CLINT_DEV_ctor :: CLINT_DEV where
  "CLINT_DEV_ctor = \<lparr>mtime = 0, mtimecmp = 0\<rparr>"

definition clint_read :: "u32 \<Rightarrow> CLINT_DEV \<Rightarrow> u8 \<times> CLINT_DEV" where
  "clint_read addr c =
     (let off = addr - CLINT_BASE
      in if 0xBFF8 \<le> off \<and> off < 0xC000
         then (let shift = ucast ((off - 0xBFF8) * 8) :: u8
               in (ucast (drop_bit (unat shift) (mtime c) AND 0xff), c))
         else (0, c))"

definition clint_write :: "u32 \<Rightarrow> u8 \<Rightarrow> CLINT_DEV \<Rightarrow> CLINT_DEV" where
  "clint_write addr val c =
     (let off = addr - CLINT_BASE
      in if 0x4000 \<le> off \<and> off < 0x4008
         then (let shift = ucast ((off - 0x4000) * 8) :: u8;
                   tmp = push_bit (unat shift) (ucast val);
                   mask = push_bit (unat shift) 0xff
               in c\<lparr>mtimecmp := (mtimecmp c AND NOT mask) OR (tmp AND mask)\<rparr>)
         else c)"

lemma clint_shift:
  fixes off :: u32
  assumes "off < 8"
  shows "unat (ucast (off * 8) :: u8) = 8 * unat off"
proof -
  have "unat off < 8"
    using assms by (simp add: word_less_nat_alt)
  then have "unat (off * 8) = unat off * 8"
    by (simp add: unat_word_ariths)
  then show ?thesis
    using \<open>unat off < 8\<close> by (simp add: unsigned_ucast_eq take_bit_nat_eq_self)
qed

lemma clint_read_byte:
  assumes "j < 8"
  shows "clint_read (0x2000BFF8 + of_nat j) c = (ucast (drop_bit (8 * j) (mtime c)), c)"
  using less_8_cases [OF assms] by (elim disjE) (simp_all add: clint_read_def Let_def)

text \<open>What a byte write does to the compare register: exactly the addressed byte changes.\<close>

lemma clint_write_byte:
  assumes "j < 8"
  shows "clint_write (0x20004000 + of_nat j) v c =
     c\<lparr>mtimecmp := (mtimecmp c AND NOT (push_bit (8 * j) 0xff)) OR push_bit (8 * j) (ucast v)\<rparr>"
proof -
  have "push_bit (8 * j) (ucast v :: u64) AND push_bit (8 * j) 0xff = push_bit (8 * j) (ucast v)"
    by (simp flip: push_bit_and)
  then show ?thesis
    using less_8_cases [OF assms] by (elim disjE) (simp_all add: clint_write_def Let_def)
qed

lemma clint_write_bit:
  assumes "j < 8" and "n < 64"
  shows "bit (mtimecmp (clint_write (0x20004000 + of_nat j) v c)) n \<longleftrightarrow>
     (if n div 8 = j then bit v (n mod 8) else bit (mtimecmp c) n)"
proof (cases "n div 8 = j")
  case True
  then obtain r where "n = 8 * j + r" and "r < 8"
    by (metis mod_less_divisor mult_div_mod_eq zero_less_numeral)
  then show ?thesis
    using assms unfolding clint_write_byte [OF assms(1)]
    by (auto simp: bit_simps bit_ff)
next
  case False
  then have "n < 8 * j \<or> 8 * j + 8 \<le> n"
    by auto
  then show ?thesis
    using False assms unfolding clint_write_byte [OF assms(1)]
    by (auto simp: bit_simps bit_ff dest: bit_imp_le_length)
qed

text \<open>The eight byte stores of a double word, lowest byte first, as the bus performs them.\<close>

definition clint_store64 :: "u64 \<Rightarrow> CLINT_DEV \<Rightarrow> CLINT_DEV" where
  "clint_store64 w c =
     fold (\<lambda>j. clint_write (0x20004000 + of_nat j) (ucast (drop_bit (8 * j) w))) [0..<8] c"

lemma clint_store_prefix:
  assumes "k \<le> 8" and "n < 64"
  shows "bit (mtimecmp (fold (\<lambda>j. clint_write (0x20004000 + of_nat j) (ucast (drop_bit (8 * j) w)))
      [0..<k] c)) n \<longleftrightarrow> (if n < 8 * k then bit w n else bit (mtimecmp c) n)"
  using assms(1)
proof (induction k)
  case (Suc k)
  have "n div 8 = k \<longleftrightarrow> 8 * k \<le> n \<and> n < 8 * k + 8"
    using div_eq_interval [of 8 n k] by (simp add: mult.commute)
  moreover have "bit (ucast (drop_bit (8 * k) w) :: u8) (n mod 8) \<longleftrightarrow> bit w n" if "n div 8 = k"
    using that assms(2) by (auto simp: bit_simps)
  ultimately show ?case
    using Suc assms(2) by (auto simp: clint_write_bit)
qed simp

text \<open>
  Programming the timer works: the eight byte stores to offsets 0x4000 to 0x4007 set
  the whole compare register, whatever it held, and leave the time alone; and the eight
  bytes at offset 0xBFF8 are the bytes of the time, whose reading changes nothing.
\<close>

theorem clint_compare_and_time:
  "mtimecmp (clint_store64 w c) = w \<and> mtime (clint_store64 w c) = mtime c \<and>
   map (\<lambda>j. clint_read (0x2000BFF8 + of_nat j) c) [0..<8] =
     map (\<lambda>j. (ucast (drop_bit (8 * j) (mtime c)), c)) [0..<8]"
proof -
  have "mtimecmp (clint_store64 w c) = w"
    using clint_store_prefix [of 8 _ w c]
    by (intro bit_word_eqI) (simp add: clint_store64_def)
  moreover have "mtime (fold (\<lambda>j. clint_write (f j) (g j)) js c) = mtime c" for f g js
    by (induction js arbitrary: c) (simp_all add: clint_write_def Let_def)
  ultimately show ?thesis
    by (simp add: clint_read_byte clint_store64_def)
qed

end
