(* ===== verification/Memory.thy ===== *)
theory Memory
  imports Ram Plic Clint
begin

unbundle bit_operations_syntax

text \<open>
  The memory module of \<^verbatim>\<open>src/src/memory.hpp\<close> (\<^verbatim>\<open>SC_MODULE(Memory)\<close>): the device
  bus with its ordered device list, instruction fetch, the combinational data access
  (\<^verbatim>\<open>mem_access\<close>) and the clocked commit of stores and atomics (\<^verbatim>\<open>update_memory\<close>).
  The device list is a list of tags; the devices themselves are the fields of one record,
  because the test bench owns them and the bus only holds pointers.
\<close>

subsection \<open>State and operations\<close>

datatype Device = Dev_RAM | Dev_UART | Dev_CLINT | Dev_PLIC | Dev_RVTEST

record MEMORY =
  mem_ram :: RAM
  mem_uart :: UART_DEV
  mem_clint :: CLINT_DEV
  mem_plic :: PLIC_DEV
  mem_tohost :: u32
  mem_stop :: "u8 option"
  mem_devices :: "Device list"

text \<open>The device lists that the two test benches build.\<close>

definition Testbench_memory :: "u8 list \<Rightarrow> MEMORY" where
  "Testbench_memory uart_mem =
     \<lparr>mem_ram = (RAM_ctor (2 ^ 22))\<lparr>ram_base := 0x80000000\<rparr>, mem_uart = UART_DEV_ctor uart_mem,
      mem_clint = CLINT_DEV_ctor, mem_plic = PLIC_DEV_ctor, mem_tohost = 0, mem_stop = None,
      mem_devices = [Dev_RAM, Dev_UART, Dev_CLINT, Dev_PLIC]\<rparr>"

definition Testbench_RVARCHTEST_memory :: "u8 list \<Rightarrow> u32 \<Rightarrow> MEMORY" where
  "Testbench_RVARCHTEST_memory uart_mem tohost_addr =
     \<lparr>mem_ram = RAM_ctor (2 ^ 22), mem_uart = UART_DEV_ctor uart_mem,
      mem_clint = CLINT_DEV_ctor, mem_plic = PLIC_DEV_ctor, mem_tohost = tohost_addr,
      mem_stop = None, mem_devices = [Dev_RVTEST, Dev_RAM, Dev_CLINT]\<rparr>"

fun dev_base :: "MEMORY \<Rightarrow> Device \<Rightarrow> u32" where
  "dev_base m Dev_RAM = ram_base (mem_ram m)"
| "dev_base m Dev_UART = UART_BASE"
| "dev_base m Dev_CLINT = CLINT_BASE"
| "dev_base m Dev_PLIC = PLIC_BASE"
| "dev_base m Dev_RVTEST = mem_tohost m"

fun dev_top :: "MEMORY \<Rightarrow> Device \<Rightarrow> u32" where
  "dev_top m Dev_RAM = ram_top (mem_ram m)"
| "dev_top m Dev_UART = UART_TOP"
| "dev_top m Dev_CLINT = CLINT_TOP"
| "dev_top m Dev_PLIC = PLIC_TOP"
| "dev_top m Dev_RVTEST = mem_tohost m + 4"

text \<open>The test device stops the simulation on a write to its base; the value tells the verdict.\<close>

definition rvtest_write :: "u32 \<Rightarrow> u8 \<Rightarrow> MEMORY \<Rightarrow> MEMORY" where
  "rvtest_write addr val m = (if addr = mem_tohost m then m\<lparr>mem_stop := Some val\<rparr> else m)"

fun dev_read :: "Device \<Rightarrow> u32 \<Rightarrow> MEMORY \<Rightarrow> (u8 \<times> MEMORY) option" where
  "dev_read Dev_RAM a m = map_option (\<lambda>(b, r). (b, m\<lparr>mem_ram := r\<rparr>)) (ram_read a (mem_ram m))"
| "dev_read Dev_UART a m = (let (b, u) = uart_read a (mem_uart m) in Some (b, m\<lparr>mem_uart := u\<rparr>))"
| "dev_read Dev_CLINT a m = (let (b, c) = clint_read a (mem_clint m) in Some (b, m\<lparr>mem_clint := c\<rparr>))"
| "dev_read Dev_PLIC a m = (let (b, p) = plic_read a (mem_plic m) in Some (b, m\<lparr>mem_plic := p\<rparr>))"
| "dev_read Dev_RVTEST a m = Some (0, m)"

fun dev_write :: "Device \<Rightarrow> u32 \<Rightarrow> u8 \<Rightarrow> MEMORY \<Rightarrow> MEMORY option" where
  "dev_write Dev_RAM a v m = map_option (\<lambda>r. m\<lparr>mem_ram := r\<rparr>) (ram_write a v (mem_ram m))"
| "dev_write Dev_UART a v m = Some (m\<lparr>mem_uart := uart_write a v (mem_uart m)\<rparr>)"
| "dev_write Dev_CLINT a v m = Some (m\<lparr>mem_clint := clint_write a v (mem_clint m)\<rparr>)"
| "dev_write Dev_PLIC a v m = Some (m\<lparr>mem_plic := plic_write a v (mem_plic m)\<rparr>)"
| "dev_write Dev_RVTEST a v m = Some (rvtest_write a v m)"

text \<open>
  The device loops: a load byte is the disjunction over every device whose range holds the
  address (the loop has no \<^verbatim>\<open>break\<close>), a store byte goes to the first such device.
\<close>

fun bus_read :: "Device list \<Rightarrow> u32 \<Rightarrow> MEMORY \<Rightarrow> (u8 \<times> MEMORY) option" where
  "bus_read [] a m = Some (0, m)"
| "bus_read (d # ds) a m =
     (if dev_base m d \<le> a \<and> a \<le> dev_top m d
      then do { (b, m1) \<leftarrow> dev_read d a m; (c, m2) \<leftarrow> bus_read ds a m1; Some (b OR c, m2) }
      else bus_read ds a m)"

fun bus_write :: "Device list \<Rightarrow> u32 \<Rightarrow> u8 \<Rightarrow> MEMORY \<Rightarrow> MEMORY option" where
  "bus_write [] a v m = Some m"
| "bus_write (d # ds) a v m =
     (if dev_base m d \<le> a \<and> a \<le> dev_top m d then dev_write d a v m else bus_write ds a v m)"

definition mem_load_byte :: "u32 \<Rightarrow> MEMORY \<Rightarrow> (u8 \<times> MEMORY) option" where
  "mem_load_byte a m = bus_read (mem_devices m) a m"

definition mem_store_byte :: "u32 \<Rightarrow> u8 \<Rightarrow> MEMORY \<Rightarrow> MEMORY option" where
  "mem_store_byte a v m = bus_write (mem_devices m) a v m"

definition inst_fetch :: "IMEM_IN \<Rightarrow> MEMORY \<Rightarrow> (MEM_OUT \<times> MEMORY) option" where
  "inst_fetch imem_in m =
     (if imem_req_ack imem_in then
        (if imem_addr imem_in AND 1 = 0
         then do { (w, r) \<leftarrow> ram_fetch (imem_addr imem_in) (mem_ram m);
                   Some (\<lparr>mem_rsp_ack = True, mem_rsp_rdata = w, mem_rsp_fault = 0\<rparr>, m\<lparr>mem_ram := r\<rparr>) }
         else Some (\<lparr>mem_rsp_ack = True, mem_rsp_rdata = 0, mem_rsp_fault = 1\<rparr>, m))
      else Some (\<lparr>mem_rsp_ack = False, mem_rsp_rdata = 0, mem_rsp_fault = 0\<rparr>, m))"

text \<open>
  The address of an atomic counts as a device address when it or its end lies in the UART
  or CLINT range; sums are modulo \<open>2\<^sup>32\<close>. The function ignores its arguments and
  reads the request again.
\<close>

definition device_address :: "DMEM_IN \<Rightarrow> bool" where
  "device_address dmem_in =
     (let a = dmem_addr dmem_in; e = a + ucast (dmem_size dmem_in)
      in (UART_BASE \<le> a \<and> a < UART_TOP) \<or> (UART_BASE \<le> e \<and> e < UART_TOP) \<or>
         (CLINT_BASE \<le> a \<and> a < CLINT_TOP) \<or> (CLINT_BASE \<le> e \<and> e < CLINT_TOP))"

definition mem_access_amo :: "DMEM_IN \<Rightarrow> MEMORY \<Rightarrow> (MEM_OUT \<times> MEMORY) option" where
  "mem_access_amo d m =
     (if device_address d
      then Some (\<lparr>mem_rsp_ack = True, mem_rsp_rdata = 0, mem_rsp_fault = 1\<rparr>, m)
      else if dmem_amoop d = 1
      then do { (fail, r) \<leftarrow> amo_sc (dmem_addr d) (mem_ram m);
                Some (\<lparr>mem_rsp_ack = True, mem_rsp_rdata = of_bool fail, mem_rsp_fault = 0\<rparr>,
                      m\<lparr>mem_ram := r\<rparr>) }
      else do { (w, r) \<leftarrow> load_loop ram_read (dmem_addr d) (unat (dmem_size d)) 0 (mem_ram m);
                Some (\<lparr>mem_rsp_ack = True, mem_rsp_rdata = w, mem_rsp_fault = 0\<rparr>,
                      m\<lparr>mem_ram := r\<rparr>) })"

definition mem_access :: "DMEM_IN \<Rightarrow> MEMORY \<Rightarrow> (MEM_OUT \<times> MEMORY) option" where
  "mem_access d m =
     (if \<not> dmem_req_ack d then Some (MEM_OUT_ctor, m)
      else if dmem_is_amo d \<and> dmem_addr d AND 3 = 0 then mem_access_amo d m
      else if dmem_is_load d
      then do { (w, m') \<leftarrow> load_loop mem_load_byte (dmem_addr d) (unat (dmem_size d)) 0 m;
                Some (\<lparr>mem_rsp_ack = True, mem_rsp_rdata = w, mem_rsp_fault = 0\<rparr>, m') }
      else if dmem_is_store d
      then Some (\<lparr>mem_rsp_ack = True, mem_rsp_rdata = 0, mem_rsp_fault = 0\<rparr>, m)
      else Some (\<lparr>mem_rsp_ack = True, mem_rsp_rdata = 0, mem_rsp_fault = 1\<rparr>, m))"

fun lr_loop :: "u32 \<Rightarrow> nat \<Rightarrow> RAM \<Rightarrow> RAM option" where
  "lr_loop a 0 r = Some r"
| "lr_loop a (Suc n) r = do { r' \<leftarrow> amo_lr a r; lr_loop (a + 1) n r' }"

definition update_amo :: "DMEM_IN \<Rightarrow> u32 \<Rightarrow> RAM \<Rightarrow> RAM option" where
  "update_amo d rdata r =
     (if dmem_amoop d = 0 then lr_loop (dmem_addr d) (unat (dmem_size d)) r
      else if dmem_amoop d = 1
      then (if rdata = 0
            then store_bytes ram_write (dmem_addr d) (unat (dmem_size d)) (dmem_wdata d) r
            else Some r)
      else store_bytes ram_write (dmem_addr d) (unat (dmem_size d))
             (amo_op (dmem_amoop d) (dmem_wdata d) rdata) r)"

definition update_memory :: "DMEM_IN \<Rightarrow> MEM_OUT \<Rightarrow> MEMORY \<Rightarrow> MEMORY option" where
  "update_memory d out m =
     (if mem_rsp_ack out \<and> mem_rsp_fault out = 0 then
        (if dmem_is_amo d
         then map_option (\<lambda>r. m\<lparr>mem_ram := r\<rparr>) (update_amo d (mem_rsp_rdata out) (mem_ram m))
         else if dmem_is_store d
         then store_bytes mem_store_byte (dmem_addr d) (unat (dmem_size d)) (dmem_wdata d) m
         else Some m)
      else Some m)"

text \<open>One request: the combinational answer and, at the clock edge, the commit.\<close>

definition mem_request :: "DMEM_IN \<Rightarrow> MEMORY \<Rightarrow> (MEM_OUT \<times> MEMORY) option" where
  "mem_request d m =
     do { (out, m1) \<leftarrow> mem_access d m; m2 \<leftarrow> update_memory d out m1; Some (out, m2) }"

subsection \<open>The bus above RAM\<close>

definition in_ram :: "u32 \<Rightarrow> bool" where
  "in_ram a \<longleftrightarrow> 0x80000000 \<le> a"

definition mem_ok :: "MEMORY \<Rightarrow> bool" where
  "mem_ok m \<longleftrightarrow> ram_ok (mem_ram m) \<and> ram_base (mem_ram m) = 0x80000000 \<and>
     ram_top (mem_ram m) = - 1 \<and> 4 \<le> ram_SIZE (mem_ram m) \<and>
     mem_devices m = [Dev_RAM, Dev_UART, Dev_CLINT, Dev_PLIC]"

abbreviation mem_byte :: "MEMORY \<Rightarrow> u32 \<Rightarrow> u8" where
  "mem_byte m \<equiv> ram_byte (mem_ram m)"

abbreviation mem_resv :: "MEMORY \<Rightarrow> u32 \<Rightarrow> bool" where
  "mem_resv m \<equiv> ram_resv (mem_ram m)"

lemma mem_ok_Testbench: "mem_ok (Testbench_memory us)"
proof -
  have "ram_ok (RAM_ctor (2 ^ 22)) \<and> ram_SIZE (RAM_ctor (2 ^ 22)) = 2 ^ 22 \<and> ram_top (RAM_ctor (2 ^ 22)) = - 1"
    using ram_ok_ctor [of 22] by (simp add: RAM_ctor_def build_seg_def)
  then show ?thesis
    by (simp add: mem_ok_def Testbench_memory_def)
qed

lemma not_device_in_ram:
  assumes "in_ram a"
  shows "\<not> a \<le> 0x10000100" "\<not> a \<le> 0x20010000" "\<not> a \<le> 0x34000000"
  using assms by (auto simp: in_ram_def word_le_nat_alt)

lemma mem_load_byte_ok:
  assumes "mem_ok m" and "in_ram a"
  shows "\<exists>m'. mem_load_byte a m = Some (mem_byte m a, m') \<and> mem_ok m' \<and> mem_byte m' = mem_byte m \<and>
     mem_resv m' = mem_resv m"
proof -
  obtain r where r: "ram_read a (mem_ram m) = Some (mem_byte m a, r)" "ram_ok r"
    "ram_byte r = mem_byte m" "ram_resv r = mem_resv m"
    "ram_range r = ram_range (mem_ram m)"
    using ram_read_ok [of "mem_ram m" a] ram_read_range assms(1) unfolding mem_ok_def by blast
  then show ?thesis
    using assms not_device_in_ram [OF assms(2)]
    by (simp add: mem_load_byte_def mem_ok_def in_ram_def ram_range_def)
qed

lemma mem_store_byte_ok:
  assumes "mem_ok m" and "in_ram a"
  shows "\<exists>m'. mem_store_byte a v m = Some m' \<and> mem_ok m' \<and> mem_byte m' = (mem_byte m)(a := v) \<and>
     mem_resv m' = (mem_resv m)(a := False)"
proof -
  obtain r where r: "ram_write a v (mem_ram m) = Some r" "ram_ok r"
    "ram_byte r = (mem_byte m)(a := v)" "ram_resv r = (mem_resv m)(a := False)"
    "ram_range r = ram_range (mem_ram m)"
    using ram_write_ok [of "mem_ram m" a v] ram_write_range assms(1) unfolding mem_ok_def by blast
  then show ?thesis
    using assms
    by (simp add: mem_store_byte_def mem_ok_def in_ram_def ram_range_def)
qed

interpretation bus: reservable_memory mem_ok in_ram mem_byte mem_load_byte mem_store_byte mem_resv
proof unfold_locales
  show "mem_resv s' = mem_resv s" if "mem_ok s" "in_ram a" "mem_load_byte a s = Some (v, s')" for s a v s'
    using mem_load_byte_ok [OF that(1,2)] that(3) by auto
  show "mem_resv s' = (mem_resv s)(a := False)"
    if "mem_ok s" "in_ram a" "mem_store_byte a v s = Some s'" for s a v s'
    using mem_store_byte_ok [OF that(1,2), of v] that(3) by auto
qed (use mem_load_byte_ok mem_store_byte_ok in blast)+

subsection \<open>Loads, stores and atomics as requests\<close>

definition load_req :: "u32 \<Rightarrow> u8 \<Rightarrow> DMEM_IN" where
  "load_req a sz = DMEM_IN_ctor\<lparr>dmem_req_ack := True, dmem_addr := a, dmem_size := sz, dmem_is_load := True\<rparr>"

definition store_req :: "u32 \<Rightarrow> u8 \<Rightarrow> u32 \<Rightarrow> DMEM_IN" where
  "store_req a sz w = DMEM_IN_ctor\<lparr>dmem_req_ack := True, dmem_addr := a, dmem_size := sz,
     dmem_wdata := w, dmem_is_store := True\<rparr>"

definition amo_req :: "u8 \<Rightarrow> u32 \<Rightarrow> u32 \<Rightarrow> DMEM_IN" where
  "amo_req op a w = DMEM_IN_ctor\<lparr>dmem_req_ack := True, dmem_addr := a, dmem_wdata := w,
     dmem_is_amo := True, dmem_amoop := op\<rparr>"

definition answer :: "u32 \<Rightarrow> MEM_OUT" where
  "answer w = \<lparr>mem_rsp_ack = True, mem_rsp_rdata = w, mem_rsp_fault = 0\<rparr>"

lemmas req_defs = load_req_def store_req_def amo_req_def DMEM_IN_ctor_def answer_def

lemma in_ram_span:
  assumes "in_ram a" and "unat a + n \<le> 2 ^ 32" and "j < n"
  shows "in_ram (a + of_nat j)"
proof -
  have "unat (a + of_nat j) = unat a + j"
    using assms(2,3) by (simp add: unat_word_ariths unat_of_nat)
  then show ?thesis
    using assms(1) by (simp add: in_ram_def word_le_nat_alt)
qed

lemma store_request_ok:
  assumes "mem_ok m" and "in_ram a" and "unat a + unat sz \<le> 2 ^ 32"
  shows "\<exists>m'. mem_request (store_req a sz w) m = Some (answer 0, m') \<and> mem_ok m' \<and>
     mem_byte m' = (\<lambda>x. if unat (x - a) < unat sz then byte_of w (unat (x - a)) else mem_byte m x) \<and>
     mem_resv m' = (\<lambda>x. unat sz \<le> unat (x - a) \<and> mem_resv m x)"
proof -
  note span = in_ram_span [OF assms(2,3)]
  have n: "unat sz \<le> 2 ^ 32"
    using assms(3) by simp
  obtain m' where m': "store_bytes mem_store_byte a (unat sz) w m = Some m'" "mem_ok m'"
    "mem_byte m' = (\<lambda>x. if unat (x - a) < unat sz then byte_of w (unat (x - a)) else mem_byte m x)"
    using bus.store_bytes_ok [OF assms(1) n span] by blast
  moreover have "mem_resv m' = (\<lambda>x. unat sz \<le> unat (x - a) \<and> mem_resv m x)"
    by (rule bus.store_bytes_resv [OF assms(1) n span m'(1)])
  ultimately show ?thesis
    by (simp add: mem_request_def mem_access_def update_memory_def req_defs)
qed

lemma load_request_ok:
  assumes "mem_ok m" and "in_ram a" and "unat a + unat sz \<le> 2 ^ 32"
  shows "\<exists>m'. mem_request (load_req a sz) m = Some (answer (le_word (mem_byte m) a (unat sz)), m') \<and>
     mem_ok m' \<and> mem_byte m' = mem_byte m \<and> mem_resv m' = mem_resv m"
proof -
  note span = in_ram_span [OF assms(2,3)]
  obtain m' where m': "load_loop mem_load_byte a (unat sz) 0 m =
      Some (le_word (mem_byte m) a (unat sz), m')" "mem_ok m'" "mem_byte m' = mem_byte m"
    using bus.load_loop_ok [OF assms(1) span, of "unat sz" 0] by auto
  moreover have "mem_resv m' = mem_resv m"
    by (rule bus.load_loop_resv [OF assms(1) span m'(1)])
  ultimately show ?thesis
    by (simp add: mem_request_def mem_access_def update_memory_def req_defs)
qed

text \<open>
  C20. Data memory of the Linux test bench is a flat little-endian byte array: a store of up
  to four bytes anywhere in RAM succeeds, a load of the same range then returns exactly the
  bytes stored, the store changes no other byte, and the load changes nothing.
\<close>

theorem ram_store_load:
  assumes "mem_ok m" and "in_ram a" and "unat a + unat sz \<le> 2 ^ 32" and "sz \<le> 4"
  shows "\<exists>m1 m2. mem_request (store_req a sz w) m = Some (answer 0, m1) \<and>
     mem_request (load_req a sz) m1 = Some (answer (take_bit (8 * unat sz) w), m2) \<and>
     mem_ok m2 \<and> mem_byte m2 = mem_byte m1 \<and>
     (\<forall>x. unat sz \<le> unat (x - a) \<longrightarrow> mem_byte m1 x = mem_byte m x)"
proof -
  have n: "unat sz \<le> 4"
    using assms(4) by (simp add: word_le_nat_alt)
  obtain m1 where m1: "mem_request (store_req a sz w) m = Some (answer 0, m1)" "mem_ok m1"
    "mem_byte m1 = (\<lambda>x. if unat (x - a) < unat sz then byte_of w (unat (x - a)) else mem_byte m x)"
    using store_request_ok [OF assms(1-3)] by blast
  have "unat (of_nat j :: u32) = j" if "j < unat sz" for j
    using that n by (simp add: unat_of_nat take_bit_nat_eq_self)
  then have "le_word (mem_byte m1) a (unat sz) = take_bit (8 * unat sz) w"
    using n by (intro le_word_bytes) (simp_all add: m1(3))
  then obtain m2 where "mem_request (load_req a sz) m1 = Some (answer (take_bit (8 * unat sz) w), m2)"
    "mem_ok m2" "mem_byte m2 = mem_byte m1"
    using load_request_ok [OF m1(2) assms(2,3)] by metis
  then show ?thesis
    using m1 by (intro exI [of _ m1] exI [of _ m2]) simp
qed

theorem ram_store_load_witness:
  "\<exists>m1 m2. mem_request (store_req 0x80000ffd 4 0xdeadbeef) (Testbench_memory []) = Some (answer 0, m1) \<and>
     mem_request (load_req 0x80000ffd 4) m1 = Some (answer 0xdeadbeef, m2)"
  using ram_store_load [OF mem_ok_Testbench [of "[]"], where a = "0x80000ffd" and sz = 4 and w = "0xdeadbeef"]
  by (simp add: in_ram_def) blast

lemma lr_loop_ok:
  assumes "ram_ok r" and "n \<le> 2 ^ 32"
  shows "\<exists>r'. lr_loop a n r = Some r' \<and> ram_ok r' \<and> ram_range r' = ram_range r \<and>
     ram_byte r' = ram_byte r \<and> ram_resv r' = (\<lambda>x. unat (x - a) < n \<or> ram_resv r x)"
  using assms
proof (induction n arbitrary: a r)
  case (Suc n)
  obtain r1 where r1: "amo_lr a r = Some r1" "ram_ok r1" "ram_byte r1 = ram_byte r"
    "ram_resv r1 = (ram_resv r)(a := True)" "ram_range r1 = ram_range r"
    using amo_lr_ok [OF Suc.prems(1), of a] amo_lr_range by blast
  obtain r2 where r2: "lr_loop (a + 1) n r1 = Some r2" "ram_ok r2" "ram_range r2 = ram_range r1"
    "ram_byte r2 = ram_byte r1" "ram_resv r2 = (\<lambda>x. unat (x - (a + 1)) < n \<or> ram_resv r1 x)"
    using Suc.IH [OF r1(2)] Suc.prems(2) by fastforce
  have "ram_resv r2 x \<longleftrightarrow> unat (x - a) < Suc n \<or> ram_resv r x" for x
    by (cases "x = a") (simp_all add: r1 r2 offset_Suc)
  then show ?case
    using r1 r2 by auto
qed simp

lemma load_loop_range:
  "load_loop ram_read a n acc r = Some (w, r') \<Longrightarrow> ram_range r' = ram_range r"
  by (induction n arbitrary: acc r) (auto simp: bind_eq_Some_conv dest: ram_read_range)

lemma store_bytes_range:
  "store_bytes ram_write a n w r = Some r' \<Longrightarrow> ram_range r' = ram_range r"
  by (induction n arbitrary: a w r) (auto simp: bind_eq_Some_conv dest: ram_write_range)

text \<open>What an aligned atomic in RAM sees and does, by operation.\<close>

lemma not_device_address:
  assumes "in_ram a"
  shows "\<not> device_address (amo_req op a w)"
proof -
  have "unat (a + 4) = unat a + 4 \<or> unat (a + 4) < 4"
  proof (cases "unat a + 4 < 2 ^ 32")
    case False
    then have "unat (a + 4) = unat a + 4 - 2 ^ 32"
      using unsigned_less [of a, where 'a = nat] by (simp add: unat_word_ariths mod_if)
    then have "unat (a + 4) < 4"
      using unsigned_less [of a, where 'a = nat] by simp
    then show ?thesis ..
  qed (simp add: unat_word_ariths)
  then show ?thesis
    using assms
    by (auto simp: device_address_def Let_def req_defs in_ram_def word_le_nat_alt word_less_nat_alt)
qed

lemma mem_ok_ram:
  assumes "mem_ok m" and "ram_ok r" and "ram_range r = ram_range (mem_ram m)"
  shows "mem_ok (m\<lparr>mem_ram := r\<rparr>)"
  using assms by (simp add: mem_ok_def ram_range_def)

lemma lr_request_ok:
  assumes "mem_ok m" and "in_ram a" and "a AND 3 = 0"
  shows "\<exists>m'. mem_request (amo_req 0 a w) m = Some (answer (le_word (mem_byte m) a 4), m') \<and> mem_ok m' \<and>
     mem_byte m' = mem_byte m \<and> mem_resv m' = (\<lambda>x. unat (x - a) < 4 \<or> mem_resv m x)"
proof -
  have ok: "ram_ok (mem_ram m)"
    using assms(1) by (simp add: mem_ok_def)
  obtain r1 where r1: "load_loop ram_read a 4 0 (mem_ram m) = Some (le_word (mem_byte m) a 4, r1)"
    "ram_ok r1" "ram_byte r1 = mem_byte m"
    using ram.load_loop_ok [OF ok, of 4 a 0] by auto
  have res: "ram_resv r1 = mem_resv m"
    using ram.load_loop_resv [OF ok _ r1(1)] by simp
  have rng: "ram_range r1 = ram_range (mem_ram m)"
    by (rule load_loop_range [OF r1(1)])
  obtain r2 where "lr_loop a 4 r1 = Some r2" "ram_ok r2" "ram_range r2 = ram_range r1"
    "ram_byte r2 = ram_byte r1" "ram_resv r2 = (\<lambda>x. unat (x - a) < 4 \<or> ram_resv r1 x)"
    using lr_loop_ok [OF r1(2), of 4 a] by auto
  then show ?thesis
    using r1 res rng assms(3) not_device_address [OF assms(2), of 0 w]
      mem_ok_ram [OF assms(1), of r2]
    by (simp add: mem_request_def mem_access_def mem_access_amo_def update_memory_def update_amo_def
        req_defs)
qed

lemma sc_request_ok:
  assumes "mem_ok m" and "in_ram a" and "a AND 3 = 0"
  shows "\<exists>m'. mem_request (amo_req 1 a w) m = Some (answer (of_bool (\<not> mem_resv m a)), m') \<and> mem_ok m' \<and>
     mem_byte m' = (\<lambda>x. if mem_resv m a \<and> unat (x - a) < 4 then byte_of w (unat (x - a)) else mem_byte m x) \<and>
     mem_resv m' = (\<lambda>x. mem_resv m x \<and> \<not> (mem_resv m a \<and> unat (x - a) < 4))"
proof -
  have ok: "ram_ok (mem_ram m)"
    using assms(1) by (simp add: mem_ok_def)
  obtain r1 where r1: "amo_sc a (mem_ram m) = Some (\<not> mem_resv m a, r1)"
    "ram_ok r1" "ram_byte r1 = mem_byte m" "ram_resv r1 = mem_resv m"
    using amo_sc_ok [OF ok, of a] by auto
  have rng: "ram_range r1 = ram_range (mem_ram m)"
    by (rule amo_sc_range [OF r1(1)])
  obtain r2 where r2: "store_bytes ram_write a 4 w r1 = Some r2" "ram_ok r2"
    "ram_byte r2 = (\<lambda>x. if unat (x - a) < 4 then byte_of w (unat (x - a)) else ram_byte r1 x)"
    using ram.store_bytes_ok [OF r1(2), of 4 a w] by auto
  have res: "ram_resv r2 = (\<lambda>x. 4 \<le> unat (x - a) \<and> ram_resv r1 x)"
    using ram.store_bytes_resv [OF r1(2) _ _ r2(1)] by simp
  note simps = mem_request_def mem_access_def mem_access_amo_def update_memory_def update_amo_def
    req_defs
  show ?thesis
  proof (cases "mem_resv m a")
    case True
    then show ?thesis
      using r1 r2 res rng assms(3) not_device_address [OF assms(2), of 1 w]
        mem_ok_ram [OF assms(1) r2(2)] store_bytes_range [OF r2(1)]
      by (auto simp: simps)
  next
    case False
    then show ?thesis
      using r1 rng assms(3) not_device_address [OF assms(2), of 1 w] mem_ok_ram [OF assms(1) r1(2)]
      by (simp add: simps)
  qed
qed

lemma amo_request_ok:
  fixes w :: u32
  assumes "mem_ok m" and "in_ram a" and "a AND 3 = 0" and "op \<noteq> 0" and "op \<noteq> 1"
  defines "new \<equiv> amo_op op w (le_word (mem_byte m) a 4)"
  shows "\<exists>m'. mem_request (amo_req op a w) m = Some (answer (le_word (mem_byte m) a 4), m') \<and> mem_ok m' \<and>
     mem_byte m' = (\<lambda>x. if unat (x - a) < 4 then byte_of new (unat (x - a)) else mem_byte m x)"
proof -
  have ok: "ram_ok (mem_ram m)"
    using assms(1) by (simp add: mem_ok_def)
  obtain r1 where r1: "load_loop ram_read a 4 0 (mem_ram m) = Some (le_word (mem_byte m) a 4, r1)"
    "ram_ok r1" "ram_byte r1 = mem_byte m"
    using ram.load_loop_ok [OF ok, of 4 a 0] by auto
  obtain r2 where r2: "store_bytes ram_write a 4 new r1 = Some r2" "ram_ok r2"
    "ram_byte r2 = (\<lambda>x. if unat (x - a) < 4 then byte_of new (unat (x - a)) else ram_byte r1 x)"
    using ram.store_bytes_ok [OF r1(2), of 4 a new] by auto
  show ?thesis
    using r1(1) r2(1) r2(3) [unfolded r1(3)] load_loop_range [OF r1(1)] store_bytes_range [OF r2(1)] assms(3-5)
      not_device_address [OF assms(2), of op w] mem_ok_ram [OF assms(1) r2(2)]
    by (simp add: mem_request_def mem_access_def mem_access_amo_def update_memory_def
        update_amo_def req_defs new_def)
qed

lemma le_word_stored:
  "le_word (\<lambda>x. if unat (x - a) < 4 then byte_of w (unat (x - a)) else f x) a 4 = w"
proof -
  have "unat (of_nat j :: u32) = j" if "j < 4" for j
    using that by (simp add: unat_of_nat take_bit_nat_eq_self)
  then have "le_word (\<lambda>x. if unat (x - a) < 4 then byte_of w (unat (x - a)) else f x) a 4 =
      take_bit (8 * 4) w"
    by (intro le_word_bytes) simp_all
  then show ?thesis
    by (simp add: take_bit_word_eq_self)
qed

text \<open>
  A read-modify-write atomic on an aligned word in RAM answers with the old word, leaves
  the result of the operation in memory and changes no other byte.
\<close>

theorem amo_atomic:
  assumes "mem_ok m" and "in_ram a" and "a AND 3 = 0" and "op \<noteq> 0" and "op \<noteq> 1"
  shows "\<exists>m'. mem_request (amo_req op a w) m = Some (answer (le_word (mem_byte m) a 4), m') \<and> mem_ok m' \<and>
     le_word (mem_byte m') a 4 = amo_op op w (le_word (mem_byte m) a 4) \<and>
     (\<forall>x. 4 \<le> unat (x - a) \<longrightarrow> mem_byte m' x = mem_byte m x)"
  using amo_request_ok [OF assms, of w] by (auto simp: le_word_stored)

theorem amo_atomic_witness:
  "\<exists>m'. mem_request (amo_req 3 0x80000010 7) (Testbench_memory []) =
      Some (answer (le_word (mem_byte (Testbench_memory [])) 0x80000010 4), m')"
  using amo_atomic [OF mem_ok_Testbench [of "[]"], where a = "0x80000010" and op = 3 and w = 7] by (simp add: in_ram_def) blast

text \<open>
  LR/SC without interference: after a load-reserved, a store-conditional to the same word
  succeeds (answer 0) and writes its operand; a second store-conditional then fails
  (answer 1) and writes nothing.
\<close>

theorem lr_sc_success:
  assumes "mem_ok m" and "in_ram a" and "a AND 3 = 0"
  shows "\<exists>m1 m2 m3. mem_request (amo_req 0 a 0) m = Some (answer (le_word (mem_byte m) a 4), m1) \<and>
     mem_request (amo_req 1 a w) m1 = Some (answer 0, m2) \<and> le_word (mem_byte m2) a 4 = w \<and>
     mem_request (amo_req 1 a w') m2 = Some (answer 1, m3) \<and> mem_byte m3 = mem_byte m2"
proof -
  obtain m1 where m1: "mem_request (amo_req 0 a 0) m = Some (answer (le_word (mem_byte m) a 4), m1)"
    "mem_ok m1" "mem_resv m1 a"
    using lr_request_ok [OF assms, of 0] by auto
  then obtain m2 where m2: "mem_request (amo_req 1 a w) m1 = Some (answer 0, m2)" "mem_ok m2"
    "le_word (mem_byte m2) a 4 = w" "\<not> mem_resv m2 a"
    using sc_request_ok [OF m1(2) assms(2,3), of w] by (auto simp: le_word_stored)
  then obtain m3 where "mem_request (amo_req 1 a w') m2 = Some (answer 1, m3)" "mem_byte m3 = mem_byte m2"
    using sc_request_ok [OF m2(2) assms(2,3), of w'] by auto
  then show ?thesis
    using m1 m2 by blast
qed

theorem lr_sc_success_witness:
  "\<exists>m1 m2 m3. mem_request (amo_req 0 0x80000010 0) (Testbench_memory []) = Some (answer (le_word
       (mem_byte (Testbench_memory [])) 0x80000010 4), m1) \<and>
     mem_request (amo_req 1 0x80000010 5) m1 = Some (answer 0, m2) \<and>
     mem_request (amo_req 1 0x80000010 6) m2 = Some (answer 1, m3)"
  using lr_sc_success [OF mem_ok_Testbench [of "[]"], where a = "0x80000010" and w = 5 and w' = 6] by (simp add: in_ram_def) blast

text \<open>
  LR/SC with interference: a plain store between the two that covers the reserved address
  makes the store-conditional fail and write nothing.
\<close>

theorem sc_after_store:
  assumes "mem_ok m" and "in_ram a" and "a AND 3 = 0"
    and "in_ram b" and "unat b + unat sz \<le> 2 ^ 32" and "unat (a - b) < unat sz"
  shows "\<exists>m1 m2 m3 old. mem_request (amo_req 0 a 0) m = Some (old, m1) \<and>
     mem_request (store_req b sz v) m1 = Some (answer 0, m2) \<and>
     mem_request (amo_req 1 a w) m2 = Some (answer 1, m3) \<and> mem_byte m3 = mem_byte m2"
proof -
  obtain m1 old where m1: "mem_request (amo_req 0 a 0) m = Some (old, m1)" "mem_ok m1"
    using lr_request_ok [OF assms(1-3), of 0] by auto
  obtain m2 where m2: "mem_request (store_req b sz v) m1 = Some (answer 0, m2)" "mem_ok m2"
    "\<not> mem_resv m2 a"
    using store_request_ok [OF m1(2) assms(4,5), of v] assms(6) by auto
  then obtain m3 where "mem_request (amo_req 1 a w) m2 = Some (answer 1, m3)" "mem_byte m3 = mem_byte m2"
    using sc_request_ok [OF m2(2) assms(2,3), of w] by auto
  then show ?thesis
    using m1 m2 by blast
qed

theorem sc_after_store_witness:
  "\<exists>m1 m2 m3 old. mem_request (amo_req 0 0x80000010 0) (Testbench_memory []) = Some (old, m1) \<and>
     mem_request (store_req 0x8000000e 4 7) m1 = Some (answer 0, m2) \<and>
     mem_request (amo_req 1 0x80000010 5) m2 = Some (answer 1, m3)"
  using sc_after_store [OF mem_ok_Testbench [of "[]"], where a = "0x80000010" and b = "0x8000000e" and sz = 4 and v = 7 and w = 5]
  by (simp add: in_ram_def) blast

text \<open>
  The reservation check looks at the first byte only: a store to the last three bytes of
  the reserved word does not disturb the reservation, the store-conditional succeeds and
  overwrites what was stored in between.
\<close>

theorem sc_partial_overlap:
  assumes "mem_ok m" and "in_ram a" and "a AND 3 = 0"
  shows "\<exists>m1 m2 m3 old. mem_request (amo_req 0 a 0) m = Some (old, m1) \<and>
     mem_request (store_req (a + 1) 2 v) m1 = Some (answer 0, m2) \<and>
     mem_request (amo_req 1 a w) m2 = Some (answer 0, m3) \<and> le_word (mem_byte m3) a 4 = w"
proof -
  have "unat a + 4 \<le> 2 ^ 32"
    by (rule and_3_eq_0(3) [OF assms(3)])
  then have b: "in_ram (a + 1)" "unat (a + 1) + unat (2 :: u8) \<le> 2 ^ 32"
    using in_ram_span [OF assms(2), of 4 1] by (simp_all add: unat_word_ariths)
  obtain m1 old where m1: "mem_request (amo_req 0 a 0) m = Some (old, m1)" "mem_ok m1" "mem_resv m1 a"
    using lr_request_ok [OF assms, of 0] by auto
  obtain m2 where m2: "mem_request (store_req (a + 1) 2 v) m1 = Some (answer 0, m2)" "mem_ok m2"
    "mem_resv m2 a"
    using store_request_ok [OF m1(2) b, of v] m1(3) by (auto simp: offset_last)
  then obtain m3 where "mem_request (amo_req 1 a w) m2 = Some (answer 0, m3)" "le_word (mem_byte m3) a 4 = w"
    using sc_request_ok [OF m2(2) assms(2,3), of w] by (auto simp: le_word_stored)
  then show ?thesis
    using m1 m2 by blast
qed

theorem sc_partial_overlap_witness:
  "\<exists>m1 m2 m3 old. mem_request (amo_req 0 0x80000010 0) (Testbench_memory []) = Some (old, m1) \<and>
     mem_request (store_req 0x80000011 2 7) m1 = Some (answer 0, m2) \<and>
     mem_request (amo_req 1 0x80000010 5) m2 = Some (answer 0, m3)"
  using sc_partial_overlap [OF mem_ok_Testbench [of "[]"], where a = "0x80000010" and v = 7 and w = 5]
  by (simp add: in_ram_def) blast

text \<open>
  Instruction fetch is coherent with data stores: after a word store to an aligned address
  in RAM, a fetch of that address returns the word, without a fault.
\<close>

theorem fetch_after_store:
  assumes "mem_ok m" and "in_ram a" and "a AND 3 = 0"
  shows "\<exists>m1 m2. mem_request (store_req a 4 w) m = Some (answer 0, m1) \<and>
     inst_fetch \<lparr>imem_req_ack = True, imem_addr = a\<rparr> m1 = Some (answer w, m2) \<and>
     mem_ok m2 \<and> mem_byte m2 = mem_byte m1"
proof -
  have al: "a AND 1 = 0" "unat a + unat (4 :: u8) \<le> 2 ^ 32"
    using and_3_eq_0 [OF assms(3)] by simp_all
  then obtain m1 where m1: "mem_request (store_req a 4 w) m = Some (answer 0, m1)" "mem_ok m1"
    "le_word (mem_byte m1) a 4 = w"
    using store_request_ok [OF assms(1,2), of 4 w] by (auto simp: le_word_stored)
  have "ram_ok (mem_ram m1)" "4 \<le> ram_SIZE (mem_ram m1)"
    using m1(2) by (simp_all add: mem_ok_def)
  then obtain r where r: "ram_fetch a (mem_ram m1) = Some (w, r)" "ram_ok r" "ram_byte r = mem_byte m1"
    using ram_fetch_ok aligned_fetch_room [OF _ _ assms(3)] m1(3) by metis
  then have "inst_fetch \<lparr>imem_req_ack = True, imem_addr = a\<rparr> m1 = Some (answer w, m1\<lparr>mem_ram := r\<rparr>)"
    using al(1) by (simp add: inst_fetch_def answer_def)
  then show ?thesis
    using m1(1) mem_ok_ram [OF m1(2) r(2) ram_fetch_range [OF r(1)]] r(3)
    by (intro exI [of _ m1] exI [of _ "m1\<lparr>mem_ram := r\<rparr>"]) simp
qed

theorem fetch_after_store_witness:
  "\<exists>m1 m2. mem_request (store_req 0x803ffffc 4 0x13) (Testbench_memory []) = Some (answer 0, m1) \<and>
     inst_fetch \<lparr>imem_req_ack = True, imem_addr = 0x803ffffc\<rparr> m1 = Some (answer 0x13, m2)"
  using fetch_after_store [OF mem_ok_Testbench [of "[]"], where a = "0x803ffffc" and w = "0x13"] by (simp add: in_ram_def) blast

text \<open>
  In the architecture-test bench the RAM covers the whole address space and comes before
  the CLINT in the device list, so a store never reaches the CLINT: its timer compare
  register cannot be written.
\<close>

theorem archtest_store_misses_clint:
  assumes "mem_devices m = [Dev_RVTEST, Dev_RAM, Dev_CLINT]"
    and "ram_ok (mem_ram m)" and "ram_base (mem_ram m) = 0" and "ram_top (mem_ram m) = - 1"
  shows "\<exists>m'. mem_request (store_req a sz w) m = Some (answer 0, m') \<and> mem_clint m' = mem_clint m"
proof -
  define inv where "inv s \<longleftrightarrow> mem_devices s = [Dev_RVTEST, Dev_RAM, Dev_CLINT] \<and>
    ram_ok (mem_ram s) \<and> ram_base (mem_ram s) = 0 \<and> ram_top (mem_ram s) = - 1" for s :: MEMORY
  have step: "\<exists>s'. mem_store_byte b v s = Some s' \<and> inv s' \<and> mem_clint s' = mem_clint s"
    if "inv s" for b v s
    using that ram_write_ok [of "mem_ram s" b v] ram_write_range [of b v "mem_ram s"]
    by (auto simp: inv_def mem_store_byte_def rvtest_write_def ram_range_def)
  have "\<exists>s'. store_bytes mem_store_byte b n v s = Some s' \<and> mem_clint s' = mem_clint s"
    if "inv s" for b n v s
    using that
  proof (induction n arbitrary: b v s)
    case (Suc n)
    obtain s1 where s1: "mem_store_byte b (ucast v) s = Some s1" "inv s1" "mem_clint s1 = mem_clint s"
      using step [OF Suc.prems] by blast
    then show ?case
      using Suc.IH [OF s1(2), of "b + 1" "drop_bit 8 v"] by simp
  qed simp
  moreover have "inv m"
    using assms by (simp add: inv_def)
  ultimately obtain m' where "store_bytes mem_store_byte a (unat sz) w m = Some m'"
    "mem_clint m' = mem_clint m"
    by blast
  then show ?thesis
    by (simp add: mem_request_def mem_access_def update_memory_def req_defs)
qed

theorem archtest_store_misses_clint_witness:
  "\<exists>m'. mem_request (store_req 0x20004000 4 5) (Testbench_RVARCHTEST_memory [] 0x80001000) =
      Some (answer 0, m') \<and> mtimecmp (mem_clint m') = 0"
proof -
  have "ram_ok (RAM_ctor (2 ^ 22))" "ram_base (RAM_ctor (2 ^ 22)) = 0" "ram_top (RAM_ctor (2 ^ 22)) = - 1"
    using ram_ok_ctor [of 22] by (simp_all add: RAM_ctor_def build_seg_def)
  then show ?thesis
    using archtest_store_misses_clint [of "Testbench_RVARCHTEST_memory [] 0x80001000" "0x20004000" 4 5]
    by (auto simp: Testbench_RVARCHTEST_memory_def CLINT_DEV_ctor_def)
qed

end
