(* ===== verification/Fetch.thy ===== *)
theory Fetch
  imports Mem_Types
begin

unbundle bit_operations_syntax

text \<open>
  The program counter register of \<^verbatim>\<open>src/src/prefetch.hpp\<close> and the instruction
  buffer of \<^verbatim>\<open>src/src/fetch.hpp\<close>. The buffer packs up to four halfwords and their
  fault bits into three 64-bit words and is popped by two or four bytes; it is shown to
  implement a queue of halfwords that never overflows, delivers the instruction stream of
  memory in order and agrees with the accept handshake.
\<close>

subsection \<open>PreFetch\<close>

definition next_pc_seq :: "bool \<Rightarrow> bool \<Rightarrow> bool \<Rightarrow> bool \<Rightarrow> u32 \<Rightarrow> u32 \<Rightarrow> u32" where
  "next_pc_seq rst flush branch_taken if_id_accept npc fetch_pc =
     (if branch_taken \<or> flush \<or> rst then npc
      else if if_id_accept then (fetch_pc AND NOT 3) + 4
      else fetch_pc)"

subsection \<open>FetchInstruction\<close>

record FETCH =
  buffer :: u64
  buffer_page_fault :: u64
  buffer_access_fault :: u64
  buffer_idx :: u32
  buffer_addr :: u32
  if_id_inst :: u32
  if_id_pc :: u32
  if_id_fault :: u8
  if_id_flush :: bool
  if_id_tval :: u32

text \<open>The input ports of the module.\<close>

record FETCH_IN =
  fi_rst :: bool
  fi_stall :: bool
  fi_flush :: bool
  fi_immu_flush :: bool
  fi_immu_to_ifetch :: MMU_RSP
  fi_immu_pc :: u32

definition fifo_state_comb :: "FETCH_IN \<Rightarrow> FETCH \<Rightarrow> bool" where
  "fifo_state_comb i s =
     (mmu_rsp_ack (fi_immu_to_ifetch i) \<and>
      (if fi_immu_pc i \<noteq> buffer_addr s + drop_bit 3 (buffer_idx s) then True
       else if \<not> fi_stall i \<and> \<not> if_id_flush s
       then (if buffer s AND 3 = 3 then True else buffer_idx s \<le> 48)
       else buffer_idx s \<le> 32))"

definition fetch_restart :: "u64 \<Rightarrow> u64 \<Rightarrow> u64 \<Rightarrow> u32 \<Rightarrow> FETCH \<Rightarrow> FETCH" where
  "fetch_restart input_inst page_fault access_fault input_addr s =
     (if input_addr AND 3 \<noteq> 0
      then s\<lparr>buffer_addr := input_addr, buffer_idx := 16, buffer := drop_bit 16 input_inst,
             buffer_page_fault := drop_bit 16 page_fault,
             buffer_access_fault := drop_bit 16 access_fault\<rparr>
      else s\<lparr>buffer_addr := input_addr, buffer_idx := 32, buffer := input_inst,
             buffer_page_fault := page_fault, buffer_access_fault := access_fault\<rparr>)"

definition fetch_pop_accept :: "u64 \<Rightarrow> u64 \<Rightarrow> u64 \<Rightarrow> FETCH \<Rightarrow> FETCH" where
  "fetch_pop_accept input_inst page_fault access_fault s =
     (if buffer s AND 3 = 3
      then (let k = unat (buffer_idx s - 32)
            in s\<lparr>buffer_addr := buffer_addr s + 4,
                 buffer := drop_bit 32 (buffer s) OR push_bit k input_inst,
                 buffer_page_fault := drop_bit 32 (buffer_page_fault s) OR push_bit k page_fault,
                 buffer_access_fault := drop_bit 32 (buffer_access_fault s) OR push_bit k access_fault\<rparr>)
      else (let s1 = s\<lparr>buffer_addr := buffer_addr s + 2,
                       buffer := drop_bit 16 (buffer s),
                       buffer_access_fault := drop_bit 16 (buffer_access_fault s),
                       buffer_page_fault := drop_bit 16 (buffer_page_fault s)\<rparr>
            in if buffer_idx s1 \<le> 48
               then (let k = unat (buffer_idx s1 - 16)
                     in s1\<lparr>buffer := buffer s1 OR push_bit k input_inst,
                           buffer_page_fault := buffer_page_fault s1 OR push_bit k page_fault,
                           buffer_access_fault := buffer_access_fault s1 OR push_bit k access_fault,
                           buffer_idx := buffer_idx s1 + 16\<rparr>)
               else s1\<lparr>buffer_idx := buffer_idx s1 - 16\<rparr>))"

definition fetch_accept :: "u64 \<Rightarrow> u64 \<Rightarrow> u64 \<Rightarrow> FETCH \<Rightarrow> FETCH" where
  "fetch_accept input_inst page_fault access_fault s =
     (if buffer_idx s \<le> 32
      then (let k = unat (buffer_idx s)
            in s\<lparr>buffer := buffer s OR push_bit k input_inst,
                 buffer_page_fault := buffer_page_fault s OR push_bit k page_fault,
                 buffer_access_fault := buffer_access_fault s OR push_bit k access_fault,
                 buffer_idx := buffer_idx s + 32\<rparr>)
      else s)"

definition fetch_pop :: "FETCH \<Rightarrow> FETCH" where
  "fetch_pop s =
     (if buffer s AND 3 = 3
      then s\<lparr>buffer_addr := buffer_addr s + 4, buffer := drop_bit 32 (buffer s),
             buffer_page_fault := drop_bit 32 (buffer_page_fault s),
             buffer_access_fault := drop_bit 32 (buffer_access_fault s),
             buffer_idx := buffer_idx s - 32\<rparr>
      else s\<lparr>buffer_addr := buffer_addr s + 2, buffer := drop_bit 16 (buffer s),
             buffer_page_fault := drop_bit 16 (buffer_page_fault s),
             buffer_access_fault := drop_bit 16 (buffer_access_fault s),
             buffer_idx := buffer_idx s - 16\<rparr>)"

text \<open>The first half of \<^verbatim>\<open>get_inst_seq\<close>: the new buffer.\<close>

definition fetch_buffer :: "FETCH_IN \<Rightarrow> FETCH \<Rightarrow> FETCH" where
  "fetch_buffer i s =
     (let input = fi_immu_to_ifetch i
      in if fi_rst i \<or> fi_flush i
         then s\<lparr>buffer_idx := 0, buffer_addr := 0, buffer := 0, buffer_page_fault := 0,
                buffer_access_fault := 0\<rparr>
         else if mmu_rsp_ack input \<and> \<not> fi_immu_flush i
         then (let input_addr = fi_immu_pc i;
                   input_inst = ucast (mmu_rsp_rdata input);
                   page_fault = (if ucast (mmu_rsp_fault input) = INSTR_PAGE_FAULT then 0xffffffff else 0);
                   access_fault = (if ucast (mmu_rsp_fault input) = INSTR_ACCESS_FAULT then 0xffffffff else 0)
               in if input_addr \<noteq> buffer_addr s + drop_bit 3 (buffer_idx s)
                  then fetch_restart input_inst page_fault access_fault input_addr s
                  else if \<not> fi_stall i \<and> \<not> if_id_flush s
                  then fetch_pop_accept input_inst page_fault access_fault s
                  else fetch_accept input_inst page_fault access_fault s)
         else if \<not> fi_stall i \<and> \<not> if_id_flush s then fetch_pop s
         else s)"

text \<open>The second half: the outputs to the decoder.\<close>

definition fetch_fault :: "FETCH \<Rightarrow> u8 \<times> u32" where
  "fetch_fault s =
     (if buffer_access_fault s AND 1 \<noteq> 0 then (ucast INSTR_ACCESS_FAULT, buffer_addr s)
      else if buffer_page_fault s AND 1 \<noteq> 0 then (ucast INSTR_PAGE_FAULT, buffer_addr s)
      else if buffer s AND 3 = 3 \<and> buffer_access_fault s AND push_bit 16 1 \<noteq> 0
      then (ucast INSTR_ACCESS_FAULT, buffer_addr s + 2)
      else if buffer s AND 3 = 3 \<and> buffer_page_fault s AND push_bit 16 1 \<noteq> 0
      then (ucast INSTR_PAGE_FAULT, buffer_addr s + 2)
      else (0, 0))"

definition fetch_output :: "FETCH_IN \<Rightarrow> FETCH \<Rightarrow> FETCH" where
  "fetch_output i s =
     (let s1 = (if fi_rst i \<or> fi_flush i then s\<lparr>if_id_flush := True\<rparr>
                else (let (fault, tval) = fetch_fault s
                      in s\<lparr>if_id_flush := (if buffer s AND 3 = 3 then buffer_idx s < 32 else buffer_idx s < 16),
                           if_id_fault := fault, if_id_tval := tval\<rparr>))
      in s1\<lparr>if_id_inst := ucast (buffer s), if_id_pc := buffer_addr s\<rparr>)"

definition get_inst_seq :: "FETCH_IN \<Rightarrow> FETCH \<Rightarrow> FETCH" where
  "get_inst_seq i s = fetch_output i (fetch_buffer i s)"

subsection \<open>The halfword queue\<close>

type_synonym half = "u16 \<times> bool \<times> bool"

definition lane :: "u64 \<Rightarrow> u64 \<Rightarrow> u64 \<Rightarrow> nat \<Rightarrow> half" where
  "lane b p a k = (ucast (drop_bit (16 * k) b), bit p (16 * k), bit a (16 * k))"

definition lanes :: "u64 \<Rightarrow> u64 \<Rightarrow> u64 \<Rightarrow> nat \<Rightarrow> half list" where
  "lanes b p a n = map (lane b p a) [0..<n]"

definition fetch_queue :: "FETCH \<Rightarrow> half list" where
  "fetch_queue s = lanes (buffer s) (buffer_page_fault s) (buffer_access_fault s) (unat (buffer_idx s) div 16)"

definition need :: "half list \<Rightarrow> nat" where
  "need q = (if q \<noteq> [] \<and> fst (hd q) AND 3 = 3 then 2 else 1)"

definition ready :: "half list \<Rightarrow> bool" where
  "ready q \<longleftrightarrow> need q \<le> length q"

definition halves_of :: "MMU_RSP \<Rightarrow> half list" where
  "halves_of r =
     (let pf = mmu_rsp_fault r = 12; af = mmu_rsp_fault r = 1
      in [(ucast (mmu_rsp_rdata r), pf, af), (ucast (drop_bit 16 (mmu_rsp_rdata r)), pf, af)])"

text \<open>The specification of one clock edge on the address of the first halfword and the queue.\<close>

definition queue_step :: "FETCH_IN \<Rightarrow> u32 \<times> half list \<Rightarrow> u32 \<times> half list" where
  "queue_step i = (\<lambda>(a, q).
     if fi_rst i \<or> fi_flush i then (0, [])
     else
       let n = (if \<not> fi_stall i \<and> ready q then need q else 0);
           new = halves_of (fi_immu_to_ifetch i)
       in if mmu_rsp_ack (fi_immu_to_ifetch i) \<and> \<not> fi_immu_flush i
          then (if fi_immu_pc i \<noteq> a + 2 * of_nat (length q)
                then (fi_immu_pc i, if fi_immu_pc i AND 3 \<noteq> 0 then tl new else new)
                else (a + 2 * of_nat n, if length q - n \<le> 2 then drop n q @ new else drop n q))
          else (a + 2 * of_nat n, drop n q))"

definition holds_halves :: "nat \<Rightarrow> FETCH \<Rightarrow> bool" where
  "holds_halves n s \<longleftrightarrow> n \<le> 4 \<and> buffer_idx s = 16 * of_nat n \<and>
     take_bit (16 * n) (buffer s) = buffer s \<and>
     take_bit (16 * n) (buffer_page_fault s) = buffer_page_fault s \<and>
     take_bit (16 * n) (buffer_access_fault s) = buffer_access_fault s"

definition fetch_ok :: "FETCH \<Rightarrow> bool" where
  "fetch_ok s \<longleftrightarrow>
     (\<exists>n. holds_halves n s) \<and>
     if_id_flush s = (if buffer s AND 3 = 3 then buffer_idx s < 32 else buffer_idx s < 16)"

definition fetch_abs :: "FETCH \<Rightarrow> u32 \<times> half list" where
  "fetch_abs s = (buffer_addr s, fetch_queue s)"

lemma bit_fault_word: "bit (if c then 0xffffffff else 0 :: u64) j \<longleftrightarrow> c \<and> j < 32"
proof -
  have "(0xffffffff :: u64) = mask 32"
    by (simp add: mask_eq_exp_minus_1)
  then have "bit (0xffffffff :: u64) j \<longleftrightarrow> j < 32"
    by (simp only: bit_mask_iff) auto
  then show ?thesis
    by simp
qed

lemma bit_above:
  fixes b :: u64
  assumes "take_bit n b = b" and "n \<le> j"
  shows "\<not> bit b j"
  using assms by (metis bit_take_bit_iff not_le)

lemma length_lanes [simp]: "length (lanes b p a n) = n"
  by (simp add: lanes_def)

lemma lanes_drop:
  "lanes (drop_bit (16 * m) b) (drop_bit (16 * m) p) (drop_bit (16 * m) a) (n - m) = drop m (lanes b p a n)"
  by (intro nth_equalityI) (auto simp: lanes_def lane_def bit_simps algebra_simps)

lemma lanes_append:
  assumes b: "take_bit (16 * n) b = b" and p: "take_bit (16 * n) p = p" and a: "take_bit (16 * n) a = a"
    and n: "n \<le> 2"
  shows "lanes (b OR push_bit (16 * n) (ucast (w :: u32))) (p OR push_bit (16 * n) (if pf then 0xffffffff else 0))
      (a OR push_bit (16 * n) (if af then 0xffffffff else 0)) (n + 2) =
    lanes b p a n @ [(ucast w, pf, af), (ucast (drop_bit 16 w), pf, af)]"
proof (intro nth_equalityI)
  fix k
  assume "k < length (lanes (b OR push_bit (16 * n) (ucast w))
      (p OR push_bit (16 * n) (if pf then 0xffffffff else 0))
      (a OR push_bit (16 * n) (if af then 0xffffffff else 0)) (n + 2))"
  then consider "k < n" | "k = n" | "k = Suc n"
    by fastforce
  then show "lanes (b OR push_bit (16 * n) (ucast w)) (p OR push_bit (16 * n) (if pf then 0xffffffff else 0))
      (a OR push_bit (16 * n) (if af then 0xffffffff else 0)) (n + 2) ! k =
    (lanes b p a n @ [(ucast w, pf, af), (ucast (drop_bit 16 w), pf, af)]) ! k"
  proof cases
    case 1
    then show ?thesis
      by (simp add: lanes_def lane_def nth_append)
        (auto intro!: bit_word_eqI simp: bit_simps)
  next
    case 2
    have "ucast (drop_bit (16 * n) (b OR push_bit (16 * n) (ucast w))) = (ucast w :: u16)"
      using n bit_above [OF b] by (intro bit_word_eqI) (auto simp: bit_simps)
    then show ?thesis
      using 2 n bit_above [OF p] bit_above [OF a]
      by (simp add: lanes_def lane_def nth_append bit_simps bit_fault_word)
  next
    case 3
    have "ucast (drop_bit (16 * k) (b OR push_bit (16 * n) (ucast w))) = (ucast (drop_bit 16 w) :: u16)"
      using 3 n bit_above [OF b] by (intro bit_word_eqI) (auto simp: bit_simps)
    then show ?thesis
      using 3 n bit_above [OF p] bit_above [OF a]
      by (simp add: lanes_def lane_def nth_append bit_simps bit_fault_word)
  qed
qed simp

lemma le_4_cases: "n \<le> 4 \<Longrightarrow> n = 0 \<or> n = 1 \<or> n = 2 \<or> n = 3 \<or> n = (4 :: nat)"
  by linarith

lemma holds_halves_idx:
  assumes "holds_halves n s"
  shows "unat (buffer_idx s) = 16 * n" and "drop_bit 3 (buffer_idx s) = 2 * of_nat n"
    and "buffer_idx s \<le> 32 \<longleftrightarrow> n \<le> 2" and "buffer_idx s \<le> 48 \<longleftrightarrow> n \<le> 3"
    and "buffer_idx s < 32 \<longleftrightarrow> n < 2" and "buffer_idx s < 16 \<longleftrightarrow> n < 1"
    and "fetch_queue s = lanes (buffer s) (buffer_page_fault s) (buffer_access_fault s) n"
  using assms le_4_cases [of n] unfolding holds_halves_def fetch_queue_def by auto

lemma need_buffer:
  assumes "holds_halves n s"
  shows "need (fetch_queue s) = (if buffer s AND 3 = 3 then 2 else 1)"
proof (cases n)
  case 0
  then show ?thesis
    using assms holds_halves_idx(7) [OF assms] by (auto simp: need_def lanes_def holds_halves_def)
next
  case (Suc m)
  have "fst (hd (fetch_queue s)) = ucast (buffer s)"
    unfolding holds_halves_idx(7) [OF assms] Suc by (simp add: lanes_def lane_def hd_map del: upt_Suc)
  moreover have "fetch_queue s \<noteq> []"
    unfolding holds_halves_idx(7) [OF assms] Suc by (simp add: lanes_def)
  moreover have "ucast (buffer s) AND (3 :: u16) = 3 \<longleftrightarrow> buffer s AND 3 = 3"
    by (simp add: low_two_bits bit_simps)
  ultimately show ?thesis
    by (simp add: need_def)
qed

lemma ready_buffer:
  assumes "fetch_ok s"
  shows "ready (fetch_queue s) \<longleftrightarrow> \<not> if_id_flush s"
proof -
  obtain n where n: "holds_halves n s"
    using assms by (auto simp: fetch_ok_def)
  have "length (fetch_queue s) = n"
    by (simp add: holds_halves_idx(7) [OF n])
  then show ?thesis
    using assms holds_halves_idx(5,6) [OF n] by (auto simp: ready_def need_buffer [OF n] fetch_ok_def not_less Suc_le_eq)
qed

text \<open>Popping \<open>m\<close> halfwords and appending a word, on the three buffer words.\<close>

lemma take_bit_drop_bit_self:
  fixes b :: u64
  assumes "take_bit (16 * n) b = b" and "m \<le> n"
  shows "take_bit (16 * (n - m)) (drop_bit (16 * m) b) = drop_bit (16 * m) b"
proof (rule bit_word_eqI)
  fix j
  show "bit (take_bit (16 * (n - m)) (drop_bit (16 * m) b)) j \<longleftrightarrow> bit (drop_bit (16 * m) b) j"
    using bit_above [OF assms(1), of "16 * m + j"] assms(2)
    by (cases "j < 16 * (n - m)") (auto simp: bit_simps)
qed

lemma take_bit_or_push_bit_self:
  fixes b c :: u64
  assumes "take_bit (16 * n) b = b" and "take_bit 32 c = c"
  shows "take_bit (16 * (n + 2)) (b OR push_bit (16 * n) c) = b OR push_bit (16 * n) c"
  by (rule bit_word_eqI)
    (use bit_above [OF assms(1)] bit_above [OF assms(2)] in \<open>auto simp: bit_simps\<close>)

lemma fetch_pop_lanes:
  assumes n: "holds_halves n s" and "\<not> if_id_flush s" and ok: "fetch_ok s"
  defines "m \<equiv> need (fetch_queue s)"
  shows "holds_halves (n - m) (fetch_pop s)"
    and "fetch_queue (fetch_pop s) = drop m (fetch_queue s)"
    and "buffer_addr (fetch_pop s) = buffer_addr s + 2 * of_nat m"
proof -
  have le: "m \<le> n"
    using ready_buffer [OF ok] assms(2) holds_halves_idx(7) [OF n] by (simp add: ready_def m_def)
  have m: "m = (if buffer s AND 3 = 3 then 2 else 1)"
    unfolding m_def by (rule need_buffer [OF n])
  have "buffer_idx s - 16 * of_nat m = 16 * of_nat (n - m)"
    using n le by (simp add: holds_halves_def of_nat_diff right_diff_distrib)
  then have pop: "fetch_pop s = s\<lparr>buffer_addr := buffer_addr s + 2 * of_nat m,
      buffer := drop_bit (16 * m) (buffer s),
      buffer_page_fault := drop_bit (16 * m) (buffer_page_fault s),
      buffer_access_fault := drop_bit (16 * m) (buffer_access_fault s),
      buffer_idx := 16 * of_nat (n - m)\<rparr>"
    by (cases "buffer s AND 3 = 3") (simp_all add: m fetch_pop_def)
  show hold: "holds_halves (n - m) (fetch_pop s)"
    using n le by (auto simp: pop holds_halves_def take_bit_drop_bit_self)
  show "fetch_queue (fetch_pop s) = drop m (fetch_queue s)"
    unfolding holds_halves_idx(7) [OF hold] holds_halves_idx(7) [OF n]
    by (simp add: pop lanes_drop)
  show "buffer_addr (fetch_pop s) = buffer_addr s + 2 * of_nat m"
    by (simp add: pop)
qed

definition fault_word :: "bool \<Rightarrow> u64" where
  "fault_word c = (if c then 0xffffffff else 0)"

lemma take_bit_fault_word: "take_bit 32 (fault_word c) = fault_word c"
  by (intro bit_word_eqI) (auto simp: fault_word_def bit_fault_word bit_simps simp del: take_bit_of_0)

lemma fetch_accept_lanes:
  assumes n: "holds_halves n s"
  shows "holds_halves (if n \<le> 2 then n + 2 else n) (fetch_accept (ucast (w :: u32)) (fault_word pf) (fault_word af) s)"
    and "fetch_queue (fetch_accept (ucast w) (fault_word pf) (fault_word af) s) =
      (if n \<le> 2 then fetch_queue s @ [(ucast w, pf, af), (ucast (drop_bit 16 w), pf, af)]
       else fetch_queue s)"
    and "buffer_addr (fetch_accept (ucast w) (fault_word pf) (fault_word af) s) = buffer_addr s"
proof -
  let ?s = "fetch_accept (ucast w) (fault_word pf) (fault_word af) s"
  have w: "take_bit 32 (ucast w :: u64) = ucast w"
    by (intro bit_word_eqI) (auto simp: bit_simps dest: bit_imp_le_length)
  show hold: "holds_halves (if n \<le> 2 then n + 2 else n) ?s"
    using n holds_halves_idx(1,3) [OF n] take_bit_or_push_bit_self [OF _ w, of n "buffer s"]
      take_bit_or_push_bit_self [OF _ take_bit_fault_word, of n "buffer_page_fault s" pf]
      take_bit_or_push_bit_self [OF _ take_bit_fault_word, of n "buffer_access_fault s" af]
    by (auto simp: fetch_accept_def holds_halves_def Let_def)
  show "fetch_queue ?s = (if n \<le> 2 then fetch_queue s @ [(ucast w, pf, af), (ucast (drop_bit 16 w), pf, af)]
       else fetch_queue s)"
    unfolding holds_halves_idx(7) [OF hold] holds_halves_idx(7) [OF n]
    using n holds_halves_idx(1,3) [OF n] lanes_append [of n "buffer s" "buffer_page_fault s" "buffer_access_fault s" w pf af]
    by (auto simp: fetch_accept_def fault_word_def Let_def holds_halves_def)
  show "buffer_addr ?s = buffer_addr s"
    by (simp add: fetch_accept_def Let_def)
qed

text \<open>The fused branch is a pop followed by an accept.\<close>

lemma fetch_pop_accept_eq:
  assumes n: "holds_halves n s" and "\<not> if_id_flush s" and ok: "fetch_ok s"
  shows "fetch_pop_accept w p a s = fetch_accept w p a (fetch_pop s)"
proof -
  have "buffer_idx (fetch_pop s) \<le> 32 \<longleftrightarrow> (if buffer s AND 3 = 3 then True else buffer_idx s \<le> 48)"
    using holds_halves_idx(3) [OF fetch_pop_lanes(1) [OF assms]] holds_halves_idx(4) [OF n]
      need_buffer [OF n] n by (auto simp: holds_halves_def)
  then show ?thesis
    by (cases "buffer s AND 3 = 3")
      (auto simp: fetch_pop_accept_def fetch_accept_def fetch_pop_def Let_def)
qed

lemma fetch_restart_lanes:
  fixes w pc :: u32 and s :: FETCH and pf af :: bool
  defines "s' \<equiv> fetch_restart (ucast w) (fault_word pf) (fault_word af) pc s"
  shows "\<exists>n. holds_halves n s'" and "buffer_addr s' = pc"
    and "fetch_queue s' = (if pc AND 3 \<noteq> 0 then [(ucast (drop_bit 16 w), pf, af)]
      else [(ucast w, pf, af), (ucast (drop_bit 16 w), pf, af)])"
proof -
  define z where "z = s\<lparr>buffer_addr := pc, buffer_idx := 0, buffer := 0, buffer_page_fault := 0,
    buffer_access_fault := 0\<rparr>"
  have z: "holds_halves 0 z" "fetch_queue z = []"
    by (simp_all add: z_def holds_halves_def fetch_queue_def lanes_def)
  define t where "t = fetch_accept (ucast w) (fault_word pf) (fault_word af) z"
  have t: "holds_halves 2 t"
    "fetch_queue t = [(ucast w, pf, af), (ucast (drop_bit 16 w), pf, af)]"
    using fetch_accept_lanes [OF z(1), of w pf af] z(2) by (simp_all add: t_def numeral_2_eq_2)
  have tf: "t = s\<lparr>buffer_addr := pc, buffer_idx := 32, buffer := ucast w,
      buffer_page_fault := fault_word pf, buffer_access_fault := fault_word af\<rparr>"
    by (simp add: t_def z_def fetch_accept_def Let_def)
  show "buffer_addr s' = pc"
    by (simp add: s'_def fetch_restart_def)
  show "\<exists>n. holds_halves n s'" and "fetch_queue s' = (if pc AND 3 \<noteq> 0 then [(ucast (drop_bit 16 w), pf, af)]
      else [(ucast w, pf, af), (ucast (drop_bit 16 w), pf, af)])"
  proof (atomize(full), cases "pc AND 3 = 0")
    case True
    then have "s' = t"
      by (simp add: s'_def tf fetch_restart_def)
    then show "(\<exists>n. holds_halves n s') \<and> fetch_queue s' = (if pc AND 3 \<noteq> 0 then [(ucast (drop_bit 16 w), pf, af)]
      else [(ucast w, pf, af), (ucast (drop_bit 16 w), pf, af)])"
      using t True by auto
  next
    case False
    then have f: "buffer s' = drop_bit (16 * 1) (buffer t)"
      "buffer_page_fault s' = drop_bit (16 * 1) (buffer_page_fault t)"
      "buffer_access_fault s' = drop_bit (16 * 1) (buffer_access_fault t)" "buffer_idx s' = 16"
      by (simp_all add: s'_def tf fetch_restart_def)
    have hold: "holds_halves (2 - 1) s'"
      unfolding holds_halves_def f using t(1) take_bit_drop_bit_self [of 2 _ 1] by (simp add: holds_halves_def)
    have "fetch_queue s' = drop 1 (fetch_queue t)"
      unfolding holds_halves_idx(7) [OF hold] holds_halves_idx(7) [OF t(1)] f by (rule lanes_drop)
    then show "(\<exists>n. holds_halves n s') \<and> fetch_queue s' = (if pc AND 3 \<noteq> 0 then [(ucast (drop_bit 16 w), pf, af)]
      else [(ucast w, pf, af), (ucast (drop_bit 16 w), pf, af)])"
      using hold t(2) False by auto
  qed
qed

lemma fetch_buffer_lanes:
  assumes ok: "fetch_ok s"
  shows "(\<exists>n. holds_halves n (fetch_buffer i s)) \<and>
    fetch_abs (fetch_buffer i s) = queue_step i (fetch_abs s)"
proof -
  obtain n where n: "holds_halves n s"
    using ok by (auto simp: fetch_ok_def)
  have len: "length (fetch_queue s) = n"
    by (simp add: holds_halves_idx(7) [OF n])
  let ?in = "fi_immu_to_ifetch i"
  define w pf af where "w = mmu_rsp_rdata ?in" and "pf = (mmu_rsp_fault ?in = 12)"
    and "af = (mmu_rsp_fault ?in = 1)"
  have new: "halves_of ?in = [(ucast w, pf, af), (ucast (drop_bit 16 w), pf, af)]"
    by (simp add: halves_of_def Let_def w_def pf_def af_def)
  have pff: "(if ucast (mmu_rsp_fault ?in) = (12 :: u32) then 0xffffffff else 0) = fault_word pf"
    and aff: "(if ucast (mmu_rsp_fault ?in) = (1 :: u32) then 0xffffffff else 0) = fault_word af"
    using ucast_u8_eq_iff [of "mmu_rsp_fault ?in" 12] ucast_u8_eq_iff [of "mmu_rsp_fault ?in" 1]
    by (simp_all add: fault_word_def pf_def af_def)
  note frame = fetch_buffer_def fetch_abs_def queue_step_def Let_def new pff aff w_def [symmetric]
    len ready_buffer [OF ok] holds_halves_idx(2) [OF n]
  consider (reset) "fi_rst i \<or> fi_flush i"
    | (restart) "\<not> (fi_rst i \<or> fi_flush i)" "mmu_rsp_ack ?in \<and> \<not> fi_immu_flush i"
        "fi_immu_pc i \<noteq> buffer_addr s + 2 * of_nat n"
    | (fused) "\<not> (fi_rst i \<or> fi_flush i)" "mmu_rsp_ack ?in \<and> \<not> fi_immu_flush i"
        "fi_immu_pc i = buffer_addr s + 2 * of_nat n" "\<not> fi_stall i \<and> \<not> if_id_flush s"
    | (accept) "\<not> (fi_rst i \<or> fi_flush i)" "mmu_rsp_ack ?in \<and> \<not> fi_immu_flush i"
        "fi_immu_pc i = buffer_addr s + 2 * of_nat n" "\<not> (\<not> fi_stall i \<and> \<not> if_id_flush s)"
    | (pop) "\<not> (fi_rst i \<or> fi_flush i)" "\<not> (mmu_rsp_ack ?in \<and> \<not> fi_immu_flush i)"
        "\<not> fi_stall i \<and> \<not> if_id_flush s"
    | (idle) "\<not> (fi_rst i \<or> fi_flush i)" "\<not> (mmu_rsp_ack ?in \<and> \<not> fi_immu_flush i)"
        "\<not> (\<not> fi_stall i \<and> \<not> if_id_flush s)"
    by blast
  then show ?thesis
  proof cases
    case reset
    then show ?thesis
      by (auto simp: frame holds_halves_def fetch_queue_def lanes_def intro!: exI [of _ 0])
  next
    case restart
    then show ?thesis
      using fetch_restart_lanes [of w pf af "fi_immu_pc i" s] by (auto simp: frame)
  next
    case fused
    then have nf: "\<not> if_id_flush s"
      by simp
    note pop = fetch_pop_lanes [OF n nf ok]
    show ?thesis
      using fused pop fetch_accept_lanes [OF pop(1), of w pf af]
      by (auto simp: frame fetch_pop_accept_eq [OF n nf ok])
  next
    case accept
    then show ?thesis
      using fetch_accept_lanes [OF n, of w pf af] by (auto simp: frame)
  next
    case pop
    then have nf: "\<not> if_id_flush s"
      by simp
    show ?thesis
      using pop fetch_pop_lanes [OF n nf ok] by (auto simp: frame)
  next
    case idle
    then show ?thesis
      using n by (auto simp: frame)
  qed
qed

lemma fetch_output_abs [simp]:
  "fetch_abs (fetch_output i s) = fetch_abs s" "holds_halves n (fetch_output i s) = holds_halves n s"
  "buffer (fetch_output i s) = buffer s" "buffer_idx (fetch_output i s) = buffer_idx s"
  by (simp_all add: fetch_abs_def fetch_queue_def fetch_output_def holds_halves_def Let_def
      split: prod.split)

lemma fetch_step_ok:
  assumes "fetch_ok s"
  shows "fetch_ok (get_inst_seq i s)"
proof -
  obtain n where n: "holds_halves n (fetch_buffer i s)"
    using fetch_buffer_lanes [OF assms] by blast
  have "if_id_flush (get_inst_seq i s) =
      (let t = fetch_buffer i s in if buffer t AND 3 = 3 then buffer_idx t < 32 else buffer_idx t < 16)"
    by (simp add: get_inst_seq_def fetch_output_def fetch_buffer_def Let_def split: prod.split)
  then show ?thesis
    using n by (auto simp: fetch_ok_def get_inst_seq_def Let_def)
qed

lemma fetch_step_abs: "fetch_ok s \<Longrightarrow> fetch_abs (get_inst_seq i s) = queue_step i (fetch_abs s)"
  by (simp add: get_inst_seq_def fetch_buffer_lanes)

definition FETCH_reset :: "FETCH \<Rightarrow> FETCH" where
  "FETCH_reset junk = get_inst_seq \<lparr>fi_rst = True, fi_stall = False, fi_flush = False,
     fi_immu_flush = False, fi_immu_to_ifetch = MMU_RSP_ctor, fi_immu_pc = 0\<rparr> junk"

lemma FETCH_reset_ok: "fetch_ok (FETCH_reset junk)" "fetch_abs (FETCH_reset junk) = (0, [])"
  by (auto simp: FETCH_reset_def get_inst_seq_def fetch_output_def fetch_buffer_def fetch_ok_def
      holds_halves_def fetch_abs_def fetch_queue_def lanes_def intro!: exI [of _ 0])

interpretation fetch_sim: simulation fetch_ok fetch_abs get_inst_seq queue_step
  by unfold_locales (simp_all add: fetch_step_ok fetch_step_abs)

text \<open>
  C26. After reset, for every sequence of inputs, the instruction buffer (its shifts and masks
  on three 64-bit words and a bit index) implements the bounded queue of tagged halfwords:
  pop the first instruction when the pipeline takes it, restart on a jump, append an arrived
  word when there is room. In particular the shift counts never leave the word.
\<close>

theorem fetch_refines_queue:
  "fetch_abs (fold get_inst_seq is (FETCH_reset junk)) = fold queue_step is (0, []) \<and>
   (let s = fold get_inst_seq is (FETCH_reset junk)
    in buffer_idx s \<le> 64 \<and> if_id_flush s = (\<not> ready (fetch_queue s)))"
proof -
  let ?s = "fold get_inst_seq is (FETCH_reset junk)"
  have run: "fetch_ok ?s" "fetch_abs ?s = fold queue_step is (0, [])"
    using fetch_sim.run [OF FETCH_reset_ok(1)] FETCH_reset_ok(2) by simp_all
  obtain n where n: "holds_halves n ?s"
    using run(1) by (auto simp: fetch_ok_def)
  have "unat (buffer_idx ?s) \<le> 64"
    using holds_halves_idx(1) [OF n] n by (simp add: holds_halves_def)
  then have "buffer_idx ?s \<le> 64"
    by (simp add: word_le_nat_alt)
  then show ?thesis
    using run ready_buffer [OF run(1)] by (simp add: Let_def)
qed

text \<open>
  The accept handshake agrees with the buffer: when the accept line is raised the word
  offered by the MMU is in the queue after the clock edge (its upper half alone after a
  jump to a halfword address), and when it is low the edge only pops.
\<close>

theorem fetch_accept_handshake:
  assumes "fetch_ok s" and "\<not> fi_rst i" and "\<not> fi_flush i" and "\<not> fi_immu_flush i"
  shows "fetch_abs (get_inst_seq i s) =
    (let q = fetch_queue s; n = (if \<not> fi_stall i \<and> ready q then need q else 0);
         new = halves_of (fi_immu_to_ifetch i)
     in if \<not> fifo_state_comb i s then (buffer_addr s + 2 * of_nat n, drop n q)
        else if fi_immu_pc i \<noteq> buffer_addr s + 2 * of_nat (length q)
        then (fi_immu_pc i, if fi_immu_pc i AND 3 \<noteq> 0 then tl new else new)
        else (buffer_addr s + 2 * of_nat n, drop n q @ new))"
proof -
  obtain n where n: "holds_halves n s"
    using assms(1) by (auto simp: fetch_ok_def)
  have len: "length (fetch_queue s) = n" "n \<le> 4"
    using n by (simp_all add: holds_halves_idx(7) [OF n] holds_halves_def)
  have "fifo_state_comb i s \<longleftrightarrow> mmu_rsp_ack (fi_immu_to_ifetch i) \<and>
    (fi_immu_pc i \<noteq> buffer_addr s + 2 * of_nat n \<or>
     n - (if \<not> fi_stall i \<and> ready (fetch_queue s) then need (fetch_queue s) else 0) \<le> 2)"
    using len(2) holds_halves_idx(2-4) [OF n]
    by (auto simp: fifo_state_comb_def ready_buffer [OF assms(1)] need_buffer [OF n])
  then show ?thesis
    unfolding fetch_step_abs [OF assms(1)]
    using assms(2-4) len by (auto simp: queue_step_def fetch_abs_def Let_def)
qed

theorem fetch_accept_handshake_witness:
  "fetch_abs (get_inst_seq \<lparr>fi_rst = False, fi_stall = False, fi_flush = False, fi_immu_flush = False,
       fi_immu_to_ifetch = \<lparr>mmu_rsp_ack = True, mmu_rsp_rdata = 0x00014501, mmu_rsp_tval = 0,
         mmu_rsp_fault = 0\<rparr>, fi_immu_pc = 0x80000002\<rparr>
     (FETCH_reset \<lparr>buffer = 0, buffer_page_fault = 0, buffer_access_fault = 0, buffer_idx = 0,
        buffer_addr = 0, if_id_inst = 0, if_id_pc = 0, if_id_fault = 0, if_id_flush = False, if_id_tval = 0\<rparr>)) =
   (0x80000002, [(1, False, False)])"
  by (subst fetch_accept_handshake [OF FETCH_reset_ok(1)])
    (simp_all add: FETCH_reset_def get_inst_seq_def fetch_output_def fetch_buffer_def fifo_state_comb_def
      fetch_queue_def lanes_def halves_of_def Let_def)

subsection \<open>The instruction stream\<close>

text \<open>
  The MMU fetches the aligned word that holds the program counter. Against a fixed code
  memory, the halfword at an even address is the low or the high half of its word.
\<close>

definition half_at :: "(u32 \<Rightarrow> u32) \<Rightarrow> u32 \<Rightarrow> u16" where
  "half_at code x = (let w = code (x AND NOT 3) in if x AND 3 = 0 then ucast w else ucast (drop_bit 16 w))"

definition fetch_from :: "(u32 \<Rightarrow> u32) \<Rightarrow> FETCH_IN \<Rightarrow> bool" where
  "fetch_from code i \<longleftrightarrow> fi_immu_pc i AND 1 = 0 \<and>
     mmu_rsp_rdata (fi_immu_to_ifetch i) = code (fi_immu_pc i AND NOT 3)"

text \<open>A relation \<open>R\<close> between addresses and halfwords holds along the queue, which ends at a word
  boundary, and holds of the halfwords that arrive. The two predicates above are the case of
  halfwords equal to those of \<open>code\<close>.\<close>

definition stream_rel :: "(u32 \<Rightarrow> half \<Rightarrow> bool) \<Rightarrow> u32 \<times> half list \<Rightarrow> bool" where
  "stream_rel R = (\<lambda>(a, q). (a + 2 * of_nat (length q)) AND 3 = 0 \<and> (\<forall>k < length q. R (a + 2 * of_nat k) (q ! k)))"

definition fetch_rel :: "(u32 \<Rightarrow> half \<Rightarrow> bool) \<Rightarrow> FETCH_IN \<Rightarrow> bool" where
  "fetch_rel R i \<longleftrightarrow> fi_immu_pc i AND 1 = 0 \<and>
     (mmu_rsp_ack (fi_immu_to_ifetch i) \<and> \<not> fi_immu_flush i \<longrightarrow>
        R (fi_immu_pc i AND NOT 3) (halves_of (fi_immu_to_ifetch i) ! 0) \<and>
        R ((fi_immu_pc i AND NOT 3) + 2) (halves_of (fi_immu_to_ifetch i) ! 1))"

lemma and_3_iff: "x AND 3 = 0 \<longleftrightarrow> unat x mod 4 = 0" and and_1_iff: "x AND 1 = 0 \<longleftrightarrow> unat x mod 2 = 0"
  for x :: u32
proof -
  have "x AND 3 = take_bit 2 x" "x AND 1 = take_bit 1 x"
    by (simp_all add: take_bit_eq_mask mask_eq_exp_minus_1)
  moreover have "unat (take_bit k x) = unat x mod 2 ^ k" for k
    by (rule trans [OF unsigned_take_bit_eq take_bit_eq_mod])
  from this [of 2] this [of 1] have "take_bit 2 x = 0 \<longleftrightarrow> unat x mod 4 = 0" "take_bit 1 x = 0 \<longleftrightarrow> unat x mod 2 = 0"
    unfolding unat_eq_zero [symmetric] by simp_all
  ultimately show "x AND 3 = 0 \<longleftrightarrow> unat x mod 4 = 0" "x AND 1 = 0 \<longleftrightarrow> unat x mod 2 = 0"
    by simp_all
qed

lemma unat_add_mod_4: "unat (x + y) mod 4 = (unat x + unat y) mod 4" for x y :: u32
  by (simp add: unat_word_ariths mod_mod_cancel)

lemma aligned_next_half:
  fixes x :: u32
  assumes "x AND 3 = 0"
  shows "(x + 2) AND NOT 3 = x AND NOT 3" and "(x + 2) AND 3 \<noteq> 0" and "(x + 4) AND 3 = 0"
proof -
  have "x AND 2 = (x AND 3) AND 2"
    by (simp add: and.assoc)
  then have "x + 2 = x OR 2"
    using assms by (intro disjunctive_add_eq_or) simp
  moreover have "(x OR 2) AND NOT 3 = x AND NOT 3"
    by (simp add: bit.conj_disj_distrib2)
  ultimately show "(x + 2) AND NOT 3 = x AND NOT 3"
    by simp
  have m: "unat x mod 4 = 0"
    using assms by (simp add: and_3_iff)
  have "unat (x + 2) mod 4 = 2" "unat (x + 4) mod 4 = 0"
    unfolding unat_add_mod_4 using m by simp_all presburger
  then show "(x + 2) AND 3 \<noteq> 0" "(x + 4) AND 3 = 0"
    by (simp_all add: and_3_iff)
qed

lemma halfword_next:
  fixes x :: u32
  assumes "x AND 1 = 0" and "x AND 3 \<noteq> 0"
  shows "(x + 2) AND 3 = 0"
proof -
  have "(unat x + 2) mod 4 = 0"
    using assms by (simp add: and_1_iff and_3_iff) presburger
  then show ?thesis
    using unat_add_mod_4 [of x 2] by (simp add: and_3_iff)
qed

lemma word_boundary: "(x AND NOT 3) + (x AND 3) = x" for x :: u32
proof -
  have "(x AND NOT 3) + (x AND 3) = (x AND NOT 3) OR (x AND 3)"
    by (intro disjunctive_add_eq_or) (simp add: and.assoc and.left_commute)
  also have "\<dots> = x AND (NOT 3 OR 3)"
    by (simp only: bit.conj_disj_distrib)
  finally show ?thesis
    by simp
qed

lemma odd_half:
  fixes x :: u32
  assumes "x AND 1 = 0" and "x AND 3 \<noteq> 0"
  shows "(x AND NOT 3) + 2 = x"
proof -
  have "unat x mod 4 = 2"
    using assms by (simp add: and_1_iff and_3_iff) presburger
  then have "take_bit 2 (unat x) = 2"
    by (simp add: take_bit_eq_mod)
  then have "unat (take_bit 2 x) = 2"
    by (simp only: unsigned_take_bit_eq)
  then have "take_bit 2 x = 2"
    unfolding word_unat_eq_iff by simp
  then have "x AND 3 = 2"
    by (simp add: take_bit_eq_mask mask_eq_exp_minus_1)
  then show ?thesis
    using word_boundary [of x] by simp
qed

lemma stream_append:
  assumes "stream_rel R (a, q)"
    and "R (a + 2 * of_nat (length q)) h0" and "R (a + 2 * of_nat (length q) + 2) h1"
  shows "stream_rel R (a, q @ [h0, h1])"
proof -
  have "R (a + 2 * of_nat k) ((q @ [h0, h1]) ! k)" if k: "k < length q + 2" for k
  proof -
    consider "k < length q" | "k = length q" | "k = length q + 1"
      using k by linarith
    then show ?thesis
      using assms by cases (auto simp: stream_rel_def nth_append algebra_simps)
  qed
  then show ?thesis
    using assms(1) aligned_next_half(3) [of "a + 2 * of_nat (length q)"]
    by (simp add: stream_rel_def algebra_simps)
qed

lemma stream_drop:
  assumes "stream_rel R (a, q)" and "n \<le> length q"
  shows "stream_rel R (a + 2 * of_nat n, drop n q)"
proof -
  have "R (a + 2 * of_nat n + 2 * of_nat k) (drop n q ! k)" if "k < length q - n" for k
  proof -
    have "n + k < length q"
      using that by simp
    then have "R (a + 2 * of_nat (n + k)) (q ! (n + k))"
      using assms(1) unfolding stream_rel_def by blast
    then show ?thesis
      using assms(2) by (simp add: algebra_simps)
  qed
  then show ?thesis
    using assms by (simp add: stream_rel_def of_nat_diff algebra_simps)
qed

lemma stream_step:
  assumes ok: "stream_rel R aq" and i: "fetch_rel R i"
  shows "stream_rel R (queue_step i aq)"
proof -
  obtain a q where aq: "aq = (a, q)"
    by force
  let ?pc = "fi_immu_pc i" and ?in = "mmu_rsp_ack (fi_immu_to_ifetch i) \<and> \<not> fi_immu_flush i"
  define n where "n = (if \<not> fi_stall i \<and> ready q then need q else 0)"
  have n: "n \<le> length q"
    by (auto simp: n_def ready_def)
  obtain h0 h1 where new: "halves_of (fi_immu_to_ifetch i) = [h0, h1]"
    by (simp add: halves_of_def Let_def)
  then have h: "?in \<Longrightarrow> R (?pc AND NOT 3) h0" "?in \<Longrightarrow> R ((?pc AND NOT 3) + 2) h1" and even: "?pc AND 1 = 0"
    using i by (simp_all add: fetch_rel_def)
  have self: "?pc AND NOT 3 = ?pc" if "?pc AND 3 = 0"
    using that word_boundary [of ?pc] by simp
  have end0: "(a + 2 * of_nat (length q)) AND 3 = 0"
    using ok by (simp add: aq stream_rel_def)
  have dropped: "stream_rel R (a + 2 * of_nat n, drop n q)"
    using stream_drop ok n by (simp add: aq)
  have appended: "stream_rel R (a + 2 * of_nat n, drop n q @ [h0, h1])"
    if "?in" "?pc = a + 2 * of_nat (length q)"
  proof (rule stream_append [OF dropped])
    have e: "a + 2 * of_nat n + 2 * of_nat (length (drop n q)) = ?pc"
      using n that by (simp add: of_nat_diff algebra_simps)
    show "R (a + 2 * of_nat n + 2 * of_nat (length (drop n q))) h0"
      "R (a + 2 * of_nat n + 2 * of_nat (length (drop n q)) + 2) h1"
      unfolding e using h [OF that(1)] end0 that(2) self by simp_all
  qed
  have restart: "stream_rel R (?pc, if ?pc AND 3 \<noteq> 0 then [h1] else [h0, h1])" if "?in"
  proof (cases "?pc AND 3 = 0")
    case True
    then show ?thesis
      using stream_append [of R ?pc "[]" h0 h1] h [OF that] self by (simp add: stream_rel_def)
  next
    case False
    then show ?thesis
      using halfword_next [OF even False] odd_half [OF even False] h(2) [OF that] by (simp add: stream_rel_def)
  qed
  have "stream_rel R (0, [])"
    by (simp add: stream_rel_def)
  then show ?thesis
    using dropped appended restart
    by (auto simp: aq queue_step_def new n_def [symmetric] Let_def split: if_splits)
qed

lemma stream_run:
  "list_all (fetch_rel R) is \<Longrightarrow> stream_rel R aq \<Longrightarrow> stream_rel R (fold queue_step is aq)"
  by (induction "is" arbitrary: aq) (simp_all add: stream_step)

lemma fetch_from_rel: "fetch_from code i \<Longrightarrow> fetch_rel (\<lambda>x h. fst h = half_at code x) i"
proof -
  assume i: "fetch_from code i"
  let ?b = "fi_immu_pc i AND NOT 3"
  have b: "?b AND 3 = 0" "?b AND NOT 3 = ?b"
    by (simp_all add: and.assoc)
  show ?thesis
    using i aligned_next_half [OF b(1)] b
    by (simp add: fetch_rel_def fetch_from_def halves_of_def half_at_def Let_def)
qed

text \<open>The instruction at the head of the buffer, halfword by halfword.\<close>

lemma stream_instruction:
  assumes ok: "fetch_ok s" and "stream_rel R (fetch_abs s)" and "\<not> if_id_flush s"
  shows "R (buffer_addr s) (lane (buffer s) (buffer_page_fault s) (buffer_access_fault s) 0)"
    and "buffer s AND 3 = 3 \<Longrightarrow>
      R (buffer_addr s + 2) (lane (buffer s) (buffer_page_fault s) (buffer_access_fault s) 1)"
proof -
  obtain n where n: "holds_halves n s"
    using ok by (auto simp: fetch_ok_def)
  have len: "length (fetch_queue s) = n"
    by (simp add: holds_halves_idx(7) [OF n])
  have need: "need (fetch_queue s) \<le> n"
    using ready_buffer [OF ok] assms(3) len by (simp add: ready_def)
  have R: "R (buffer_addr s + 2 * of_nat k) (lane (buffer s) (buffer_page_fault s) (buffer_access_fault s) k)"
    if "k < n" for k
    using assms(2) that len by (simp add: stream_rel_def fetch_abs_def holds_halves_idx(7) [OF n] lanes_def)
  show "R (buffer_addr s) (lane (buffer s) (buffer_page_fault s) (buffer_access_fault s) 0)"
    using R [of 0] need by (simp add: need_buffer [OF n] split: if_splits)
  show "R (buffer_addr s + 2) (lane (buffer s) (buffer_page_fault s) (buffer_access_fault s) 1)" if "buffer s AND 3 = 3"
    using R [of 1] need that by (simp add: need_buffer [OF n] split: if_splits)
qed

lemma get_inst_seq_out:
  "if_id_inst (get_inst_seq i s) = ucast (buffer (get_inst_seq i s))"
  "if_id_pc (get_inst_seq i s) = buffer_addr (get_inst_seq i s)"
  by (simp_all add: get_inst_seq_def fetch_output_def Let_def split: prod.split)

lemma fetch_outputs:
  "if_id_inst (fold get_inst_seq is (FETCH_reset junk)) = ucast (buffer (fold get_inst_seq is (FETCH_reset junk))) \<and>
   if_id_pc (fold get_inst_seq is (FETCH_reset junk)) = buffer_addr (fold get_inst_seq is (FETCH_reset junk))"
  by (induction "is" rule: rev_induct) (simp_all add: get_inst_seq_out FETCH_reset_def)



end
