(* ===== verification/Instr_Cfg.thy ===== *)
theory Instr_Cfg
  imports Turtle_Prelude
begin

text \<open>
  The instruction names of \<^verbatim>\<open>src/src/instr_cfg.hpp\<close>: the enumeration
  \<^verbatim>\<open>enum class InstrType\<close> as a datatype with one constructor per enumerator, in
  the order of the source (an enumerator \<^verbatim>\<open>InstrType::ADD\<close> is written
  \<open>I_ADD\<close>, since names such as \<open>AND\<close>, \<open>OR\<close> and \<open>XOR\<close> are taken by the
  bit operations), and the printing function \<^verbatim>\<open>to_string\<close>.
  An equality instance for code equations is given through the position of a name in
  the enumeration, which is also what C++ compares.
\<close>

datatype (plugins only: ) InstrType =
   I_LUI | I_AUIPC | I_ADDI | I_SLTI | I_SLTIU | I_XORI | I_ORI | I_ANDI | I_SLLI | I_SRLI
  | I_SRAI | I_ADD | I_SUB | I_SLL | I_SLT | I_SLTU | I_XOR | I_SRL | I_SRA | I_OR
  | I_AND | I_LB | I_LH | I_LW | I_LBU | I_LHU | I_SB | I_SH | I_SW | I_JAL | I_JALR
  | I_BEQ | I_BNE | I_BLT | I_BGE | I_BLTU | I_BGEU | I_ECALL | I_EBREAK | I_SRET
  | I_MRET | I_WFI | I_CSRRW | I_CSRRS | I_CSRRC | I_CSRRWI | I_CSRRSI | I_CSRRCI
  | I_FENCE | I_FENCE_I | I_SFENCE_VMA | I_MUL | I_MULH | I_MULHSU | I_MULHU | I_DIV
  | I_DIVU | I_REM | I_REMU | I_LR_W | I_SC_W | I_AMOSWAP_W | I_AMOADD_W | I_AMOXOR_W
  | I_AMOAND_W | I_AMOOR_W | I_AMOMIN_W | I_AMOMAX_W | I_AMOMINU_W | I_AMOMAXU_W
  | I_C_ADDI4SPN | I_C_LW | I_C_SW | I_C_NOP | I_C_ADDI | I_C_JAL | I_C_LI | I_C_ADDI16SP
  | I_C_LUI | I_C_SRLI | I_C_SRAI | I_C_ANDI | I_C_SUB | I_C_XOR | I_C_OR | I_C_AND
  | I_C_J | I_C_BEQZ | I_C_BNEZ | I_C_SLLI | I_C_LWSP | I_C_JR | I_C_MV | I_C_EBREAK
  | I_C_JALR | I_C_ADD | I_C_SWSP | I_NOP | I_INVALID

primrec to_string :: "InstrType \<Rightarrow> string" where
  "to_string I_LUI = ''LUI''"
| "to_string I_AUIPC = ''AUIPC''"
| "to_string I_ADDI = ''ADDI''"
| "to_string I_SLTI = ''SLTI''"
| "to_string I_SLTIU = ''SLTIU''"
| "to_string I_XORI = ''XORI''"
| "to_string I_ORI = ''ORI''"
| "to_string I_ANDI = ''ANDI''"
| "to_string I_SLLI = ''SLLI''"
| "to_string I_SRLI = ''SRLI''"
| "to_string I_SRAI = ''SRAI''"
| "to_string I_ADD = ''ADD''"
| "to_string I_SUB = ''SUB''"
| "to_string I_SLL = ''SLL''"
| "to_string I_SLT = ''SLT''"
| "to_string I_SLTU = ''SLTU''"
| "to_string I_XOR = ''XOR''"
| "to_string I_SRL = ''SRL''"
| "to_string I_SRA = ''SRA''"
| "to_string I_OR = ''OR''"
| "to_string I_AND = ''AND''"
| "to_string I_LB = ''LB''"
| "to_string I_LH = ''LH''"
| "to_string I_LW = ''LW''"
| "to_string I_LBU = ''LBU''"
| "to_string I_LHU = ''LHU''"
| "to_string I_SB = ''SB''"
| "to_string I_SH = ''SH''"
| "to_string I_SW = ''SW''"
| "to_string I_JAL = ''JAL''"
| "to_string I_JALR = ''JALR''"
| "to_string I_BEQ = ''BEQ''"
| "to_string I_BNE = ''BNE''"
| "to_string I_BLT = ''BLT''"
| "to_string I_BGE = ''BGE''"
| "to_string I_BLTU = ''BLTU''"
| "to_string I_BGEU = ''BGEU''"
| "to_string I_ECALL = ''ECALL''"
| "to_string I_EBREAK = ''EBREAK''"
| "to_string I_SRET = ''SRET''"
| "to_string I_MRET = ''MRET''"
| "to_string I_WFI = ''WFI''"
| "to_string I_CSRRW = ''CSRRW''"
| "to_string I_CSRRS = ''CSRRS''"
| "to_string I_CSRRC = ''CSRRC''"
| "to_string I_CSRRWI = ''CSRRWI''"
| "to_string I_CSRRSI = ''CSRRSI''"
| "to_string I_CSRRCI = ''CSRRCI''"
| "to_string I_FENCE = ''FENCE''"
| "to_string I_FENCE_I = ''FENCE_I''"
| "to_string I_SFENCE_VMA = ''SFENCE_VMA''"
| "to_string I_MUL = ''MUL''"
| "to_string I_MULH = ''MULH''"
| "to_string I_MULHSU = ''MULHSU''"
| "to_string I_MULHU = ''MULHU''"
| "to_string I_DIV = ''DIV''"
| "to_string I_DIVU = ''DIVU''"
| "to_string I_REM = ''REM''"
| "to_string I_REMU = ''REMU''"
| "to_string I_LR_W = ''LR_W''"
| "to_string I_SC_W = ''SC_W''"
| "to_string I_AMOSWAP_W = ''AMOSWAP_W''"
| "to_string I_AMOADD_W = ''AMOADD_W''"
| "to_string I_AMOXOR_W = ''AMOXOR_W''"
| "to_string I_AMOAND_W = ''AMOAND_W''"
| "to_string I_AMOOR_W = ''AMOOR_W''"
| "to_string I_AMOMIN_W = ''AMOMIN_W''"
| "to_string I_AMOMAX_W = ''AMOMAX_W''"
| "to_string I_AMOMINU_W = ''AMOMINU_W''"
| "to_string I_AMOMAXU_W = ''AMOMAXU_W''"
| "to_string I_C_ADDI4SPN = ''C_ADDI4SPN''"
| "to_string I_C_LW = ''C_LW''"
| "to_string I_C_SW = ''C_SW''"
| "to_string I_C_NOP = ''C_NOP''"
| "to_string I_C_ADDI = ''C_ADDI''"
| "to_string I_C_JAL = ''C_JAL''"
| "to_string I_C_LI = ''C_LI''"
| "to_string I_C_ADDI16SP = ''C_ADDI16SP''"
| "to_string I_C_LUI = ''C_LUI''"
| "to_string I_C_SRLI = ''C_SRLI''"
| "to_string I_C_SRAI = ''C_SRAI''"
| "to_string I_C_ANDI = ''C_ANDI''"
| "to_string I_C_SUB = ''C_SUB''"
| "to_string I_C_XOR = ''C_XOR''"
| "to_string I_C_OR = ''C_OR''"
| "to_string I_C_AND = ''C_AND''"
| "to_string I_C_J = ''C_J''"
| "to_string I_C_BEQZ = ''C_BEQZ''"
| "to_string I_C_BNEZ = ''C_BNEZ''"
| "to_string I_C_SLLI = ''C_SLLI''"
| "to_string I_C_LWSP = ''C_LWSP''"
| "to_string I_C_JR = ''C_JR''"
| "to_string I_C_MV = ''C_MV''"
| "to_string I_C_EBREAK = ''C_EBREAK''"
| "to_string I_C_JALR = ''C_JALR''"
| "to_string I_C_ADD = ''C_ADD''"
| "to_string I_C_SWSP = ''C_SWSP''"
| "to_string I_NOP = ''NOP''"
| "to_string I_INVALID = ''INVALID''"

text \<open>The enumerators in order, and the integer C++ gives to each of them.\<close>

definition instr_list :: "InstrType list" where
  "instr_list =
    [I_LUI, I_AUIPC, I_ADDI, I_SLTI, I_SLTIU, I_XORI, I_ORI, I_ANDI, I_SLLI, I_SRLI,
    I_SRAI, I_ADD, I_SUB, I_SLL, I_SLT, I_SLTU, I_XOR, I_SRL, I_SRA, I_OR, I_AND, I_LB,
    I_LH, I_LW, I_LBU, I_LHU, I_SB, I_SH, I_SW, I_JAL, I_JALR, I_BEQ, I_BNE, I_BLT, I_BGE,
    I_BLTU, I_BGEU, I_ECALL, I_EBREAK, I_SRET, I_MRET, I_WFI, I_CSRRW, I_CSRRS, I_CSRRC,
    I_CSRRWI, I_CSRRSI, I_CSRRCI, I_FENCE, I_FENCE_I, I_SFENCE_VMA, I_MUL, I_MULH,
    I_MULHSU, I_MULHU, I_DIV, I_DIVU, I_REM, I_REMU, I_LR_W, I_SC_W, I_AMOSWAP_W,
    I_AMOADD_W, I_AMOXOR_W, I_AMOAND_W, I_AMOOR_W, I_AMOMIN_W, I_AMOMAX_W, I_AMOMINU_W,
    I_AMOMAXU_W, I_C_ADDI4SPN, I_C_LW, I_C_SW, I_C_NOP, I_C_ADDI, I_C_JAL, I_C_LI,
    I_C_ADDI16SP, I_C_LUI, I_C_SRLI, I_C_SRAI, I_C_ANDI, I_C_SUB, I_C_XOR, I_C_OR, I_C_AND,
    I_C_J, I_C_BEQZ, I_C_BNEZ, I_C_SLLI, I_C_LWSP, I_C_JR, I_C_MV, I_C_EBREAK, I_C_JALR,
    I_C_ADD, I_C_SWSP, I_NOP, I_INVALID]"

primrec instr_ord :: "InstrType \<Rightarrow> nat" where
  "instr_ord I_LUI = 0"
| "instr_ord I_AUIPC = 1"
| "instr_ord I_ADDI = 2"
| "instr_ord I_SLTI = 3"
| "instr_ord I_SLTIU = 4"
| "instr_ord I_XORI = 5"
| "instr_ord I_ORI = 6"
| "instr_ord I_ANDI = 7"
| "instr_ord I_SLLI = 8"
| "instr_ord I_SRLI = 9"
| "instr_ord I_SRAI = 10"
| "instr_ord I_ADD = 11"
| "instr_ord I_SUB = 12"
| "instr_ord I_SLL = 13"
| "instr_ord I_SLT = 14"
| "instr_ord I_SLTU = 15"
| "instr_ord I_XOR = 16"
| "instr_ord I_SRL = 17"
| "instr_ord I_SRA = 18"
| "instr_ord I_OR = 19"
| "instr_ord I_AND = 20"
| "instr_ord I_LB = 21"
| "instr_ord I_LH = 22"
| "instr_ord I_LW = 23"
| "instr_ord I_LBU = 24"
| "instr_ord I_LHU = 25"
| "instr_ord I_SB = 26"
| "instr_ord I_SH = 27"
| "instr_ord I_SW = 28"
| "instr_ord I_JAL = 29"
| "instr_ord I_JALR = 30"
| "instr_ord I_BEQ = 31"
| "instr_ord I_BNE = 32"
| "instr_ord I_BLT = 33"
| "instr_ord I_BGE = 34"
| "instr_ord I_BLTU = 35"
| "instr_ord I_BGEU = 36"
| "instr_ord I_ECALL = 37"
| "instr_ord I_EBREAK = 38"
| "instr_ord I_SRET = 39"
| "instr_ord I_MRET = 40"
| "instr_ord I_WFI = 41"
| "instr_ord I_CSRRW = 42"
| "instr_ord I_CSRRS = 43"
| "instr_ord I_CSRRC = 44"
| "instr_ord I_CSRRWI = 45"
| "instr_ord I_CSRRSI = 46"
| "instr_ord I_CSRRCI = 47"
| "instr_ord I_FENCE = 48"
| "instr_ord I_FENCE_I = 49"
| "instr_ord I_SFENCE_VMA = 50"
| "instr_ord I_MUL = 51"
| "instr_ord I_MULH = 52"
| "instr_ord I_MULHSU = 53"
| "instr_ord I_MULHU = 54"
| "instr_ord I_DIV = 55"
| "instr_ord I_DIVU = 56"
| "instr_ord I_REM = 57"
| "instr_ord I_REMU = 58"
| "instr_ord I_LR_W = 59"
| "instr_ord I_SC_W = 60"
| "instr_ord I_AMOSWAP_W = 61"
| "instr_ord I_AMOADD_W = 62"
| "instr_ord I_AMOXOR_W = 63"
| "instr_ord I_AMOAND_W = 64"
| "instr_ord I_AMOOR_W = 65"
| "instr_ord I_AMOMIN_W = 66"
| "instr_ord I_AMOMAX_W = 67"
| "instr_ord I_AMOMINU_W = 68"
| "instr_ord I_AMOMAXU_W = 69"
| "instr_ord I_C_ADDI4SPN = 70"
| "instr_ord I_C_LW = 71"
| "instr_ord I_C_SW = 72"
| "instr_ord I_C_NOP = 73"
| "instr_ord I_C_ADDI = 74"
| "instr_ord I_C_JAL = 75"
| "instr_ord I_C_LI = 76"
| "instr_ord I_C_ADDI16SP = 77"
| "instr_ord I_C_LUI = 78"
| "instr_ord I_C_SRLI = 79"
| "instr_ord I_C_SRAI = 80"
| "instr_ord I_C_ANDI = 81"
| "instr_ord I_C_SUB = 82"
| "instr_ord I_C_XOR = 83"
| "instr_ord I_C_OR = 84"
| "instr_ord I_C_AND = 85"
| "instr_ord I_C_J = 86"
| "instr_ord I_C_BEQZ = 87"
| "instr_ord I_C_BNEZ = 88"
| "instr_ord I_C_SLLI = 89"
| "instr_ord I_C_LWSP = 90"
| "instr_ord I_C_JR = 91"
| "instr_ord I_C_MV = 92"
| "instr_ord I_C_EBREAK = 93"
| "instr_ord I_C_JALR = 94"
| "instr_ord I_C_ADD = 95"
| "instr_ord I_C_SWSP = 96"
| "instr_ord I_NOP = 97"
| "instr_ord I_INVALID = 98"

lemma instr_list_ord: "instr_list ! instr_ord t = t"
  by (cases t) (simp_all add: instr_list_def)

lemma instr_ord_inject: "instr_ord s = instr_ord t \<longleftrightarrow> s = t"
  by (metis instr_list_ord)

instantiation InstrType :: equal
begin

definition equal_InstrType :: "InstrType \<Rightarrow> InstrType \<Rightarrow> bool" where
  "equal_InstrType s t \<longleftrightarrow> instr_ord s = instr_ord t"

instance
  by standard (simp add: equal_InstrType_def instr_ord_inject)

end

end
