(* ===== verification/Regfile.thy ===== *)
theory Regfile
  imports Turtle_Prelude
begin

unbundle bit_operations_syntax

text \<open>
  The register file of \<^verbatim>\<open>src/src/regfile.hpp\<close>: 32 registers, register 0 never
  written. An index outside the \<^verbatim>\<open>sc_vector\<close> is an error (\<open>None\<close>). The interface the
  decoder relies on (a read returns the last write, register 0 reads zero) is the locale
  \<open>register_file\<close>.
\<close>

type_synonym regs = "u32 list"

definition RegFile_ctor :: regs where
  "RegFile_ctor = (replicate 32 0)[0xb := 0x80100000]"

definition write_seq :: "bool \<Rightarrow> u8 \<Rightarrow> u32 \<Rightarrow> regs \<Rightarrow> regs option" where
  "write_seq wb_write_rd wb_rd wb_rd_val rf =
     (if wb_write_rd \<and> wb_rd \<noteq> 0 then vset rf (unat wb_rd) wb_rd_val else Some rf)"

definition regs_ok :: "regs \<Rightarrow> bool" where
  "regs_ok rf \<longleftrightarrow> length rf = 32 \<and> rf ! 0 = 0"

locale register_file =
  fixes ok :: "'r \<Rightarrow> bool" and get :: "'r \<Rightarrow> u8 \<Rightarrow> u32"
    and put :: "bool \<Rightarrow> u8 \<Rightarrow> u32 \<Rightarrow> 'r \<Rightarrow> 'r option"
  assumes put_ok: "ok rf \<Longrightarrow> d < 32 \<Longrightarrow> \<exists>rf'. put en d v rf = Some rf' \<and> ok rf' \<and>
      (\<forall>r < 32. get rf' r = (if en \<and> d \<noteq> 0 \<and> r = d then v else get rf r))"
    and get_zero: "ok rf \<Longrightarrow> get rf 0 = 0"
begin

text \<open>Two pending writes, the older first: a read afterwards sees the younger one first.\<close>

lemma put_put_get:
  assumes "ok rf" and "d < 32" and "e < 32" and "r < 32"
  shows "\<exists>rf' rf''. put en d v rf = Some rf' \<and> put en' e w rf' = Some rf'' \<and> ok rf'' \<and>
    get rf'' r = (if en' \<and> r \<noteq> 0 \<and> r = e then w else if en \<and> r \<noteq> 0 \<and> r = d then v else get rf r)"
proof -
  obtain rf' where rf': "put en d v rf = Some rf'" "ok rf'"
    "\<forall>r < 32. get rf' r = (if en \<and> d \<noteq> 0 \<and> r = d then v else get rf r)"
    using put_ok [OF assms(1,2)] by blast
  obtain rf'' where "put en' e w rf' = Some rf''" "ok rf''"
    "\<forall>r < 32. get rf'' r = (if en' \<and> e \<noteq> 0 \<and> r = e then w else get rf' r)"
    using put_ok [OF rf'(2) assms(3)] by blast
  then show ?thesis
    using rf' assms(4) by auto
qed

end

interpretation rf: register_file regs_ok "\<lambda>rf r. rf ! unat r" write_seq
proof
  fix rf :: regs and d :: u8 and en v
  assume ok: "regs_ok rf" and d: "d < 32"
  have "unat d < 32"
    using d by (simp add: word_less_nat_alt)
  then show "\<exists>rf'. write_seq en d v rf = Some rf' \<and> regs_ok rf' \<and>
      (\<forall>r < 32. rf' ! unat r = (if en \<and> d \<noteq> 0 \<and> r = d then v else rf ! unat r))"
    using ok by (auto simp: write_seq_def regs_ok_def nth_list_update word_unat_eq_iff)
qed (simp add: regs_ok_def)

lemma regs_ok_ctor: "regs_ok RegFile_ctor"
  by (simp add: regs_ok_def RegFile_ctor_def)

end
