(* ===== verification/Decode.thy ===== *)
theory Decode
  imports Instr_Cfg Csr_Cfg Regfile
begin

unbundle bit_operations_syntax

text \<open>
  The decoder of \<^verbatim>\<open>src/src/decode.hpp\<close>: the pipeline register \<open>ID_EX\<close>, operand
  forwarding, the decoder of 32-bit instructions (one definition per opcode), the
  decompressor of 16-bit instructions (one definition per quadrant) and the clocked stage
  \<open>inst_decode_seq\<close>. A field is named after the member of \<^verbatim>\<open>struct ID_EX\<close> with the
  prefix \<open>ie_\<close>.
\<close>

subsection \<open>The pipeline register\<close>

record ID_EX =
  ie_type :: InstrType
  ie_inst :: u32
  ie_rd :: u8
  ie_writes_rd :: bool
  ie_rs1 :: u8
  ie_rs2 :: u8
  ie_rs1_val :: u32
  ie_rs2_val :: u32
  ie_imm :: u32
  ie_pc :: u32
  ie_csr_val :: u32
  ie_is_csr :: bool
  ie_csr_addr :: u16
  ie_is_compressed :: bool
  ie_ctype :: InstrType
  ie_is_branch :: bool
  ie_is_jump :: bool
  ie_is_load :: bool
  ie_is_store :: bool
  ie_is_muldiv :: bool
  ie_is_system :: bool
  ie_is_atomic :: bool
  ie_amo_type :: u8
  ie_mem_size :: u8
  ie_flush :: bool
  ie_get_next_inst :: bool
  ie_cause :: u32
  ie_tval :: u32
  ie_on_trap :: bool

definition ID_EX_ctor :: ID_EX where
  "ID_EX_ctor =
     \<lparr>ie_type = I_NOP, ie_inst = 0, ie_rd = 0, ie_writes_rd = False, ie_rs1 = 0, ie_rs2 = 0,
      ie_rs1_val = 0, ie_rs2_val = 0, ie_imm = 0, ie_pc = 0, ie_csr_val = 0, ie_is_csr = False,
      ie_csr_addr = 0, ie_is_compressed = False, ie_ctype = I_C_NOP, ie_is_branch = False,
      ie_is_jump = False, ie_is_load = False, ie_is_store = False, ie_is_muldiv = False,
      ie_is_system = False, ie_is_atomic = False, ie_amo_type = 0, ie_mem_size = 0,
      ie_flush = False, ie_get_next_inst = False, ie_cause = 0, ie_tval = 0, ie_on_trap = False\<rparr>"

text \<open>The input ports of the stage and the register file it reads.\<close>

record DECODE_IN =
  di_rst :: bool
  di_stall :: bool
  di_flush :: bool
  di_npc :: u32
  di_if_id_inst :: u32
  di_if_id_pc :: u32
  di_if_id_fault :: u8
  di_if_id_tval :: u32
  di_if_id_flush :: bool
  di_ex_write_rd :: bool
  di_ex_rd_val :: u32
  di_ex_rd :: u8
  di_wb_write_rd :: bool
  di_wb_rd_val :: u32
  di_wb_rd :: u8
  di_regs :: regs

text \<open>Operand forwarding: the execute stage first, then write-back, then the register file.\<close>

definition operand :: "DECODE_IN \<Rightarrow> u8 \<Rightarrow> u32" where
  "operand i rs =
     (if di_ex_write_rd i \<and> rs \<noteq> 0 \<and> rs = di_ex_rd i then di_ex_rd_val i
      else if di_wb_write_rd i \<and> rs \<noteq> 0 \<and> rs = di_wb_rd i then di_wb_rd_val i
      else di_regs i ! unat rs)"

subsection \<open>32-bit instructions\<close>

definition dec_common :: "DECODE_IN \<Rightarrow> u32 \<Rightarrow> ID_EX" where
  "dec_common i inst =
     (let rd = ucast (get_bits inst 11 7); rs1 = ucast (get_bits inst 19 15);
          rs2 = ucast (get_bits inst 24 20)
      in ID_EX_ctor\<lparr>ie_inst := inst, ie_rd := rd, ie_rs1 := rs1, ie_rs2 := rs2,
           ie_is_compressed := False, ie_rs1_val := operand i rs1, ie_rs2_val := operand i rs2,
           ie_pc := di_if_id_pc i\<rparr>)"

definition dec_op_imm :: "u32 \<Rightarrow> ID_EX \<Rightarrow> ID_EX" where
  "dec_op_imm inst d =
     (let funct3 = get_bits inst 14 12; funct7 = get_bits inst 31 25;
          imm = sign_extend (get_bits inst 31 20) 12
      in d\<lparr>ie_writes_rd := get_bits inst 11 7 \<noteq> 0, ie_imm := imm, ie_type :=
           (if funct3 = 0 then I_ADDI
            else if funct3 = 2 then I_SLTI
            else if funct3 = 3 then I_SLTIU
            else if funct3 = 4 then I_XORI
            else if funct3 = 6 then I_ORI
            else if funct3 = 7 then I_ANDI
            else if funct3 = 1 then (if 31 < imm then I_INVALID else I_SLLI)
            else if funct3 = 5 then (if funct7 = 0 then I_SRLI else I_SRAI)
            else ie_type d)\<rparr>)"

definition op_type :: "u32 \<Rightarrow> InstrType" where
  "op_type k =
     (if k = 0 then I_ADD
      else if k = 0x100 then I_SUB
      else if k = 1 then I_SLL
      else if k = 2 then I_SLT
      else if k = 3 then I_SLTU
      else if k = 4 then I_XOR
      else if k = 5 then I_SRL
      else if k = 0x105 then I_SRA
      else if k = 6 then I_OR
      else if k = 7 then I_AND
      else if k = 8 then I_MUL
      else if k = 9 then I_MULH
      else if k = 10 then I_MULHSU
      else if k = 11 then I_MULHU
      else if k = 12 then I_DIV
      else if k = 13 then I_DIVU
      else if k = 14 then I_REM
      else if k = 15 then I_REMU
      else I_NOP)"

definition dec_op :: "u32 \<Rightarrow> ID_EX \<Rightarrow> ID_EX" where
  "dec_op inst d =
     (let k = push_bit 3 (get_bits inst 31 25) OR get_bits inst 14 12
      in d\<lparr>ie_writes_rd := get_bits inst 11 7 \<noteq> 0, ie_type := op_type k,
            ie_is_muldiv := (8 \<le> k \<and> k \<le> 15)\<rparr>)"

definition dec_load :: "u32 \<Rightarrow> ID_EX \<Rightarrow> ID_EX" where
  "dec_load inst d =
     (let funct3 = get_bits inst 14 12;
          d1 = d\<lparr>ie_is_load := True, ie_writes_rd := get_bits inst 11 7 \<noteq> 0,
                   ie_imm := sign_extend (get_bits inst 31 20) 12\<rparr>
      in if funct3 = 0 then d1\<lparr>ie_type := I_LB, ie_mem_size := 1\<rparr>
         else if funct3 = 1 then d1\<lparr>ie_type := I_LH, ie_mem_size := 2\<rparr>
         else if funct3 = 2 then d1\<lparr>ie_type := I_LW, ie_mem_size := 4\<rparr>
         else if funct3 = 4 then d1\<lparr>ie_type := I_LBU, ie_mem_size := 1\<rparr>
         else if funct3 = 5 then d1\<lparr>ie_type := I_LHU, ie_mem_size := 2\<rparr>
         else d1)"

definition dec_store :: "u32 \<Rightarrow> ID_EX \<Rightarrow> ID_EX" where
  "dec_store inst d =
     (let funct3 = get_bits inst 14 12;
          d1 = d\<lparr>ie_is_store := True,
                   ie_imm := sign_extend (push_bit 5 (get_bits inst 31 25) OR get_bits inst 11 7) 12\<rparr>
      in if funct3 = 0 then d1\<lparr>ie_type := I_SB, ie_mem_size := 1\<rparr>
         else if funct3 = 1 then d1\<lparr>ie_type := I_SH, ie_mem_size := 2\<rparr>
         else if funct3 = 2 then d1\<lparr>ie_type := I_SW, ie_mem_size := 4\<rparr>
         else d1)"

definition dec_jal :: "u32 \<Rightarrow> ID_EX \<Rightarrow> ID_EX" where
  "dec_jal inst d =
     d\<lparr>ie_type := I_JAL, ie_is_jump := True, ie_writes_rd := get_bits inst 11 7 \<noteq> 0,
        ie_imm := sign_extend (push_bit 20 (get_bits inst 31 31) OR push_bit 12 (get_bits inst 19 12) OR
                    push_bit 11 (get_bits inst 20 20) OR push_bit 1 (get_bits inst 30 21)) 21\<rparr>"

definition dec_jalr :: "u32 \<Rightarrow> ID_EX \<Rightarrow> ID_EX" where
  "dec_jalr inst d =
     d\<lparr>ie_writes_rd := get_bits inst 11 7 \<noteq> 0, ie_type := I_JALR, ie_is_jump := True,
        ie_imm := sign_extend (get_bits inst 31 20) 12\<rparr>"

definition dec_branch :: "u32 \<Rightarrow> ID_EX \<Rightarrow> ID_EX" where
  "dec_branch inst d =
     (let funct3 = get_bits inst 14 12
      in d\<lparr>ie_writes_rd := False, ie_is_branch := True,
            ie_imm := sign_extend (push_bit 12 (get_bits inst 31 31) OR push_bit 11 (get_bits inst 7 7) OR
                        push_bit 5 (get_bits inst 30 25) OR push_bit 1 (get_bits inst 11 8)) 13,
            ie_type :=
              (if funct3 = 0 then I_BEQ
               else if funct3 = 1 then I_BNE
               else if funct3 = 4 then I_BLT
               else if funct3 = 5 then I_BGE
               else if funct3 = 6 then I_BLTU
               else if funct3 = 7 then I_BGEU
               else ie_type d)\<rparr>)"

definition dec_csr :: "u32 \<Rightarrow> ID_EX \<Rightarrow> ID_EX" where
  "dec_csr inst d =
     (let funct3 = get_bits inst 14 12;
          reg = (\<lambda>t. d\<lparr>ie_type := t, ie_is_csr := True, ie_writes_rd := get_bits inst 11 7 \<noteq> 0,
                       ie_csr_val := ie_rs1_val d\<rparr>);
          uimm = (\<lambda>t. d\<lparr>ie_type := t, ie_is_csr := True, ie_writes_rd := get_bits inst 11 7 \<noteq> 0,
                       ie_csr_val := ucast (ie_rs1 d AND 0x1F)\<rparr>)
      in if funct3 = 1 then reg I_CSRRW
         else if funct3 = 2 then reg I_CSRRS
         else if funct3 = 3 then reg I_CSRRC
         else if funct3 = 5 then uimm I_CSRRWI
         else if funct3 = 6 then uimm I_CSRRSI
         else if funct3 = 7 then uimm I_CSRRCI
         else d\<lparr>ie_type := I_INVALID\<rparr>)"

definition dec_system :: "u32 \<Rightarrow> ID_EX \<Rightarrow> ID_EX" where
  "dec_system inst d0 =
     (let d = d0\<lparr>ie_is_system := True, ie_csr_addr := ucast (get_bits inst 31 20)\<rparr>;
          f12 = get_bits inst 31 20
      in if get_bits inst 14 12 = 0
         then d\<lparr>ie_type :=
                (if get_bits inst 31 25 = 9 then I_SFENCE_VMA
                 else if f12 = 0x000 then I_ECALL
                 else if f12 = 0x001 then I_EBREAK
                 else if f12 = 0x105 then I_WFI
                 else if f12 = 0x102 then I_SRET
                 else if f12 = 0x302 then I_MRET
                 else I_INVALID)\<rparr>
         else dec_csr inst d)"

definition dec_fence :: "u32 \<Rightarrow> ID_EX \<Rightarrow> ID_EX" where
  "dec_fence inst d =
     (let funct3 = get_bits inst 14 12
      in d\<lparr>ie_is_system := True, ie_type :=
              (if funct3 = 0 then I_FENCE else if funct3 = 1 then I_FENCE_I else I_INVALID)\<rparr>)"

definition dec_amo :: "u32 \<Rightarrow> ID_EX \<Rightarrow> ID_EX" where
  "dec_amo inst d0 =
     (let funct5 = drop_bit 2 (get_bits inst 31 25);
          d = d0\<lparr>ie_is_atomic := True, ie_writes_rd := get_bits inst 11 7 \<noteq> 0, ie_mem_size := 4\<rparr>
      in if get_bits inst 14 12 \<noteq> 2 then d\<lparr>ie_type := I_INVALID\<rparr>
         else if funct5 = 0x02 then d\<lparr>ie_type := I_LR_W, ie_amo_type := 0\<rparr>
         else if funct5 = 0x03 then d\<lparr>ie_type := I_SC_W, ie_amo_type := 1\<rparr>
         else if funct5 = 0x01 then d\<lparr>ie_type := I_AMOSWAP_W, ie_amo_type := 2\<rparr>
         else if funct5 = 0x00 then d\<lparr>ie_type := I_AMOADD_W, ie_amo_type := 3\<rparr>
         else if funct5 = 0x04 then d\<lparr>ie_type := I_AMOXOR_W, ie_amo_type := 4\<rparr>
         else if funct5 = 0x0c then d\<lparr>ie_type := I_AMOAND_W, ie_amo_type := 5\<rparr>
         else if funct5 = 0x08 then d\<lparr>ie_type := I_AMOOR_W, ie_amo_type := 6\<rparr>
         else if funct5 = 0x10 then d\<lparr>ie_type := I_AMOMIN_W, ie_amo_type := 7\<rparr>
         else if funct5 = 0x14 then d\<lparr>ie_type := I_AMOMAX_W, ie_amo_type := 8\<rparr>
         else if funct5 = 0x18 then d\<lparr>ie_type := I_AMOMINU_W, ie_amo_type := 9\<rparr>
         else if funct5 = 0x1c then d\<lparr>ie_type := I_AMOMAXU_W, ie_amo_type := 10\<rparr>
         else d\<lparr>ie_type := I_INVALID\<rparr>)"

definition decode :: "DECODE_IN \<Rightarrow> u32 \<Rightarrow> ID_EX" where
  "decode i inst =
     (let opcode = get_bits inst 6 0; d = dec_common i inst
      in if opcode = 0x37 then d\<lparr>ie_type := I_LUI, ie_imm := inst AND 0xFFFFF000,
                                 ie_writes_rd := get_bits inst 11 7 \<noteq> 0\<rparr>
         else if opcode = 0x17 then d\<lparr>ie_type := I_AUIPC, ie_imm := inst AND 0xFFFFF000,
                                 ie_writes_rd := get_bits inst 11 7 \<noteq> 0\<rparr>
         else if opcode = 0x13 then dec_op_imm inst d
         else if opcode = 0x33 then dec_op inst d
         else if opcode = 0x03 then dec_load inst d
         else if opcode = 0x23 then dec_store inst d
         else if opcode = 0x6f then dec_jal inst d
         else if opcode = 0x67 then dec_jalr inst d
         else if opcode = 0x63 then dec_branch inst d
         else if opcode = 0x73 then dec_system inst d
         else if opcode = 0x0f then dec_fence inst d
         else if opcode = 0x2f then dec_amo inst d
         else d\<lparr>ie_type := I_INVALID\<rparr>)"

subsection \<open>16-bit instructions\<close>

text \<open>The illegal-instruction assignments that many cases share.\<close>

definition illegal :: "u32 \<Rightarrow> ID_EX \<Rightarrow> ID_EX" where
  "illegal inst d = d\<lparr>ie_on_trap := True, ie_cause := ILLEGAL_INSTR, ie_tval := inst\<rparr>"

definition creg :: "u32 \<Rightarrow> nat \<Rightarrow> nat \<Rightarrow> u8" where
  "creg inst hi lo = ucast (get_bits inst hi lo + 8)"

definition clw_imm :: "u32 \<Rightarrow> u32" where
  "clw_imm inst = push_bit 6 (get_bits inst 5 5) OR push_bit 3 (get_bits inst 12 10) OR
     push_bit 2 (get_bits inst 6 6)"

definition addi4spn_imm :: "u32 \<Rightarrow> u32" where
  "addi4spn_imm inst = push_bit 4 (get_bits inst 12 11) OR push_bit 6 (get_bits inst 10 7) OR
     push_bit 2 (get_bits inst 6 6) OR push_bit 3 (get_bits inst 5 5)"

definition decompress_q0 :: "u32 \<Rightarrow> ID_EX \<Rightarrow> ID_EX" where
  "decompress_q0 inst d =
     (let funct3 = get_bits inst 15 13
      in if funct3 = 0
         then (let imm = addi4spn_imm inst;
                   d1 = d\<lparr>ie_type := I_ADDI, ie_ctype := I_C_ADDI4SPN, ie_rs1 := 2, ie_imm := imm,
                          ie_rd := creg inst 4 2, ie_writes_rd := True\<rparr>
               in if imm = 0 then illegal inst d1 else d1)
         else if funct3 = 2
         then d\<lparr>ie_type := I_LW, ie_ctype := I_C_LW, ie_rs1 := creg inst 9 7, ie_rd := creg inst 4 2,
                ie_imm := clw_imm inst, ie_writes_rd := True, ie_is_load := True, ie_mem_size := 4\<rparr>
         else if funct3 = 6
         then d\<lparr>ie_type := I_SW, ie_ctype := I_C_SW, ie_rs1 := creg inst 9 7, ie_rs2 := creg inst 4 2,
                ie_imm := clw_imm inst, ie_writes_rd := False, ie_is_store := True, ie_mem_size := 4\<rparr>
         else illegal inst (d\<lparr>ie_type := I_INVALID\<rparr>))"

definition cj_imm :: "u32 \<Rightarrow> u32" where
  "cj_imm inst =
     sign_extend (push_bit 11 (get_bits inst 12 12) OR push_bit 4 (get_bits inst 11 11) OR
       push_bit 8 (get_bits inst 10 9) OR push_bit 10 (get_bits inst 8 8) OR
       push_bit 6 (get_bits inst 7 7) OR push_bit 7 (get_bits inst 6 6) OR
       push_bit 1 (get_bits inst 5 3) OR push_bit 5 (get_bits inst 2 2)) 12"

definition cb_imm :: "u32 \<Rightarrow> u32" where
  "cb_imm inst =
     sign_extend (push_bit 8 (get_bits inst 12 12) OR push_bit 3 (get_bits inst 11 10) OR
       push_bit 6 (get_bits inst 6 5) OR push_bit 1 (get_bits inst 4 3) OR
       push_bit 5 (get_bits inst 2 2)) 9"

definition ci_imm :: "u32 \<Rightarrow> u32" where
  "ci_imm inst = sign_extend (push_bit 5 (get_bits inst 12 12) OR get_bits inst 6 2) 6"

definition addi16sp_imm :: "u32 \<Rightarrow> u32" where
  "addi16sp_imm inst =
     sign_extend (push_bit 9 (get_bits inst 12 12) OR push_bit 4 (get_bits inst 6 6) OR
       push_bit 6 (get_bits inst 5 5) OR push_bit 7 (get_bits inst 4 3) OR
       push_bit 5 (get_bits inst 2 2)) 10"

definition clui_imm :: "u32 \<Rightarrow> u32" where
  "clui_imm inst = sign_extend (push_bit 17 (get_bits inst 12 12) OR push_bit 12 (get_bits inst 6 2)) 18"

definition lwsp_imm :: "u32 \<Rightarrow> u32" where
  "lwsp_imm inst = push_bit 5 (get_bits inst 12 12) OR push_bit 2 (get_bits inst 6 4) OR
     push_bit 6 (get_bits inst 3 2)"

definition swsp_imm :: "u32 \<Rightarrow> u32" where
  "swsp_imm inst = push_bit 2 (get_bits inst 12 9) OR push_bit 6 (get_bits inst 8 7)"

text \<open>Quadrant 1, \<^verbatim>\<open>funct3\<close> 100: shifts, \<^verbatim>\<open>C.ANDI\<close> and the register operations.\<close>

definition decompress_alu :: "u32 \<Rightarrow> ID_EX \<Rightarrow> ID_EX" where
  "decompress_alu inst d =
     (let f = get_bits inst 11 10; g = get_bits inst 6 5;
          rd = creg inst 9 7;
          shift = (\<lambda>t c. let d1 = d\<lparr>ie_type := t, ie_ctype := c, ie_rd := rd, ie_rs1 := rd,
                                    ie_imm := get_bits inst 6 2, ie_writes_rd := True\<rparr>
                         in if get_bits inst 12 12 \<noteq> 0 then illegal inst d1 else d1);
          op = (\<lambda>t c. d\<lparr>ie_type := t, ie_ctype := c, ie_rd := rd, ie_rs1 := rd,
                        ie_rs2 := creg inst 4 2, ie_writes_rd := True\<rparr>)
      in if f = 0 then shift I_SRLI I_C_SRLI
         else if f = 1 then shift I_SRAI I_C_SRAI
         else if f = 2
         then d\<lparr>ie_type := I_ANDI, ie_ctype := I_C_ANDI, ie_rd := rd, ie_rs1 := rd,
                ie_imm := ci_imm inst, ie_writes_rd := True\<rparr>
         else if inst AND push_bit 12 1 = 0
         then (if g = 0 then op I_SUB I_C_SUB
               else if g = 1 then op I_XOR I_C_XOR
               else if g = 2 then op I_OR I_C_OR
               else op I_AND I_C_AND)
         else illegal inst (d\<lparr>ie_type := I_INVALID\<rparr>))"

definition decompress_q1 :: "u32 \<Rightarrow> ID_EX \<Rightarrow> ID_EX" where
  "decompress_q1 inst d =
     (let funct3 = get_bits inst 15 13; funct_11_7 = ucast (get_bits inst 11 7) :: u8
      in if funct3 = 0
         then (if inst = 1
               then d\<lparr>ie_type := I_NOP, ie_ctype := I_C_NOP, ie_writes_rd := False\<rparr>
               else d\<lparr>ie_type := I_ADDI, ie_ctype := I_C_ADDI, ie_rd := funct_11_7, ie_rs1 := funct_11_7,
                      ie_imm := ci_imm inst, ie_writes_rd := True\<rparr>)
         else if funct3 = 1
         then d\<lparr>ie_type := I_JAL, ie_ctype := I_C_JAL, ie_rd := 1, ie_writes_rd := True,
                ie_imm := cj_imm inst\<rparr>
         else if funct3 = 2
         then d\<lparr>ie_type := I_ADDI, ie_ctype := I_C_LI, ie_rd := funct_11_7, ie_rs1 := 0,
                ie_imm := ci_imm inst, ie_writes_rd := True\<rparr>
         else if funct3 = 3
         then (if get_bits inst 11 7 = 2
               then (let imm = addi16sp_imm inst;
                         d1 = d\<lparr>ie_type := I_ADDI, ie_ctype := I_C_ADDI16SP, ie_rs1 := 2, ie_imm := imm,
                                ie_rd := 2, ie_writes_rd := True\<rparr>
                     in if imm = 0 then illegal inst d1 else d1)
               else d\<lparr>ie_type := I_LUI, ie_ctype := I_C_LUI, ie_rd := funct_11_7, ie_rs1 := 0,
                      ie_imm := clui_imm inst, ie_writes_rd := True\<rparr>)
         else if funct3 = 4 then decompress_alu inst d
         else if funct3 = 5
         then d\<lparr>ie_type := I_JAL, ie_ctype := I_C_J, ie_rd := 0, ie_rs1 := 0, ie_rs2 := 0,
                ie_writes_rd := False, ie_imm := cj_imm inst\<rparr>
         else if funct3 = 6
         then d\<lparr>ie_type := I_BEQ, ie_ctype := I_C_BEQZ, ie_rd := 0, ie_writes_rd := False,
                ie_rs1 := creg inst 9 7, ie_rs2 := 0, ie_imm := cb_imm inst\<rparr>
         else if funct3 = 7
         then d\<lparr>ie_type := I_BNE, ie_ctype := I_C_BNEZ, ie_rd := 0, ie_writes_rd := False,
                ie_rs1 := creg inst 9 7, ie_rs2 := 0, ie_imm := cb_imm inst\<rparr>
         else d)"

text \<open>Quadrant 2, \<^verbatim>\<open>funct3\<close> 100: jumps, moves and adds.\<close>

definition decompress_jump :: "u32 \<Rightarrow> ID_EX \<Rightarrow> ID_EX" where
  "decompress_jump inst d =
     (let funct_12 = get_bits inst 12 12; funct_6_2 = get_bits inst 6 2;
          r = ucast (get_bits inst 11 7) :: u8
      in if funct_12 = 0
         then (if funct_6_2 = 0
               then (let d1 = d\<lparr>ie_type := I_JALR, ie_ctype := I_C_JR, ie_rd := 0, ie_rs1 := r,
                                ie_imm := 0, ie_writes_rd := False\<rparr>
                     in if r = 0 then illegal inst d1 else d1)
               else d\<lparr>ie_type := I_ADD, ie_ctype := I_C_MV, ie_rd := r, ie_rs1 := 0,
                      ie_rs2 := ucast funct_6_2, ie_writes_rd := True\<rparr>)
         else if funct_6_2 = 0
         then (if get_bits inst 11 7 = 0
               then d\<lparr>ie_type := I_EBREAK, ie_ctype := I_C_EBREAK\<rparr>
               else (let d1 = d\<lparr>ie_type := I_JALR, ie_ctype := I_C_JALR, ie_rd := 1, ie_rs1 := r,
                                ie_imm := 0, ie_writes_rd := True\<rparr>
                     in if r = 0 then illegal inst d1 else d1))
         else d\<lparr>ie_type := I_ADD, ie_ctype := I_C_ADD, ie_rd := r, ie_rs1 := r,
                ie_rs2 := ucast funct_6_2, ie_writes_rd := True\<rparr>)"

definition decompress_q2 :: "u32 \<Rightarrow> ID_EX \<Rightarrow> ID_EX" where
  "decompress_q2 inst d =
     (let funct3 = get_bits inst 15 13; r = ucast (get_bits inst 11 7) :: u8
      in if funct3 = 0
         then (let d1 = d\<lparr>ie_type := I_SLLI, ie_ctype := I_C_SLLI, ie_rd := r, ie_rs1 := r,
                          ie_imm := get_bits inst 6 2, ie_writes_rd := True\<rparr>
               in if get_bits inst 12 12 \<noteq> 0 \<and> r = 0 then illegal inst d1 else d1)
         else if funct3 = 1 then illegal inst (d\<lparr>ie_type := I_INVALID\<rparr>)
         else if funct3 = 2
         then (let d1 = d\<lparr>ie_type := I_LW, ie_ctype := I_C_LWSP, ie_rd := r, ie_rs1 := 2,
                          ie_imm := lwsp_imm inst, ie_writes_rd := True, ie_is_load := True, ie_mem_size := 4\<rparr>
               in if r = 0 then illegal inst d1 else d1)
         else if funct3 = 3 then illegal inst (d\<lparr>ie_type := I_INVALID\<rparr>)
         else if funct3 = 4 then decompress_jump inst d
         else if funct3 = 5 then d\<lparr>ie_type := I_INVALID\<rparr>
         else if funct3 = 6
         then d\<lparr>ie_type := I_SW, ie_ctype := I_C_SWSP,
                ie_imm := swsp_imm inst,
                ie_rs1 := 2, ie_rs2 := ucast (get_bits inst 6 2), ie_writes_rd := False,
                ie_is_store := True, ie_mem_size := 4\<rparr>
         else if funct3 = 7 then d\<lparr>ie_type := I_INVALID\<rparr>
         else d)"

definition decompress :: "DECODE_IN \<Rightarrow> u32 \<Rightarrow> ID_EX" where
  "decompress i inst =
     (let quadrant = get_bits inst 1 0;
          d0 = ID_EX_ctor\<lparr>ie_inst := inst, ie_is_compressed := True, ie_pc := di_if_id_pc i\<rparr>;
          d = (if quadrant = 0 then decompress_q0 inst d0
               else if quadrant = 1 then decompress_q1 inst d0
               else if quadrant = 2 then decompress_q2 inst d0
               else d0\<lparr>ie_type := I_INVALID\<rparr>)
      in d\<lparr>ie_rs1_val := operand i (ie_rs1 d), ie_rs2_val := operand i (ie_rs2 d)\<rparr>)"

subsection \<open>The stage\<close>

definition decode_fault :: "DECODE_IN \<Rightarrow> ID_EX \<Rightarrow> ID_EX" where
  "decode_fault i d =
     (let f = ucast (di_if_id_fault i) :: u32
      in if f = INSTR_ACCESS_FAULT \<or> f = INSTR_PAGE_FAULT
         then d\<lparr>ie_tval := di_if_id_tval i, ie_on_trap := True, ie_cause := f\<rparr>
         else if ie_type d = I_INVALID
         then d\<lparr>ie_on_trap := True, ie_cause := ILLEGAL_INSTR, ie_tval := 0\<rparr>
         else d)"

text \<open>
  The registered outputs: \<^verbatim>\<open>id_ex_port\<close>, \<^verbatim>\<open>id_ex_pc\<close> and \<^verbatim>\<open>id_ex_flush\<close>. The scratch
  value \<^verbatim>\<open>id_ex_tmp\<close> is recomputed from scratch on every edge.
\<close>

record DECODE =
  id_ex_port :: ID_EX
  id_ex_pc :: u32
  id_ex_flush :: bool

definition id_ex_tmp :: "DECODE_IN \<Rightarrow> ID_EX" where
  "id_ex_tmp i =
     (if di_flush i \<or> di_rst i \<or> (di_npc i \<noteq> di_if_id_pc i \<and> \<not> di_stall i)
      then ID_EX_ctor\<lparr>ie_flush := True\<rparr>
      else if \<not> di_stall i
      then (if di_if_id_flush i then ID_EX_ctor\<lparr>ie_flush := True\<rparr>
            else (let inst = di_if_id_inst i;
                      d = (if inst AND 3 = 3 then decode i inst else decompress i (inst AND 0x0000ffff))
                  in (decode_fault i d)\<lparr>ie_flush := False\<rparr>))
      else ID_EX_ctor)"

definition inst_decode_seq :: "DECODE_IN \<Rightarrow> DECODE \<Rightarrow> DECODE" where
  "inst_decode_seq i s =
     (let s1 = (if di_flush i \<or> di_rst i \<or> (di_npc i \<noteq> di_if_id_pc i \<and> \<not> di_stall i)
                then s\<lparr>id_ex_flush := True\<rparr>
                else if \<not> di_stall i then s\<lparr>id_ex_flush := di_if_id_flush i\<rparr>
                else s)
      in if \<not> di_stall i then s1\<lparr>id_ex_port := id_ex_tmp i, id_ex_pc := di_if_id_pc i\<rparr> else s1)"

subsection \<open>Reference encoder\<close>

text \<open>
  The instruction formats of the RISC-V manual, with fields at their own widths. The R
  format is the general one; the others place the bits of an immediate in its fields.
\<close>

definition enc :: "7 word \<Rightarrow> 5 word \<Rightarrow> 5 word \<Rightarrow> 3 word \<Rightarrow> 5 word \<Rightarrow> 7 word \<Rightarrow> u32" where
  "enc f7 rs2 rs1 f3 rd opc =
     push_bit 25 (ucast f7) OR push_bit 20 (ucast rs2) OR push_bit 15 (ucast rs1) OR
     push_bit 12 (ucast f3) OR push_bit 7 (ucast rd) OR ucast opc"

definition enc_I :: "12 word \<Rightarrow> 5 word \<Rightarrow> 3 word \<Rightarrow> 5 word \<Rightarrow> 7 word \<Rightarrow> u32" where
  "enc_I imm rs1 f3 rd opc = enc (ucast (drop_bit 5 imm)) (ucast imm) rs1 f3 rd opc"

definition enc_S :: "12 word \<Rightarrow> 5 word \<Rightarrow> 5 word \<Rightarrow> 3 word \<Rightarrow> 7 word \<Rightarrow> u32" where
  "enc_S imm rs2 rs1 f3 opc = enc (ucast (drop_bit 5 imm)) rs2 rs1 f3 (ucast imm) opc"

text \<open>The branch and jump formats take the offset in halfwords.\<close>

definition enc_B :: "12 word \<Rightarrow> 5 word \<Rightarrow> 5 word \<Rightarrow> 3 word \<Rightarrow> 7 word \<Rightarrow> u32" where
  "enc_B off rs2 rs1 f3 opc =
     enc (push_bit 6 (ucast (drop_bit 11 off)) OR take_bit 6 (ucast (drop_bit 4 off))) rs2 rs1 f3
       (push_bit 1 (take_bit 4 (ucast off)) OR take_bit 1 (ucast (drop_bit 10 off))) opc"

definition enc_U :: "20 word \<Rightarrow> 5 word \<Rightarrow> 7 word \<Rightarrow> u32" where
  "enc_U imm rd opc = push_bit 12 (ucast imm) OR push_bit 7 (ucast rd) OR ucast opc"

definition enc_J :: "20 word \<Rightarrow> 5 word \<Rightarrow> 7 word \<Rightarrow> u32" where
  "enc_J off rd opc =
     push_bit 31 (ucast (drop_bit 19 off)) OR push_bit 21 (take_bit 10 (ucast off)) OR
     push_bit 20 (take_bit 1 (ucast (drop_bit 10 off))) OR
     push_bit 12 (take_bit 8 (ucast (drop_bit 11 off))) OR push_bit 7 (ucast rd) OR ucast opc"

lemma bit_enc:
  "bit (enc f7 rs2 rs1 f3 rd opc) n \<longleftrightarrow>
     (if n < 7 then bit opc n else if n < 12 then bit rd (n - 7) else if n < 15 then bit f3 (n - 12)
      else if n < 20 then bit rs1 (n - 15) else if n < 25 then bit rs2 (n - 20)
      else n < 32 \<and> bit f7 (n - 25))"
  by (auto simp: enc_def bit_simps dest: bit_imp_le_length)

lemma enc_fields [simp]:
  "get_bits (enc f7 rs2 rs1 f3 rd opc) 6 0 = ucast opc"
  "get_bits (enc f7 rs2 rs1 f3 rd opc) 11 7 = ucast rd"
  "get_bits (enc f7 rs2 rs1 f3 rd opc) 14 12 = ucast f3"
  "get_bits (enc f7 rs2 rs1 f3 rd opc) 19 15 = ucast rs1"
  "get_bits (enc f7 rs2 rs1 f3 rd opc) 24 20 = ucast rs2"
  "get_bits (enc f7 rs2 rs1 f3 rd opc) 31 25 = ucast f7"
  by (intro bit_word_eqI; auto simp: bit_get_bits bit_enc bit_simps dest: bit_imp_le_length)+

lemma enc_I_imm [simp]: "get_bits (enc_I imm rs1 f3 rd opc) 31 20 = ucast imm"
  by (intro bit_word_eqI) (auto simp: enc_I_def bit_get_bits bit_enc bit_simps dest: bit_imp_le_length)

lemma sign_extend_ucast:
  fixes imm :: "'a::len word"
  assumes "LENGTH('a) < 32"
  shows "sign_extend (ucast imm) LENGTH('a) = (scast imm :: u32)"
proof -
  have len: "LENGTH('a) = Suc (LENGTH('a) - 1)"
    by simp
  have "(ucast imm :: u32) = take_bit (Suc (LENGTH('a) - 1)) (ucast imm)"
    by (intro bit_word_eqI) (auto simp: bit_simps dest: bit_imp_le_length)
  then have "sign_extend (ucast imm) LENGTH('a) = signed_take_bit (LENGTH('a) - 1) (ucast imm :: u32)"
    using sign_extend_signed_take_bit [of "LENGTH('a) - 1" "ucast imm"] assms len by simp
  also have "\<dots> = scast imm"
    using assms by (intro bit_word_eqI) (auto simp: bit_simps min_def)
  finally show ?thesis .
qed

lemma imm_I: "sign_extend (ucast (imm :: 12 word)) 12 = scast imm"
  using sign_extend_ucast [of imm] by simp

lemma imm_S:
  "sign_extend (push_bit 5 (get_bits (enc_S imm rs2 rs1 f3 opc) 31 25) OR
     get_bits (enc_S imm rs2 rs1 f3 opc) 11 7) 12 = scast imm"
proof -
  have "push_bit 5 (ucast (ucast (drop_bit 5 imm) :: 7 word)) OR ucast (ucast imm :: 5 word) = (ucast imm :: u32)"
    by (intro bit_word_eqI) (auto simp: bit_simps dest: bit_imp_le_length)
  then show ?thesis
    by (simp add: enc_S_def imm_I)
qed

lemma odd_ucast_drop_bit: "odd (ucast (drop_bit k x) :: 'a::len word) \<longleftrightarrow> bit x k"
  for x :: "'b::len word"
  by (simp add: bit_simps flip: bit_0)

lemma scast_halfwords:
  fixes off :: "'a::len word" and w :: u32
  assumes "LENGTH('a) < 31" and "\<And>n. bit w n \<longleftrightarrow> 0 < n \<and> bit off (n - 1)"
  shows "sign_extend w (Suc LENGTH('a)) = 2 * scast off"
proof -
  obtain m where m: "LENGTH('a) = Suc m"
    by (metis len_not_eq_0 not0_implies_Suc)
  have "w = take_bit (Suc LENGTH('a)) w"
    by (intro bit_word_eqI) (auto simp: bit_simps assms(2) dest: bit_imp_le_length)
  then have "sign_extend w (Suc LENGTH('a)) = signed_take_bit LENGTH('a) w"
    using sign_extend_signed_take_bit [of "LENGTH('a)" w] assms(1) by simp
  also have "\<dots> = push_bit 1 (scast off)"
    using assms(1) m by (intro bit_word_eqI) (auto simp: bit_simps bit_times_2 assms(2) min_def split: if_splits)
  finally show ?thesis
    by simp
qed

lemma imm_B:
  fixes w :: u32
  assumes w: "w = enc_B off rs2 rs1 f3 opc"
  shows "sign_extend (push_bit 12 (get_bits w 31 31) OR push_bit 11 (get_bits w 7 7) OR
     push_bit 5 (get_bits w 30 25) OR push_bit 1 (get_bits w 11 8)) 13 = 2 * scast off"
proof -
  let ?v = "push_bit 12 (get_bits w 31 31) OR push_bit 11 (get_bits w 7 7) OR
      push_bit 5 (get_bits w 30 25) OR push_bit 1 (get_bits w 11 8)"
  have "bit ?v n \<longleftrightarrow> 0 < n \<and> bit off (n - 1)" for n
  proof -
    consider "n = 0" | "1 \<le> n" "n < 5" | "5 \<le> n" "n < 11" | "n = 11" | "n = 12" | "12 < n"
      by linarith
    then show ?thesis
      by cases (auto simp: w enc_B_def bit_get_bits bit_enc bit_simps bit_times_2 bit_mod_2 odd_ucast_drop_bit
        dest: bit_imp_le_length)
  qed
  then show ?thesis
    using scast_halfwords [of ?v off] by simp
qed

lemma bit_enc_J:
  "bit (enc_J off rd opc) n \<longleftrightarrow>
     (if n < 7 then bit opc n else if n < 12 then bit rd (n - 7) else if n < 20 then bit off (n - 1)
      else if n = 20 then bit off 10 else if n < 31 then bit off (n - 21) else n = 31 \<and> bit off 19)"
proof -
  consider "n < 7" | "7 \<le> n" "n < 12" | "12 \<le> n" "n < 20" | "n = 20" | "20 < n" "n < 31" | "n = 31" | "31 < n"
    by linarith
  then show ?thesis
    by cases (auto simp: enc_J_def bit_simps bit_mod_2 odd_ucast_drop_bit dest: bit_imp_le_length)
qed

lemma imm_J:
  fixes w :: u32
  assumes w: "w = enc_J off rd opc"
  shows "sign_extend (push_bit 20 (get_bits w 31 31) OR push_bit 12 (get_bits w 19 12) OR
     push_bit 11 (get_bits w 20 20) OR push_bit 1 (get_bits w 30 21)) 21 = 2 * scast off"
proof -
  let ?v = "push_bit 20 (get_bits w 31 31) OR push_bit 12 (get_bits w 19 12) OR
     push_bit 11 (get_bits w 20 20) OR push_bit 1 (get_bits w 30 21)"
  have "bit ?v n \<longleftrightarrow> 0 < n \<and> bit off (n - 1)" for n
  proof -
    consider "n = 0" | "1 \<le> n" "n < 11" | "n = 11" | "12 \<le> n" "n < 20" | "n = 20" | "20 < n"
      by linarith
    then show ?thesis
      by cases (auto simp: w bit_enc_J bit_get_bits bit_simps bit_times_2
        dest: bit_imp_le_length)
  qed
  then show ?thesis
    using scast_halfwords [of ?v off] by simp
qed

lemma enc_J_fields [simp]:
  "get_bits (enc_J off rd opc) 6 0 = ucast opc" "get_bits (enc_J off rd opc) 11 7 = ucast rd"
  by (intro bit_word_eqI; auto simp: bit_enc_J bit_get_bits bit_simps dest: bit_imp_le_length)+

lemma enc_U_fields [simp]:
  "get_bits (enc_U imm rd opc) 6 0 = ucast opc" "get_bits (enc_U imm rd opc) 11 7 = ucast rd"
  by (intro bit_word_eqI; auto simp: enc_U_def bit_get_bits bit_simps dest: bit_imp_le_length)+

lemma imm_U: "enc_U imm rd opc AND 0xFFFFF000 = push_bit 12 (ucast imm)"
proof -
  have eq: "(0xFFFFF000 :: u32) = NOT (mask 12)"
    by (simp add: mask_eq_exp_minus_1)
  show ?thesis
    unfolding eq
  proof (rule bit_word_eqI)
    fix n :: nat
    assume "n < LENGTH(32)"
    then show "bit (enc_U imm rd opc AND NOT (mask 12)) n \<longleftrightarrow> bit (push_bit 12 (ucast imm) :: u32) n"
      unfolding bit_and_iff bit_not_iff bit_mask_iff
      by (cases "n < 12") (auto simp: enc_U_def bit_simps dest: bit_imp_le_length)
  qed
qed

subsection \<open>Assembly, encoding and decoding\<close>

text \<open>
  An assembly instruction names the operation and its operands; \<open>encode\<close> is the table of the
  manual for RV32IMA with Zicsr, Zifencei and the privileged instructions.
\<close>

datatype (plugins only: ) asm =
  A_R InstrType "5 word" "5 word" "5 word"
| A_I InstrType "5 word" "5 word" "12 word"
| A_Shift InstrType "5 word" "5 word" "5 word"
| A_S InstrType "5 word" "5 word" "12 word"
| A_B InstrType "5 word" "5 word" "12 word"
| A_U InstrType "5 word" "20 word"
| A_J "5 word" "20 word"
| A_Amo InstrType "2 word" "5 word" "5 word" "5 word"
| A_Csr InstrType "5 word" "5 word" "12 word"
| A_Sys InstrType

definition r_table :: "(InstrType \<times> 7 word \<times> 3 word) list" where
  "r_table = [(I_ADD, 0, 0), (I_SUB, 0x20, 0), (I_SLL, 0, 1), (I_SLT, 0, 2), (I_SLTU, 0, 3),
     (I_XOR, 0, 4), (I_SRL, 0, 5), (I_SRA, 0x20, 5), (I_OR, 0, 6), (I_AND, 0, 7), (I_MUL, 1, 0),
     (I_MULH, 1, 1), (I_MULHSU, 1, 2), (I_MULHU, 1, 3), (I_DIV, 1, 4), (I_DIVU, 1, 5),
     (I_REM, 1, 6), (I_REMU, 1, 7)]"

definition i_table :: "(InstrType \<times> 3 word \<times> 7 word) list" where
  "i_table = [(I_ADDI, 0, 0x13), (I_SLTI, 2, 0x13), (I_SLTIU, 3, 0x13), (I_XORI, 4, 0x13),
     (I_ORI, 6, 0x13), (I_ANDI, 7, 0x13), (I_LB, 0, 0x03), (I_LH, 1, 0x03), (I_LW, 2, 0x03),
     (I_LBU, 4, 0x03), (I_LHU, 5, 0x03), (I_JALR, 0, 0x67)]"

definition shift_table :: "(InstrType \<times> 7 word \<times> 3 word) list" where
  "shift_table = [(I_SLLI, 0, 1), (I_SRLI, 0, 5), (I_SRAI, 0x20, 5)]"

definition s_table :: "(InstrType \<times> 3 word) list" where
  "s_table = [(I_SB, 0), (I_SH, 1), (I_SW, 2)]"

definition b_table :: "(InstrType \<times> 3 word) list" where
  "b_table = [(I_BEQ, 0), (I_BNE, 1), (I_BLT, 4), (I_BGE, 5), (I_BLTU, 6), (I_BGEU, 7)]"

definition u_table :: "(InstrType \<times> 7 word) list" where
  "u_table = [(I_LUI, 0x37), (I_AUIPC, 0x17)]"

definition amo_table :: "(InstrType \<times> 5 word \<times> u8) list" where
  "amo_table = [(I_LR_W, 2, 0), (I_SC_W, 3, 1), (I_AMOSWAP_W, 1, 2), (I_AMOADD_W, 0, 3),
     (I_AMOXOR_W, 4, 4), (I_AMOAND_W, 0xc, 5), (I_AMOOR_W, 8, 6), (I_AMOMIN_W, 0x10, 7),
     (I_AMOMAX_W, 0x14, 8), (I_AMOMINU_W, 0x18, 9), (I_AMOMAXU_W, 0x1c, 10)]"

definition csr_table :: "(InstrType \<times> 3 word) list" where
  "csr_table = [(I_CSRRW, 1), (I_CSRRS, 2), (I_CSRRC, 3), (I_CSRRWI, 5), (I_CSRRSI, 6), (I_CSRRCI, 7)]"

definition sys_table :: "(InstrType \<times> 12 word) list" where
  "sys_table = [(I_ECALL, 0), (I_EBREAK, 1), (I_WFI, 0x105), (I_SRET, 0x102), (I_MRET, 0x302)]"

lemmas table_defs = r_table_def i_table_def shift_table_def s_table_def b_table_def u_table_def
  amo_table_def csr_table_def sys_table_def

fun encodes :: "asm \<Rightarrow> u32 \<Rightarrow> bool" where
  "encodes (A_R t rd rs1 rs2) w \<longleftrightarrow>
     list_ex (\<lambda>(t', f7, f3). t = t' \<and> w = enc f7 rs2 rs1 f3 rd 0x33) r_table"
| "encodes (A_I t rd rs1 imm) w \<longleftrightarrow> list_ex (\<lambda>(t', f3, opc). t = t' \<and> w = enc_I imm rs1 f3 rd opc) i_table"
| "encodes (A_Shift t rd rs1 sh) w \<longleftrightarrow>
     list_ex (\<lambda>(t', f7, f3). t = t' \<and> w = enc f7 sh rs1 f3 rd 0x13) shift_table"
| "encodes (A_S t rs1 rs2 imm) w \<longleftrightarrow> list_ex (\<lambda>(t', f3). t = t' \<and> w = enc_S imm rs2 rs1 f3 0x23) s_table"
| "encodes (A_B t rs1 rs2 off) w \<longleftrightarrow> list_ex (\<lambda>(t', f3). t = t' \<and> w = enc_B off rs2 rs1 f3 0x63) b_table"
| "encodes (A_U t rd imm) w \<longleftrightarrow> list_ex (\<lambda>(t', opc). t = t' \<and> w = enc_U imm rd opc) u_table"
| "encodes (A_J rd off) w \<longleftrightarrow> w = enc_J off rd 0x6f"
| "encodes (A_Amo t aqrl rd rs1 rs2) w \<longleftrightarrow>
     list_ex (\<lambda>(t', f5, _). t = t' \<and> w = enc (push_bit 2 (ucast f5) OR ucast aqrl) rs2 rs1 2 rd 0x2f) amo_table"
| "encodes (A_Csr t rd rs1 csr) w \<longleftrightarrow> list_ex (\<lambda>(t', f3). t = t' \<and> w = enc_I csr rs1 f3 rd 0x73) csr_table"
| "encodes (A_Sys t) w \<longleftrightarrow> list_ex (\<lambda>(t', f12). t = t' \<and> w = enc_I f12 0 0 0 0x73) sys_table"

text \<open>What the decoder has to say about an instruction.\<close>

definition reads :: "DECODE_IN \<Rightarrow> 5 word \<Rightarrow> u32" where
  "reads i r = operand i (ucast r)"

definition writes :: "ID_EX \<Rightarrow> 5 word \<Rightarrow> bool" where
  "writes d rd \<longleftrightarrow> ie_rd d = ucast rd \<and> ie_writes_rd d = (rd \<noteq> 0)"

text \<open>The memory access an operation makes (load, store, bytes); an atomic is flagged apart.\<close>

definition access_of :: "InstrType \<Rightarrow> bool \<times> bool \<times> u8" where
  "access_of t =
     (if t = I_LB \<or> t = I_LBU then (True, False, 1)
      else if t = I_LH \<or> t = I_LHU then (True, False, 2)
      else if t = I_LW then (True, False, 4)
      else if t = I_SB then (False, True, 1)
      else if t = I_SH then (False, True, 2)
      else if t = I_SW then (False, True, 4)
      else (False, False, if list_ex (\<lambda>(t', _). t = t') amo_table then 4 else 0))"

definition plain :: "ID_EX \<Rightarrow> InstrType \<Rightarrow> bool" where
  "plain d t \<longleftrightarrow> ie_type d = t \<and> \<not> ie_on_trap d \<and>
     (ie_is_load d, ie_is_store d, ie_mem_size d) = access_of t"

fun decoded :: "DECODE_IN \<Rightarrow> asm \<Rightarrow> ID_EX \<Rightarrow> bool" where
  "decoded i (A_R t rd rs1 rs2) d \<longleftrightarrow> plain d t \<and> writes d rd \<and> ie_rs1_val d = reads i rs1 \<and>
     ie_rs2_val d = reads i rs2"
| "decoded i (A_I t rd rs1 imm) d \<longleftrightarrow> plain d t \<and> writes d rd \<and> ie_rs1_val d = reads i rs1 \<and>
     ie_imm d = scast imm"
| "decoded i (A_Shift t rd rs1 sh) d \<longleftrightarrow> plain d t \<and> writes d rd \<and> ie_rs1_val d = reads i rs1 \<and>
     ie_imm d AND 0x1f = ucast sh"
| "decoded i (A_S t rs1 rs2 imm) d \<longleftrightarrow> plain d t \<and> \<not> ie_writes_rd d \<and>
     ie_rs1_val d = reads i rs1 \<and> ie_rs2_val d = reads i rs2 \<and> ie_imm d = scast imm"
| "decoded i (A_B t rs1 rs2 off) d \<longleftrightarrow> plain d t \<and> \<not> ie_writes_rd d \<and>
     ie_rs1_val d = reads i rs1 \<and> ie_rs2_val d = reads i rs2 \<and> ie_imm d = 2 * scast off"
| "decoded i (A_U t rd imm) d \<longleftrightarrow> plain d t \<and> writes d rd \<and> ie_imm d = push_bit 12 (ucast imm)"
| "decoded i (A_J rd off) d \<longleftrightarrow> plain d I_JAL \<and> writes d rd \<and> ie_imm d = 2 * scast off"
| "decoded i (A_Amo t aqrl rd rs1 rs2) d \<longleftrightarrow> plain d t \<and> writes d rd \<and> ie_is_atomic d \<and>
     list_ex (\<lambda>(t', f5, op). t = t' \<and> ie_amo_type d = op) amo_table \<and>
     ie_rs1_val d = reads i rs1 \<and> ie_rs2_val d = reads i rs2"
| "decoded i (A_Csr t rd rs1 csr) d \<longleftrightarrow> plain d t \<and> writes d rd \<and> ie_is_csr d \<and>
     ie_csr_addr d = ucast csr \<and> ie_rs1 d = ucast rs1 \<and>
     ie_csr_val d = (if t = I_CSRRW \<or> t = I_CSRRS \<or> t = I_CSRRC then reads i rs1 else ucast rs1)"
| "decoded i (A_Sys t) d \<longleftrightarrow> plain d t \<and> \<not> ie_writes_rd d"

lemma ucast_ucast_u8 [simp]: "(ucast (ucast (r :: 5 word) :: u32) :: u8) = ucast r"
  by (intro bit_word_eqI) (auto simp: bit_simps)

lemma ucast_5_eq_0 [simp]: "(ucast (r :: 5 word) :: u32) = 0 \<longleftrightarrow> r = 0"
proof
  assume "(ucast r :: u32) = 0"
  then have "(ucast (ucast r :: u32) :: 5 word) = 0"
    by simp
  moreover have "(ucast (ucast r :: u32) :: 5 word) = r"
    by (intro bit_word_eqI) (auto simp: bit_simps)
  ultimately show "r = 0"
    by simp
qed simp

lemma dec_common_simps [simp]:
  "ie_type (dec_common i w) = I_NOP" "ie_rd (dec_common i w) = ucast (get_bits w 11 7)"
  "ie_rs1 (dec_common i w) = ucast (get_bits w 19 15)"
  "ie_rs1_val (dec_common i w) = operand i (ucast (get_bits w 19 15))"
  "ie_rs2_val (dec_common i w) = operand i (ucast (get_bits w 24 20))"
  "\<not> ie_writes_rd (dec_common i w)" "\<not> ie_is_load (dec_common i w)" "\<not> ie_is_store (dec_common i w)"
  "ie_mem_size (dec_common i w) = 0" "\<not> ie_on_trap (dec_common i w)"
  by (simp_all add: dec_common_def ID_EX_ctor_def Let_def)

text \<open>The opcode alone selects the group.\<close>

lemma decode_group:
  "get_bits w 6 0 = 0x37 \<Longrightarrow> decode i w = (dec_common i w)\<lparr>ie_type := I_LUI,
     ie_imm := w AND 0xFFFFF000, ie_writes_rd := get_bits w 11 7 \<noteq> 0\<rparr>"
  "get_bits w 6 0 = 0x17 \<Longrightarrow> decode i w = (dec_common i w)\<lparr>ie_type := I_AUIPC,
     ie_imm := w AND 0xFFFFF000, ie_writes_rd := get_bits w 11 7 \<noteq> 0\<rparr>"
  "get_bits w 6 0 = 0x13 \<Longrightarrow> decode i w = dec_op_imm w (dec_common i w)"
  "get_bits w 6 0 = 0x33 \<Longrightarrow> decode i w = dec_op w (dec_common i w)"
  "get_bits w 6 0 = 0x03 \<Longrightarrow> decode i w = dec_load w (dec_common i w)"
  "get_bits w 6 0 = 0x23 \<Longrightarrow> decode i w = dec_store w (dec_common i w)"
  "get_bits w 6 0 = 0x6f \<Longrightarrow> decode i w = dec_jal w (dec_common i w)"
  "get_bits w 6 0 = 0x67 \<Longrightarrow> decode i w = dec_jalr w (dec_common i w)"
  "get_bits w 6 0 = 0x63 \<Longrightarrow> decode i w = dec_branch w (dec_common i w)"
  "get_bits w 6 0 = 0x73 \<Longrightarrow> decode i w = dec_system w (dec_common i w)"
  "get_bits w 6 0 = 0x0f \<Longrightarrow> decode i w = dec_fence w (dec_common i w)"
  "get_bits w 6 0 = 0x2f \<Longrightarrow> decode i w = dec_amo w (dec_common i w)"
  by (simp_all add: decode_def)

lemma enc_I_fields [simp]:
  "get_bits (enc_I imm rs1 f3 rd opc) 6 0 = ucast opc" "get_bits (enc_I imm rs1 f3 rd opc) 11 7 = ucast rd"
  "get_bits (enc_I imm rs1 f3 rd opc) 14 12 = ucast f3" "get_bits (enc_I imm rs1 f3 rd opc) 19 15 = ucast rs1"
  by (simp_all add: enc_I_def)

lemma enc_I_f7: "get_bits (enc_I imm rs1 f3 rd opc) 31 25 = ucast (ucast (drop_bit 5 imm) :: 7 word)"
  by (simp add: enc_I_def)

lemma enc_SB_fields [simp]:
  "get_bits (enc_S imm rs2 rs1 f3 opc) 6 0 = ucast opc" "get_bits (enc_S imm rs2 rs1 f3 opc) 14 12 = ucast f3"
  "get_bits (enc_S imm rs2 rs1 f3 opc) 19 15 = ucast rs1" "get_bits (enc_S imm rs2 rs1 f3 opc) 24 20 = ucast rs2"
  "get_bits (enc_B off rs2 rs1 f3 opc) 6 0 = ucast opc" "get_bits (enc_B off rs2 rs1 f3 opc) 14 12 = ucast f3"
  "get_bits (enc_B off rs2 rs1 f3 opc) 19 15 = ucast rs1" "get_bits (enc_B off rs2 rs1 f3 opc) 24 20 = ucast rs2"
  by (simp_all add: enc_S_def enc_B_def)

lemmas plain_defs = plain_def access_of_def amo_table_def

lemmas imm_BJ = imm_B [OF refl, simplified] imm_J [OF refl, simplified]

lemma decode_R:
  assumes "encodes (A_R t rd rs1 rs2) w"
  shows "decoded i (A_R t rd rs1 rs2) (decode i w)"
proof -
  obtain f7 f3 where w: "w = enc f7 rs2 rs1 f3 rd 0x33" and row: "(t, f7, f3) \<in> set r_table"
    using assms by (auto simp: list_ex_iff)
  have "list_all (\<lambda>(t, f7, f3). op_type (push_bit 3 (ucast f7) OR ucast f3) = t) r_table"
    by (simp add: r_table_def op_type_def)
  then have "op_type (push_bit 3 (ucast f7) OR ucast f3) = t"
    using row by (auto simp: list_all_iff)
  moreover have "list_all (\<lambda>(t, f7, f3). access_of t = (False, False, 0)) r_table"
    by (simp add: r_table_def access_of_def amo_table_def)
  then have "access_of t = (False, False, 0)"
    using row by (auto simp: list_all_iff)
  ultimately show ?thesis
    by (simp add: w decode_group dec_op_def Let_def writes_def reads_def plain_def)
qed

lemma decode_I:
  assumes "encodes (A_I t rd rs1 imm) w"
  shows "decoded i (A_I t rd rs1 imm) (decode i w)"
  using assms by (simp add: i_table_def; elim disjE)
    (simp_all add: decode_group dec_op_imm_def dec_load_def dec_jalr_def Let_def plain_defs writes_def reads_def imm_I)

lemma decode_S:
  assumes "encodes (A_S t rs1 rs2 imm) w"
  shows "decoded i (A_S t rs1 rs2 imm) (decode i w)"
  using assms by (simp add: s_table_def; elim disjE)
    (simp_all add: decode_group dec_store_def Let_def plain_defs reads_def imm_S)

lemma decode_B:
  assumes "encodes (A_B t rs1 rs2 off) w"
  shows "decoded i (A_B t rs1 rs2 off) (decode i w)"
  using assms by (simp add: b_table_def; elim disjE)
    (simp_all add: decode_group dec_branch_def Let_def plain_defs reads_def imm_BJ)

lemma decode_U_J:
  "encodes (A_U t rd imm) w \<Longrightarrow> decoded i (A_U t rd imm) (decode i w)"
  "encodes (A_J rd off) w \<Longrightarrow> decoded i (A_J rd off) (decode i w)"
  by (auto simp: u_table_def decode_group imm_U dec_jal_def imm_BJ plain_defs writes_def)

lemma decode_Shift:
  assumes "encodes (A_Shift t rd rs1 sh) w"
  shows "decoded i (A_Shift t rd rs1 sh) (decode i w)"
proof -
  obtain f7 f3 where w: "w = enc f7 sh rs1 f3 rd 0x13" and row: "(t, f7, f3) \<in> set shift_table"
    using assms by (auto simp: list_ex_iff)
  have imm: "get_bits w 31 20 = push_bit 5 (ucast f7) OR ucast sh"
    by (intro bit_word_eqI) (auto simp: w bit_get_bits bit_enc bit_simps dest: bit_imp_le_length)
  have tb: "take_bit 12 (get_bits w 31 20) = get_bits w 31 20"
    by (intro bit_word_eqI) (auto simp: bit_get_bits bit_simps)
  have se: "sign_extend (get_bits w 31 20) 12 = signed_take_bit 11 (get_bits w 31 20)"
    using sign_extend_signed_take_bit [of 11 "get_bits w 31 20"] tb by simp
  have "signed_take_bit 11 (get_bits w 31 20) AND mask 5 = ucast sh"
    unfolding imm by (intro bit_word_eqI) (auto simp: bit_simps min_def dest: bit_imp_le_length)
  then have low: "sign_extend (get_bits w 31 20) 12 AND 0x1f = ucast sh"
    unfolding se by (simp add: mask_eq_exp_minus_1)
  have "signed_take_bit 11 (get_bits w 31 20) = ucast sh" if "f7 = 0"
    unfolding imm that by (intro bit_word_eqI) (auto simp: bit_simps min_def dest: bit_imp_le_length)
  then have small: "sign_extend (get_bits w 31 20) 12 = ucast sh" if "f7 = 0"
    unfolding se using that by blast
  have le: "\<not> (31 :: u32) < ucast sh"
    using ucast_bound [of sh, where 'a = 32] by (simp add: word_less_nat_alt not_less)
  show ?thesis
    using row low small le
    by (auto simp: shift_table_def w decode_group dec_op_imm_def Let_def plain_defs writes_def reads_def)
qed

lemma decode_Amo:
  assumes "encodes (A_Amo t aqrl rd rs1 rs2) w"
  shows "decoded i (A_Amo t aqrl rd rs1 rs2) (decode i w)"
proof -
  obtain f5 op where w: "w = enc (push_bit 2 (ucast f5) OR ucast aqrl) rs2 rs1 2 rd 0x2f"
    and row: "(t, f5, op) \<in> set amo_table"
    using assms by (auto simp: list_ex_iff)
  have f5: "drop_bit 2 (get_bits w 31 25) = ucast f5"
    unfolding w enc_fields by (intro bit_word_eqI) (auto simp: bit_simps dest: bit_imp_le_length)
  have fields: "get_bits w 6 0 = 0x2f" "get_bits w 14 12 = 2" "get_bits w 11 7 = ucast rd"
    "get_bits w 19 15 = ucast rs1" "get_bits w 24 20 = ucast rs2"
    by (simp_all add: w)
  show ?thesis
    using row by (simp add: amo_table_def; elim disjE)
      (simp_all add: plain_defs decode_group dec_amo_def Let_def writes_def reads_def f5 fields)
qed

lemma decode_Csr:
  assumes "encodes (A_Csr t rd rs1 csr) w"
  shows "decoded i (A_Csr t rd rs1 csr) (decode i w)"
proof -
  have csr: "(ucast (ucast csr :: u32) :: u16) = ucast csr"
    by (intro bit_word_eqI) (auto simp: bit_simps)
  have "ucast (ucast rs1 AND mask 5 :: u8) = (ucast rs1 :: u32)"
    by (intro bit_word_eqI) (auto simp: bit_simps dest: bit_imp_le_length)
  then have u: "ucast (ucast rs1 AND (0x1f :: u8)) = (ucast rs1 :: u32)"
    by (simp add: mask_eq_exp_minus_1)
  show ?thesis
    using assms by (simp add: csr_table_def; elim disjE)
      (simp_all add: decode_group dec_system_def dec_csr_def Let_def plain_defs writes_def reads_def csr u)
qed

lemma decode_Sys:
  assumes "encodes (A_Sys t) w"
  shows "decoded i (A_Sys t) (decode i w)"
  using assms by (simp add: sys_table_def; elim disjE)
    (simp_all add: decode_group dec_system_def Let_def plain_defs enc_I_f7)



end
