(* ===== verification/Compressed.thy ===== *)
theory Compressed
  imports Decode
begin

unbundle bit_operations_syntax

text \<open>
  Correctness of the decompressor of \<^verbatim>\<open>src/src/decode.hpp\<close>: a 16-bit instruction is
  decoded exactly like the 32-bit instruction the manual expands it to. The encodings are
  given bit by bit, least significant first, as in the tables of the manual.
\<close>

subsection \<open>Bit lists\<close>

definition cword :: "bool list \<Rightarrow> u32" where
  "cword bs = horner_sum of_bool 2 bs"

lemma bit_cword: "bit (cword bs) n \<longleftrightarrow> n < 32 \<and> n < length bs \<and> bs ! n"
  by (simp add: cword_def bit_horner_sum_bit_word_iff)

lemma cword_Cons: "cword (b # bs) = of_bool b + 2 * cword bs" and cword_Nil: "cword [] = 0"
  by (simp_all add: cword_def)

lemma get_bits_cword:
  assumes "length bs \<le> 32"
  shows "get_bits (cword bs) hi lo = cword (take (hi - lo + 1) (drop lo bs))"
  using assms by (intro bit_word_eqI) (auto simp: bit_get_bits bit_cword)

definition r3 :: "3 word \<Rightarrow> bool list" where
  "r3 r = [bit r 0, bit r 1, bit r 2]"

definition r5 :: "5 word \<Rightarrow> bool list" where
  "r5 r = [bit r 0, bit r 1, bit r 2, bit r 3, bit r 4]"

lemma cword_r3 [simp]: "cword (r3 r) = ucast r"
proof (rule bit_word_eqI)
  fix n :: nat
  assume "n < LENGTH(32)"
  consider "n = 0" | "n = 1" | "n = 2" | "3 \<le> n"
    by linarith
  then show "bit (cword (r3 r)) n \<longleftrightarrow> bit (ucast r :: u32) n"
    by cases (auto simp: bit_cword r3_def bit_simps dest: bit_imp_le_length simp flip: bit_0)
qed

lemma cword_r5 [simp]: "cword (r5 r) = ucast r"
proof (rule bit_word_eqI)
  fix n :: nat
  assume "n < LENGTH(32)"
  consider "n = 0" | "n = 1" | "n = 2" | "n = 3" | "n = 4" | "5 \<le> n"
    by linarith
  then show "bit (cword (r5 r)) n \<longleftrightarrow> bit (ucast r :: u32) n"
    by cases (auto simp: bit_cword r5_def bit_simps dest: bit_imp_le_length simp flip: bit_0)
qed

lemma length_r3_r5 [simp]: "length (r3 r) = 3" "length (r5 q) = 5"
  by (simp_all add: r3_def r5_def)

subsection \<open>Compressed assembly\<close>

datatype (plugins only: ) casm =
  K_ADDI4SPN "3 word" "8 word"
| K_LW "3 word" "3 word" "5 word"
| K_SW "3 word" "3 word" "5 word"
| K_ADDI "5 word" "6 word"
| K_JAL "11 word"
| K_LI "5 word" "6 word"
| K_ADDI16SP "6 word"
| K_LUI "5 word" "6 word"
| K_SRLI "3 word" "5 word"
| K_SRAI "3 word" "5 word"
| K_ANDI "3 word" "6 word"
| K_SUB "3 word" "3 word"
| K_XOR "3 word" "3 word"
| K_OR "3 word" "3 word"
| K_AND "3 word" "3 word"
| K_J "11 word"
| K_BEQZ "3 word" "8 word"
| K_BNEZ "3 word" "8 word"
| K_SLLI "5 word" "5 word"
| K_LWSP "5 word" "6 word"
| K_JR "5 word"
| K_MV "5 word" "5 word"
| K_EBREAK
| K_JALR "5 word"
| K_ADD "5 word" "5 word"
| K_SWSP "5 word" "6 word"

text \<open>
  A 16-bit word by fields: quadrant (bits 1:0), bits 6:2, bits 11:7, bit 12 and
  \<^verbatim>\<open>funct3\<close> (bits 15:13).
\<close>

definition cform :: "bool list \<Rightarrow> bool list \<Rightarrow> bool list \<Rightarrow> bool \<Rightarrow> bool list \<Rightarrow> u32" where
  "cform q y x b f = cword (q @ y @ x @ b # f)"

definition ci_lo :: "6 word \<Rightarrow> bool list" where
  "ci_lo k = [bit k 0, bit k 1, bit k 2, bit k 3, bit k 4]"

definition cj_lo :: "11 word \<Rightarrow> bool list" where
  "cj_lo f = [bit f 4, bit f 0, bit f 1, bit f 2, bit f 6]"

definition cj_hi :: "11 word \<Rightarrow> bool list" where
  "cj_hi f = [bit f 5, bit f 9, bit f 7, bit f 8, bit f 3]"

definition cb_hi :: "8 word \<Rightarrow> bool list" where
  "cb_hi f = [bit f 2, bit f 3]"

definition ls_lo :: "5 word \<Rightarrow> bool list" where
  "ls_lo u = [bit u 4, bit u 0]"

definition ls_hi :: "5 word \<Rightarrow> bool list" where
  "ls_hi u = [bit u 1, bit u 2]"

definition spn_lo :: "8 word \<Rightarrow> bool list" where
  "spn_lo u = [bit u 1, bit u 0]"

definition spn_hi :: "8 word \<Rightarrow> bool list" where
  "spn_hi u = [bit u 4, bit u 5, bit u 6, bit u 7, bit u 2]"

definition sp16 :: "6 word \<Rightarrow> bool list" where
  "sp16 k = [bit k 1, bit k 3, bit k 4, bit k 2, bit k 0]"

definition sp_lo :: "6 word \<Rightarrow> bool list" where
  "sp_lo u = [bit u 4, bit u 5, bit u 0, bit u 1, bit u 2]"

definition cb_lo :: "8 word \<Rightarrow> bool list" where
  "cb_lo f = [bit f 4, bit f 0, bit f 1, bit f 5, bit f 6]"

fun cenc :: "casm \<Rightarrow> u32" where
  "cenc (K_ADDI4SPN rd u) = cform [False, False] (r3 rd @ spn_lo u) (spn_hi u) (bit u 3) [False, False, False]"
| "cenc (K_LW rd rs1 u) = cform [False, False] (r3 rd @ ls_lo u) (r3 rs1 @ ls_hi u) (bit u 3) [False, True, False]"
| "cenc (K_SW rs2 rs1 u) = cform [False, False] (r3 rs2 @ ls_lo u) (r3 rs1 @ ls_hi u) (bit u 3) [False, True, True]"
| "cenc (K_ADDI rd k) = cform [True, False] (ci_lo k) (r5 rd) (bit k 5) [False, False, False]"
| "cenc (K_JAL f) = cform [True, False] (cj_lo f) (cj_hi f) (bit f 10) [True, False, False]"
| "cenc (K_LI rd k) = cform [True, False] (ci_lo k) (r5 rd) (bit k 5) [False, True, False]"
| "cenc (K_ADDI16SP k) = cform [True, False] (sp16 k) [False, True, False, False, False] (bit k 5) [True, True, False]"
| "cenc (K_LUI rd k) = cform [True, False] (ci_lo k) (r5 rd) (bit k 5) [True, True, False]"
| "cenc (K_SRLI rd sh) = cform [True, False] (r5 sh) (r3 rd @ [False, False]) False [False, False, True]"
| "cenc (K_SRAI rd sh) = cform [True, False] (r5 sh) (r3 rd @ [True, False]) False [False, False, True]"
| "cenc (K_ANDI rd k) = cform [True, False] (ci_lo k) (r3 rd @ [False, True]) (bit k 5) [False, False, True]"
| "cenc (K_SUB rd rs2) = cform [True, False] (r3 rs2 @ [False, False]) (r3 rd @ [True, True]) False [False, False, True]"
| "cenc (K_XOR rd rs2) = cform [True, False] (r3 rs2 @ [True, False]) (r3 rd @ [True, True]) False [False, False, True]"
| "cenc (K_OR rd rs2) = cform [True, False] (r3 rs2 @ [False, True]) (r3 rd @ [True, True]) False [False, False, True]"
| "cenc (K_AND rd rs2) = cform [True, False] (r3 rs2 @ [True, True]) (r3 rd @ [True, True]) False [False, False, True]"
| "cenc (K_J f) = cform [True, False] (cj_lo f) (cj_hi f) (bit f 10) [True, False, True]"
| "cenc (K_BEQZ rs1 f) = cform [True, False] (cb_lo f) (r3 rs1 @ cb_hi f) (bit f 7) [False, True, True]"
| "cenc (K_BNEZ rs1 f) = cform [True, False] (cb_lo f) (r3 rs1 @ cb_hi f) (bit f 7) [True, True, True]"
| "cenc (K_SLLI rd sh) = cform [False, True] (r5 sh) (r5 rd) False [False, False, False]"
| "cenc (K_LWSP rd u) = cform [False, True] (sp_lo u) (r5 rd) (bit u 3) [False, True, False]"
| "cenc (K_JR rs1) = cform [False, True] (r5 0) (r5 rs1) False [False, False, True]"
| "cenc (K_MV rd rs2) = cform [False, True] (r5 rs2) (r5 rd) False [False, False, True]"
| "cenc K_EBREAK = cform [False, True] (r5 0) (r5 0) True [False, False, True]"
| "cenc (K_JALR rs1) = cform [False, True] (r5 0) (r5 rs1) True [False, False, True]"
| "cenc (K_ADD rd rs2) = cform [False, True] (r5 rs2) (r5 rd) True [False, False, True]"
| "cenc (K_SWSP rs2 u) = cform [False, True] (r5 rs2) (sp_lo u) (bit u 3) [False, True, True]"

definition cr :: "3 word \<Rightarrow> 5 word" where
  "cr r = 8 + ucast r"

text \<open>The expansion of the manual.\<close>

fun expand :: "casm \<Rightarrow> asm" where
  "expand (K_ADDI4SPN rd u) = A_I I_ADDI (cr rd) 2 (4 * ucast u)"
| "expand (K_LW rd rs1 u) = A_I I_LW (cr rd) (cr rs1) (4 * ucast u)"
| "expand (K_SW rs2 rs1 u) = A_S I_SW (cr rs1) (cr rs2) (4 * ucast u)"
| "expand (K_ADDI rd k) = A_I I_ADDI rd rd (scast k)"
| "expand (K_JAL f) = A_J 1 (scast f)"
| "expand (K_LI rd k) = A_I I_ADDI rd 0 (scast k)"
| "expand (K_ADDI16SP k) = A_I I_ADDI 2 2 (16 * scast k)"
| "expand (K_LUI rd k) = A_U I_LUI rd (scast k)"
| "expand (K_SRLI rd sh) = A_Shift I_SRLI (cr rd) (cr rd) sh"
| "expand (K_SRAI rd sh) = A_Shift I_SRAI (cr rd) (cr rd) sh"
| "expand (K_ANDI rd k) = A_I I_ANDI (cr rd) (cr rd) (scast k)"
| "expand (K_SUB rd rs2) = A_R I_SUB (cr rd) (cr rd) (cr rs2)"
| "expand (K_XOR rd rs2) = A_R I_XOR (cr rd) (cr rd) (cr rs2)"
| "expand (K_OR rd rs2) = A_R I_OR (cr rd) (cr rd) (cr rs2)"
| "expand (K_AND rd rs2) = A_R I_AND (cr rd) (cr rd) (cr rs2)"
| "expand (K_J f) = A_J 0 (scast f)"
| "expand (K_BEQZ rs1 f) = A_B I_BEQ (cr rs1) 0 (scast f)"
| "expand (K_BNEZ rs1 f) = A_B I_BNE (cr rs1) 0 (scast f)"
| "expand (K_SLLI rd sh) = A_Shift I_SLLI rd rd sh"
| "expand (K_LWSP rd u) = A_I I_LW rd 2 (4 * ucast u)"
| "expand (K_JR rs1) = A_I I_JALR 0 rs1 0"
| "expand (K_MV rd rs2) = A_R I_ADD rd 0 rs2"
| "expand K_EBREAK = A_Sys I_EBREAK"
| "expand (K_JALR rs1) = A_I I_JALR 1 rs1 0"
| "expand (K_ADD rd rs2) = A_R I_ADD rd rd rs2"
| "expand (K_SWSP rs2 u) = A_S I_SW 2 rs2 (4 * ucast u)"

text \<open>Encodings the manual reserves or gives to hints and to other instructions are excluded.\<close>

fun cvalid :: "casm \<Rightarrow> bool" where
  "cvalid (K_ADDI4SPN rd u) \<longleftrightarrow> u \<noteq> 0"
| "cvalid (K_ADDI rd k) \<longleftrightarrow> rd \<noteq> 0"
| "cvalid (K_LI rd k) \<longleftrightarrow> rd \<noteq> 0"
| "cvalid (K_ADDI16SP k) \<longleftrightarrow> k \<noteq> 0"
| "cvalid (K_LUI rd k) \<longleftrightarrow> rd \<noteq> 0 \<and> rd \<noteq> 2 \<and> k \<noteq> 0"
| "cvalid (K_SLLI rd sh) \<longleftrightarrow> rd \<noteq> 0"
| "cvalid (K_LWSP rd u) \<longleftrightarrow> rd \<noteq> 0"
| "cvalid (K_JR rs1) \<longleftrightarrow> rs1 \<noteq> 0"
| "cvalid (K_MV rd rs2) \<longleftrightarrow> rd \<noteq> 0 \<and> rs2 \<noteq> 0"
| "cvalid (K_JALR rs1) \<longleftrightarrow> rs1 \<noteq> 0"
| "cvalid (K_ADD rd rs2) \<longleftrightarrow> rd \<noteq> 0 \<and> rs2 \<noteq> 0"
| "cvalid _ \<longleftrightarrow> True"

subsection \<open>Fields and immediates\<close>

lemmas cfield_defs = ci_lo_def cj_lo_def cj_hi_def cb_lo_def cb_hi_def ls_lo_def ls_hi_def
  spn_lo_def spn_hi_def sp16_def sp_lo_def

lemma length_cfields [simp]:
  "length (ci_lo k) = 5" "length (cj_lo f) = 5" "length (cj_hi f) = 5" "length (cb_lo g) = 5"
  "length (cb_hi g) = 2" "length (ls_lo u) = 2" "length (ls_hi u) = 2" "length (spn_lo v) = 2"
  "length (spn_hi v) = 5" "length (sp16 k) = 5" "length (sp_lo k) = 5"
  by (simp_all add: cfield_defs)

lemma cform_fields:
  assumes "length q = 2" "length y = 5" "length x = 5" "length f = 3"
  shows "get_bits (cform q y x b f) 1 0 = cword q" "get_bits (cform q y x b f) 6 2 = cword y"
    "get_bits (cform q y x b f) 11 7 = cword x" "get_bits (cform q y x b f) 12 12 = of_bool b"
    "get_bits (cform q y x b f) 15 13 = cword f" "get_bits (cform q y x b f) 4 2 = cword (take 3 y)"
    "get_bits (cform q y x b f) 6 5 = cword (drop 3 y)" "get_bits (cform q y x b f) 9 7 = cword (take 3 x)"
    "get_bits (cform q y x b f) 11 10 = cword (drop 3 x)"
  using assms by (simp_all add: cform_def get_bits_cword cword_Cons cword_Nil)

lemma bit_cform:
  assumes "length q = 2" "length y = 5" "length x = 5" "length f = 3"
  shows "bit (cform q y x b f) n \<longleftrightarrow>
    (if n < 2 then q ! n else if n < 7 then y ! (n - 2) else if n < 12 then x ! (n - 7)
     else if n = 12 then b else n < 16 \<and> f ! (n - 13))"
  using assms by (auto simp: cform_def bit_cword nth_append nth_Cons')

lemma imm_CI:
  assumes "length q = 2" "length x = 5" "length f = 3"
  shows "ci_imm (cform q (ci_lo k) x (bit k 5) f) = scast k"
proof -
  have "push_bit 5 (of_bool (bit k 5)) OR cword (ci_lo k) = (ucast k :: u32)"
  proof (rule bit_word_eqI)
    fix n :: nat
    assume "n < LENGTH(32)"
    consider "n = 0" | "n = 1" | "n = 2" | "n = 3" | "n = 4" | "n = 5" | "6 \<le> n"
      by linarith
    then show "bit (push_bit 5 (of_bool (bit k 5)) OR cword (ci_lo k)) n \<longleftrightarrow> bit (ucast k :: u32) n"
      by cases (auto simp: bit_cword ci_lo_def bit_simps dest: bit_imp_le_length simp flip: bit_0)
  qed
  then show ?thesis
    using assms sign_extend_ucast [of k] by (simp add: ci_imm_def cform_fields)
qed

lemma sign_extend_push:
  fixes k :: "'a::len word" and w :: u32
  assumes "m + LENGTH('a) < 32" and w: "\<And>n. bit w n \<longleftrightarrow> m \<le> n \<and> bit k (n - m)"
  shows "sign_extend w (m + LENGTH('a)) = push_bit m (scast k)"
proof -
  obtain l where l: "LENGTH('a) = Suc l"
    by (metis len_not_eq_0 not0_implies_Suc)
  have "w = take_bit (m + LENGTH('a)) w"
    by (intro bit_word_eqI) (auto simp: bit_simps w dest: bit_imp_le_length)
  then have "sign_extend w (m + LENGTH('a)) = signed_take_bit (m + l) w"
    using sign_extend_signed_take_bit [of "m + l" w] assms(1) l by simp
  also have "\<dots> = push_bit m (scast k)"
    using assms(1) l by (intro bit_word_eqI) (auto simp: bit_simps w min_def)
  finally show ?thesis .
qed

lemma scast_widen:
  fixes k :: "'a::len word"
  assumes "m + LENGTH('a) \<le> LENGTH('b::len)" and "LENGTH('b) \<le> 32"
  shows "(scast (push_bit m (scast k) :: 'b word) :: u32) = push_bit m (scast k)"
proof -
  obtain l where l: "LENGTH('a) = Suc l"
    by (metis len_not_eq_0 not0_implies_Suc)
  show ?thesis
    using assms l by (intro bit_word_eqI) (auto simp: bit_simps min_def)
qed

lemma ucast_widen:
  fixes u :: "'a::len word"
  assumes "m + LENGTH('a) < LENGTH('b::len)" and "LENGTH('b) \<le> 32"
  shows "(scast (push_bit m (ucast u) :: 'b word) :: u32) = push_bit m (ucast u)"
  using assms by (intro bit_word_eqI) (auto simp: bit_simps min_def dest: bit_imp_le_length)

lemmas cimm_bits = bit_get_bits bit_cform bit_simps nth_append cfield_defs

lemma bit_imm_LS:
  assumes "length q = 2" "length ry = 3" "length rx = 3" "length f = 3"
    and w: "w = cform q (ry @ ls_lo u) (rx @ ls_hi u) (bit u 3) f"
  shows "bit (push_bit 6 (get_bits w 5 5) OR push_bit 3 (get_bits w 12 10) OR push_bit 2 (get_bits w 6 6)) n \<longleftrightarrow> 2 \<le> n \<and> bit u (n - 2)"
proof -
  consider "n < 2" | "n = 2" | "n = 3" | "n = 4" | "n = 5" | "n = 6" | "7 \<le> n"
    by linarith
  then show ?thesis
    unfolding w using assms(1-4)
    by cases (auto simp: cimm_bits bit_times_2 dest: bit_imp_le_length simp flip: bit_0)
qed

lemma bit_imm_4SPN:
  assumes "length q = 2" "length ry = 3" "length f = 3"
    and w: "w = cform q (ry @ spn_lo u) (spn_hi u) (bit u 3) f"
  shows "bit (push_bit 4 (get_bits w 12 11) OR push_bit 6 (get_bits w 10 7) OR push_bit 2 (get_bits w 6 6) OR push_bit 3 (get_bits w 5 5)) n \<longleftrightarrow> 2 \<le> n \<and> bit u (n - 2)"
proof -
  consider "n < 2" | "n = 2" | "n = 3" | "n = 4" | "n = 5" | "n = 6" | "n = 7" | "n = 8" | "n = 9" | "10 \<le> n"
    by linarith
  then show ?thesis
    unfolding w using assms(1-3)
    by cases (auto simp: cimm_bits bit_times_2 dest: bit_imp_le_length simp flip: bit_0)
qed

lemma bit_imm_16SP:
  assumes "length q = 2" "length x = 5" "length f = 3"
    and w: "w = cform q (sp16 k) x (bit k 5) f"
  shows "bit (push_bit 9 (get_bits w 12 12) OR push_bit 4 (get_bits w 6 6) OR push_bit 6 (get_bits w 5 5) OR push_bit 7 (get_bits w 4 3) OR push_bit 5 (get_bits w 2 2)) n \<longleftrightarrow> 4 \<le> n \<and> bit k (n - 4)"
proof -
  consider "n < 4" | "n = 4" | "n = 5" | "n = 6" | "n = 7" | "n = 8" | "n = 9" | "10 \<le> n"
    by linarith
  then show ?thesis
    unfolding w using assms(1-3)
    by cases (auto simp: cimm_bits bit_times_2 dest: bit_imp_le_length simp flip: bit_0)
qed

lemma bit_imm_LUI:
  assumes "length q = 2" "length x = 5" "length f = 3"
    and w: "w = cform q (ci_lo k) x (bit k 5) f"
  shows "bit (push_bit 17 (get_bits w 12 12) OR push_bit 12 (get_bits w 6 2)) n \<longleftrightarrow> 12 \<le> n \<and> bit k (n - 12)"
proof -
  consider "n < 12" | "n = 12" | "n = 13" | "n = 14" | "n = 15" | "n = 16" | "n = 17" | "18 \<le> n"
    by linarith
  then show ?thesis
    unfolding w using assms(1-3)
    by cases (auto simp: cimm_bits bit_times_2 dest: bit_imp_le_length simp flip: bit_0)
qed

lemma bit_imm_CJ:
  assumes "length q = 2" "length g = 3"
    and w: "w = cform q (cj_lo f) (cj_hi f) (bit f 10) g"
  shows "bit (push_bit 11 (get_bits w 12 12) OR push_bit 4 (get_bits w 11 11) OR push_bit 8 (get_bits w 10 9) OR push_bit 10 (get_bits w 8 8) OR push_bit 6 (get_bits w 7 7) OR push_bit 7 (get_bits w 6 6) OR push_bit 1 (get_bits w 5 3) OR push_bit 5 (get_bits w 2 2)) n \<longleftrightarrow> 1 \<le> n \<and> bit f (n - 1)"
proof -
  have "12 \<le> n \<or> n = 11 \<or> n = 10 \<or> n = 9 \<or> n = 8 \<or> n = 7 \<or>
      n = 6 \<or> n = 5 \<or> n = 4 \<or> n = 3 \<or> n = 2 \<or> n = 1 \<or> n < 1"
    by presburger
  then consider "n < 1" | "n = 1" | "n = 2" | "n = 3" | "n = 4" | "n = 5" | "n = 6" | "n = 7" | "n = 8" | "n = 9" | "n = 10" | "n = 11" | "12 \<le> n"
    by blast
  then show ?thesis
    unfolding w using assms(1-2)
    by cases (auto simp: cimm_bits bit_times_2 dest: bit_imp_le_length simp flip: bit_0)
qed

lemma bit_imm_CB:
  assumes "length q = 2" "length rx = 3" "length g = 3"
    and w: "w = cform q (cb_lo f) (rx @ cb_hi f) (bit f 7) g"
  shows "bit (push_bit 8 (get_bits w 12 12) OR push_bit 3 (get_bits w 11 10) OR push_bit 6 (get_bits w 6 5) OR push_bit 1 (get_bits w 4 3) OR push_bit 5 (get_bits w 2 2)) n \<longleftrightarrow> 1 \<le> n \<and> bit f (n - 1)"
proof -
  consider "n < 1" | "n = 1" | "n = 2" | "n = 3" | "n = 4" | "n = 5" | "n = 6" | "n = 7" | "n = 8" | "9 \<le> n"
    by linarith
  then show ?thesis
    unfolding w using assms(1-3)
    by cases (auto simp: cimm_bits bit_times_2 dest: bit_imp_le_length simp flip: bit_0)
qed

lemma bit_imm_LWSP:
  assumes "length q = 2" "length x = 5" "length f = 3"
    and w: "w = cform q (sp_lo u) x (bit u 3) f"
  shows "bit (push_bit 5 (get_bits w 12 12) OR push_bit 2 (get_bits w 6 4) OR push_bit 6 (get_bits w 3 2)) n \<longleftrightarrow> 2 \<le> n \<and> bit u (n - 2)"
proof -
  consider "n < 2" | "n = 2" | "n = 3" | "n = 4" | "n = 5" | "n = 6" | "n = 7" | "8 \<le> n"
    by linarith
  then show ?thesis
    unfolding w using assms(1-3)
    by cases (auto simp: cimm_bits bit_times_2 dest: bit_imp_le_length simp flip: bit_0)
qed

lemma bit_imm_SWSP:
  assumes "length q = 2" "length y = 5" "length f = 3"
    and w: "w = cform q y (sp_lo u) (bit u 3) f"
  shows "bit (push_bit 2 (get_bits w 12 9) OR push_bit 6 (get_bits w 8 7)) n \<longleftrightarrow> 2 \<le> n \<and> bit u (n - 2)"
proof -
  consider "n < 2" | "n = 2" | "n = 3" | "n = 4" | "n = 5" | "n = 6" | "n = 7" | "8 \<le> n"
    by linarith
  then show ?thesis
    unfolding w using assms(1-3)
    by cases (auto simp: cimm_bits bit_times_2 dest: bit_imp_le_length simp flip: bit_0)
qed

subsection \<open>Expansion\<close>

lemma and_4096: "x AND 4096 = 0 \<longleftrightarrow> \<not> bit x 12" for x :: u32
  using and_power_eq [of x 12] by simp

lemma unat_3:
  fixes r :: "3 word"
  shows "unat r < 8" "unat (ucast r :: u32) = unat r" "unat (ucast r :: 5 word) = unat r"
  using unsigned_less [of r, where 'a = nat] by (simp_all add: unsigned_ucast_eq take_bit_nat_eq_self)

lemma unat_cr: "unat (cr r) = unat r + 8"
  using unat_3 [of r] by (simp add: cr_def unat_word_ariths)

lemma cr_nonzero [simp]: "cr r \<noteq> 0"
  using unat_cr [of r] by force

lemma creg_eq:
  assumes "get_bits w hi lo = ucast r"
  shows "creg w hi lo = ucast (cr r)"
proof -
  have "unat (ucast r + 8 :: u32) = unat r + 8"
    using unat_3 [of r] by (simp add: unat_word_ariths)
  then have "unat (ucast (ucast r + 8 :: u32) :: u8) = unat (ucast (cr r) :: u8)"
    using unat_3(1) [of r] by (simp add: unat_cr unsigned_ucast_eq take_bit_nat_eq_self)
  then show ?thesis
    unfolding creg_def assms by (simp add: word_unat_eq_iff)
qed

lemma ucast_u8_eq_0 [simp]: "(ucast (r :: 5 word) :: u8) = 0 \<longleftrightarrow> r = 0"
proof -
  have "(ucast (ucast r :: u8) :: 5 word) = r"
    by (intro bit_word_eqI) (auto simp: bit_simps)
  then show ?thesis
    by force
qed

text \<open>The quadrant and \<^verbatim>\<open>funct3\<close> select the case.\<close>

definition cinit :: "DECODE_IN \<Rightarrow> u32 \<Rightarrow> ID_EX" where
  "cinit i w = ID_EX_ctor\<lparr>ie_inst := w, ie_is_compressed := True, ie_pc := di_if_id_pc i\<rparr>"

definition finish :: "DECODE_IN \<Rightarrow> ID_EX \<Rightarrow> ID_EX" where
  "finish i d = d\<lparr>ie_rs1_val := operand i (ie_rs1 d), ie_rs2_val := operand i (ie_rs2 d)\<rparr>"

lemma decompress_dispatch:
  "get_bits w 1 0 = 0 \<Longrightarrow> decompress i w = finish i (decompress_q0 w (cinit i w))"
  "get_bits w 1 0 = 1 \<Longrightarrow> decompress i w = finish i (decompress_q1 w (cinit i w))"
  "get_bits w 1 0 = 2 \<Longrightarrow> decompress i w = finish i (decompress_q2 w (cinit i w))"
  by (simp_all add: decompress_def finish_def cinit_def Let_def)

lemma finish_simps [simp]:
  "ie_type (finish i d) = ie_type d" "ie_rd (finish i d) = ie_rd d"
  "ie_writes_rd (finish i d) = ie_writes_rd d" "ie_imm (finish i d) = ie_imm d"
  "ie_rs1_val (finish i d) = operand i (ie_rs1 d)" "ie_rs2_val (finish i d) = operand i (ie_rs2 d)"
  "ie_is_load (finish i d) = ie_is_load d" "ie_is_store (finish i d) = ie_is_store d"
  "ie_mem_size (finish i d) = ie_mem_size d" "ie_on_trap (finish i d) = ie_on_trap d"
  by (simp_all add: finish_def)

lemma cinit_simps [simp]:
  "ie_type (cinit i w) = I_NOP" "ie_rs1 (cinit i w) = 0" "ie_rs2 (cinit i w) = 0"
  "\<not> ie_writes_rd (cinit i w)" "\<not> ie_is_load (cinit i w)" "\<not> ie_is_store (cinit i w)"
  "ie_mem_size (cinit i w) = 0" "\<not> ie_on_trap (cinit i w)" "ie_imm (cinit i w) = 0"
  by (simp_all add: cinit_def ID_EX_ctor_def)

lemma decompress_alu_dispatch: "get_bits w 15 13 = 4 \<Longrightarrow> decompress_q1 w d = decompress_alu w d"
  and decompress_jump_dispatch: "get_bits w 15 13 = 4 \<Longrightarrow> decompress_q2 w d = decompress_jump w d"
  by (simp_all add: decompress_q1_def decompress_q2_def)

lemmas cform_simps = cform_fields cform_fields(1) [simplified] cword_Cons cword_Nil creg_eq and_4096 bit_cform

lemmas decoded_defs = writes_def reads_def plain_defs

lemma expand_R:
  "decoded i (expand (K_SUB rd rs2)) (decompress i (cenc (K_SUB rd rs2)))"
  "decoded i (expand (K_XOR rd rs2)) (decompress i (cenc (K_XOR rd rs2)))"
  "decoded i (expand (K_OR rd rs2)) (decompress i (cenc (K_OR rd rs2)))"
  "decoded i (expand (K_AND rd rs2)) (decompress i (cenc (K_AND rd rs2)))"
  by (simp_all add: decompress_dispatch decompress_alu_dispatch cform_simps decoded_defs)
    (simp_all add: decompress_alu_def cform_simps Let_def)

text \<open>The immediates of the forms, as the values the expansion asks for.\<close>

lemma push_bit_of_bits:
  fixes u :: "'a::len word" and v :: u32
  assumes "\<And>n. bit v n \<longleftrightarrow> m \<le> n \<and> bit u (n - m)" and "m + LENGTH('a) \<le> 32"
  shows "v = push_bit m (ucast u)"
  using assms(2) by (intro bit_word_eqI) (auto simp: bit_simps assms(1) dest: bit_imp_le_length)

lemma scast_4: "(scast (4 * ucast (u :: 'a::len word) :: 12 word) :: u32) = push_bit 2 (ucast u)"
  if "LENGTH('a) < 10"
  using ucast_widen [of 2 u, where 'b = 12] that by (simp add: push_bit_eq_mult ac_simps)

lemma imm_CJ:
  assumes "length q = 2" "length g = 3"
  shows "cj_imm (cform q (cj_lo f) (cj_hi f) (bit f 10) g) = 2 * scast (scast f :: 20 word)"
  using sign_extend_push [OF _ bit_imm_CJ [OF assms refl]] scast_widen [of 0 f, where 'b = 20]
  by (simp add: cj_imm_def)

lemma imm_CB:
  assumes "length q = 2" "length rx = 3" "length g = 3"
  shows "cb_imm (cform q (cb_lo f) (rx @ cb_hi f) (bit f 7) g) = 2 * scast (scast f :: 12 word)"
  using sign_extend_push [OF _ bit_imm_CB [OF assms refl]] scast_widen [of 0 f, where 'b = 12]
  by (simp add: cb_imm_def)

lemma imm_CI': "length q = 2 \<Longrightarrow> length x = 5 \<Longrightarrow> length f = 3 \<Longrightarrow>
    ci_imm (cform q (ci_lo k) x (bit k 5) f) = scast (scast k :: 12 word)"
  using imm_CI [of q x f k] scast_widen [of 0 k, where 'b = 12] by simp

lemma imm_LS:
  assumes "length q = 2" "length ry = 3" "length rx = 3" "length f = 3"
  shows "clw_imm (cform q (ry @ ls_lo u) (rx @ ls_hi u) (bit u 3) f) = scast (4 * ucast (u :: 5 word) :: 12 word)"
proof -
  have "clw_imm (cform q (ry @ ls_lo u) (rx @ ls_hi u) (bit u 3) f) = push_bit 2 (ucast u)"
    unfolding clw_imm_def by (rule push_bit_of_bits [OF bit_imm_LS [OF assms refl]]) simp
  then show ?thesis
    using scast_4 [of u] by simp
qed

lemma imm_4SPN:
  assumes "length q = 2" "length ry = 3" "length f = 3"
  shows "addi4spn_imm (cform q (ry @ spn_lo u) (spn_hi u) (bit u 3) f) = scast (4 * ucast (u :: 8 word) :: 12 word)"
proof -
  have "addi4spn_imm (cform q (ry @ spn_lo u) (spn_hi u) (bit u 3) f) = push_bit 2 (ucast u)"
    unfolding addi4spn_imm_def by (rule push_bit_of_bits [OF bit_imm_4SPN [OF assms refl]]) simp
  then show ?thesis
    using scast_4 [of u] by simp
qed

lemma imm_LWSP:
  assumes "length q = 2" "length x = 5" "length f = 3"
  shows "lwsp_imm (cform q (sp_lo u) x (bit u 3) f) = scast (4 * ucast (u :: 6 word) :: 12 word)"
proof -
  have "lwsp_imm (cform q (sp_lo u) x (bit u 3) f) = push_bit 2 (ucast u)"
    unfolding lwsp_imm_def by (rule push_bit_of_bits [OF bit_imm_LWSP [OF assms refl]]) simp
  then show ?thesis
    using scast_4 [of u] by simp
qed

lemma imm_SWSP:
  assumes "length q = 2" "length y = 5" "length f = 3"
  shows "swsp_imm (cform q y (sp_lo u) (bit u 3) f) = scast (4 * ucast (u :: 6 word) :: 12 word)"
proof -
  have "swsp_imm (cform q y (sp_lo u) (bit u 3) f) = push_bit 2 (ucast u)"
    unfolding swsp_imm_def by (rule push_bit_of_bits [OF bit_imm_SWSP [OF assms refl]]) simp
  then show ?thesis
    using scast_4 [of u] by simp
qed

lemma imm_16SP:
  assumes "length q = 2" "length x = 5" "length f = 3"
  shows "addi16sp_imm (cform q (sp16 k) x (bit k 5) f) = scast (16 * scast k :: 12 word)"
proof -
  have "addi16sp_imm (cform q (sp16 k) x (bit k 5) f) = push_bit 4 (scast k)"
    using sign_extend_push [OF _ bit_imm_16SP [OF assms refl]] by (simp add: addi16sp_imm_def)
  then show ?thesis
    using scast_widen [of 4 k, where 'b = 12] by (simp add: push_bit_eq_mult ac_simps)
qed

lemma imm_LUI:
  assumes "length q = 2" "length x = 5" "length f = 3"
  shows "clui_imm (cform q (ci_lo k) x (bit k 5) f) = push_bit 12 (ucast (scast k :: 20 word))"
proof -
  have "clui_imm (cform q (ci_lo k) x (bit k 5) f) = push_bit 12 (scast k)"
    using sign_extend_push [OF _ bit_imm_LUI [OF assms refl]] by (simp add: clui_imm_def)
  also have "\<dots> = push_bit 12 (ucast (scast k :: 20 word))"
    by (intro bit_word_eqI) (auto simp: bit_simps)
  finally show ?thesis .
qed

lemma scast_4_eq_0: "(scast (4 * ucast (u :: 8 word) :: 12 word) :: u32) = 0 \<Longrightarrow> u = 0"
proof -
  assume "(scast (4 * ucast u :: 12 word) :: u32) = 0"
  then have "push_bit 2 (ucast u :: u32) = 0"
    using scast_4 [of u] by simp
  then have "bit (push_bit 2 (ucast u) :: u32) (n + 2) = False" for n
    by (simp only: bit_0_eq) simp
  then show "u = 0"
    by (intro bit_word_eqI) (simp add: bit_simps)
qed

lemma expand_q0:
  "u \<noteq> 0 \<Longrightarrow> decoded i (expand (K_ADDI4SPN rd u)) (decompress i (cenc (K_ADDI4SPN rd u)))"
  "decoded i (expand (K_LW rd rs1 v)) (decompress i (cenc (K_LW rd rs1 v)))"
  "decoded i (expand (K_SW rs2 rs1 v)) (decompress i (cenc (K_SW rs2 rs1 v)))"
  by (simp_all add: decompress_dispatch cform_simps decoded_defs)
    (auto simp: decompress_q0_def cform_simps imm_LS imm_4SPN Let_def
      dest: scast_4_eq_0)

lemma ucast_5_and_31: "(ucast (sh :: 5 word) :: u32) AND 31 = ucast sh"
proof -
  have "(ucast sh :: u32) AND mask 5 = ucast sh"
    by (intro bit_word_eqI) (auto simp: bit_simps dest: bit_imp_le_length)
  then show ?thesis
    by (simp add: mask_eq_exp_minus_1)
qed

lemma expand_shift:
  "decoded i (expand (K_SRLI rd sh)) (decompress i (cenc (K_SRLI rd sh)))"
  "decoded i (expand (K_SRAI rd sh)) (decompress i (cenc (K_SRAI rd sh)))"
  "r \<noteq> 0 \<Longrightarrow> decoded i (expand (K_SLLI r sh)) (decompress i (cenc (K_SLLI r sh)))"
  by (simp_all add: decompress_dispatch decompress_alu_dispatch cform_simps decoded_defs)
    (simp_all add: decompress_alu_def decompress_q2_def cform_simps ucast_5_and_31 Let_def)

lemma cform_not_nop:
  assumes "length q = 2" "length y = 5" "length f = 3" and "rd \<noteq> 0"
  shows "cform q y (r5 rd) b f \<noteq> 1"
proof
  assume "cform q y (r5 rd) b f = 1"
  then have "get_bits 1 11 7 = ucast rd"
    using cform_fields(3) [of q y "r5 rd" f b] assms by simp
  moreover have "get_bits 1 11 7 = 0"
    by (simp add: get_bits_def)
  ultimately show False
    using assms(4) by (metis ucast_5_eq_0)
qed

lemma expand_imm:
  "decoded i (expand (K_ANDI r k)) (decompress i (cenc (K_ANDI r k)))"
  "rd \<noteq> 0 \<Longrightarrow> decoded i (expand (K_ADDI rd k)) (decompress i (cenc (K_ADDI rd k)))"
  "rd \<noteq> 0 \<Longrightarrow> decoded i (expand (K_LI rd k)) (decompress i (cenc (K_LI rd k)))"
  by (simp_all add: decompress_dispatch decompress_alu_dispatch cform_simps decoded_defs)
    (simp_all add: decompress_alu_def decompress_q1_def cform_simps imm_CI' cform_not_nop Let_def)

lemma expand_jump:
  "decoded i (expand (K_JAL f)) (decompress i (cenc (K_JAL f)))"
  "decoded i (expand (K_J f)) (decompress i (cenc (K_J f)))"
  "decoded i (expand (K_BEQZ r g)) (decompress i (cenc (K_BEQZ r g)))"
  "decoded i (expand (K_BNEZ r g)) (decompress i (cenc (K_BNEZ r g)))"
  by (simp_all add: decompress_dispatch cform_simps decoded_defs)
    (simp_all add: decompress_q1_def cform_simps imm_CJ imm_CB Let_def)

lemma ucast_5_eq_2: "(ucast (r :: 5 word) :: u32) = 2 \<longleftrightarrow> r = 2"
proof -
  have "(ucast (ucast r :: u32) :: 5 word) = r"
    by (intro bit_word_eqI) (auto simp: bit_simps)
  then show ?thesis
    by auto
qed

lemma scast_16_eq_0: "(scast (16 * scast (k :: 6 word) :: 12 word) :: u32) = 0 \<Longrightarrow> k = 0"
proof -
  assume "(scast (16 * scast k :: 12 word) :: u32) = 0"
  then have "push_bit 4 (scast k :: u32) = 0"
    using scast_widen [of 4 k, where 'b = 12] by (simp add: push_bit_eq_mult ac_simps)
  then have z: "bit (push_bit 4 (scast k) :: u32) (n + 4) = False" for n
    by (simp only: bit_0_eq) simp
  have "\<not> bit k n" if "n < 6" for n
    using z [of n] that by (cases "n = 5") (auto simp: bit_simps min_def)
  then show "k = 0"
    by (intro bit_word_eqI) simp
qed

lemma expand_upper:
  "rd \<noteq> 0 \<Longrightarrow> rd \<noteq> 2 \<Longrightarrow> decoded i (expand (K_LUI rd k)) (decompress i (cenc (K_LUI rd k)))"
  "k \<noteq> 0 \<Longrightarrow> decoded i (expand (K_ADDI16SP k)) (decompress i (cenc (K_ADDI16SP k)))"
  by (simp_all add: decompress_dispatch cform_simps decoded_defs)
    (auto simp: decompress_q1_def cform_simps ucast_5_eq_2 imm_16SP imm_LUI Let_def
      dest: scast_16_eq_0)

lemma expand_sp:
  "rd \<noteq> 0 \<Longrightarrow> decoded i (expand (K_LWSP rd u)) (decompress i (cenc (K_LWSP rd u)))"
  "decoded i (expand (K_SWSP rs2 u)) (decompress i (cenc (K_SWSP rs2 u)))"
  by (simp_all add: decompress_dispatch cform_simps decoded_defs)
    (simp_all add: decompress_q2_def cform_simps imm_LWSP imm_SWSP Let_def)

lemma expand_cr:
  "rs1 \<noteq> 0 \<Longrightarrow> decoded i (expand (K_JR rs1)) (decompress i (cenc (K_JR rs1)))"
  "rs1 \<noteq> 0 \<Longrightarrow> decoded i (expand (K_JALR rs1)) (decompress i (cenc (K_JALR rs1)))"
  "rd \<noteq> 0 \<Longrightarrow> rs2 \<noteq> 0 \<Longrightarrow> decoded i (expand (K_MV rd rs2)) (decompress i (cenc (K_MV rd rs2)))"
  "rd \<noteq> 0 \<Longrightarrow> rs2 \<noteq> 0 \<Longrightarrow> decoded i (expand (K_ADD rd rs2)) (decompress i (cenc (K_ADD rd rs2)))"
  "decoded i (expand K_EBREAK) (decompress i (cenc K_EBREAK))"
  by (simp_all add: decompress_dispatch decompress_jump_dispatch cform_simps decoded_defs)
    (simp_all add: decompress_jump_def cform_simps Let_def)



end
