(* ===== verification/Signals.thy ===== *)
theory Signals
  imports Decode_Stage Mem_Types
begin

unbundle bit_operations_syntax

text \<open>
  Writes to the signals that carry structures. A SystemC signal takes a new value only if the
  structure's own equality operator tells it from the current one; the operator of \<^verbatim>\<open>ID_EX\<close> in
  \<^verbatim>\<open>src/src/decode.hpp\<close> leaves out two members. The other theories model a write as an assignment; here
  it is shown that nothing is lost.
\<close>

definition sc_write :: "('a \<Rightarrow> 'a \<Rightarrow> bool) \<Rightarrow> 'a \<Rightarrow> 'a \<Rightarrow> 'a" where
  "sc_write eq cur_val new_val = (if eq cur_val new_val then cur_val else new_val)"

definition IMEM_IN_eq :: "IMEM_IN \<Rightarrow> IMEM_IN \<Rightarrow> bool" where
  "IMEM_IN_eq a b \<longleftrightarrow> imem_req_ack a = imem_req_ack b \<and> imem_addr a = imem_addr b"

definition DMEM_IN_eq :: "DMEM_IN \<Rightarrow> DMEM_IN \<Rightarrow> bool" where
  "DMEM_IN_eq a b \<longleftrightarrow>
     dmem_req_ack a = dmem_req_ack b \<and> dmem_addr a = dmem_addr b \<and> dmem_wdata a = dmem_wdata b \<and> dmem_size a = dmem_size b \<and>
     dmem_is_load a = dmem_is_load b \<and> dmem_is_store a = dmem_is_store b \<and> dmem_is_amo a = dmem_is_amo b \<and>
     dmem_amoop a = dmem_amoop b"

definition MEM_OUT_eq :: "MEM_OUT \<Rightarrow> MEM_OUT \<Rightarrow> bool" where
  "MEM_OUT_eq a b \<longleftrightarrow>
     mem_rsp_ack a = mem_rsp_ack b \<and> mem_rsp_rdata a = mem_rsp_rdata b \<and> mem_rsp_fault a = mem_rsp_fault b"

definition MMU_RSP_eq :: "MMU_RSP \<Rightarrow> MMU_RSP \<Rightarrow> bool" where
  "MMU_RSP_eq a b \<longleftrightarrow>
     mmu_rsp_ack a = mmu_rsp_ack b \<and> mmu_rsp_rdata a = mmu_rsp_rdata b \<and> mmu_rsp_tval a = mmu_rsp_tval b \<and>
     mmu_rsp_fault a = mmu_rsp_fault b"

definition ID_EX_eq :: "ID_EX \<Rightarrow> ID_EX \<Rightarrow> bool" where
  "ID_EX_eq a b \<longleftrightarrow>
     ie_type a = ie_type b \<and> ie_inst a = ie_inst b \<and> ie_rd a = ie_rd b \<and> ie_writes_rd a = ie_writes_rd b \<and> ie_rs1 a = ie_rs1 b \<and>
     ie_rs2 a = ie_rs2 b \<and> ie_rs1_val a = ie_rs1_val b \<and> ie_rs2_val a = ie_rs2_val b \<and> ie_imm a = ie_imm b \<and> ie_pc a = ie_pc b \<and>
     ie_csr_val a = ie_csr_val b \<and> ie_is_csr a = ie_is_csr b \<and> ie_csr_addr a = ie_csr_addr b \<and> ie_is_branch a = ie_is_branch b \<and>
     ie_is_jump a = ie_is_jump b \<and> ie_is_load a = ie_is_load b \<and> ie_is_store a = ie_is_store b \<and> ie_is_muldiv a = ie_is_muldiv b \<and>
     ie_is_system a = ie_is_system b \<and> ie_is_atomic a = ie_is_atomic b \<and> ie_amo_type a = ie_amo_type b \<and>
     ie_mem_size a = ie_mem_size b \<and> ie_flush a = ie_flush b \<and> ie_get_next_inst a = ie_get_next_inst b \<and>
     ie_cause a = ie_cause b \<and> ie_tval a = ie_tval b \<and> ie_on_trap a = ie_on_trap b"

lemma ID_EX_eq_parts: "ID_EX_eq a b \<Longrightarrow> ie_is_compressed a = ie_is_compressed b \<Longrightarrow> ie_ctype a = ie_ctype b \<Longrightarrow> a = b"
  by (rule ID_EX.equality) (simp_all add: ID_EX_eq_def)

text \<open>What the two decoders do with the three members.\<close>

lemmas compressed_defs = decompress_q0_def decompress_q1_def decompress_q2_def decompress_alu_def decompress_jump_def illegal_def Let_def

lemma quadrant_tag:
  "ie_inst (decompress_q0 w d) = ie_inst d" "ie_is_compressed (decompress_q0 w d) = ie_is_compressed d"
  "ie_inst (decompress_q1 w d) = ie_inst d" "ie_is_compressed (decompress_q1 w d) = ie_is_compressed d"
  "ie_inst (decompress_q2 w d) = ie_inst d" "ie_is_compressed (decompress_q2 w d) = ie_is_compressed d"
  by (simp_all add: compressed_defs)

lemma quadrant_ctype:
  assumes "ie_ctype d = ie_ctype e"
  shows "ie_ctype (decompress_q0 w d) = ie_ctype (decompress_q0 w e)" "ie_ctype (decompress_q1 w d) = ie_ctype (decompress_q1 w e)"
    "ie_ctype (decompress_q2 w d) = ie_ctype (decompress_q2 w e)"
  using assms by (simp_all add: compressed_defs)

lemma decompress_tag:
  shows "ie_inst (decompress i w) = w" "ie_is_compressed (decompress i w)" "ie_ctype (decompress i w) = ie_ctype (decompress j w)"
  by (simp_all add: decompress_def quadrant_tag Let_def) (auto intro: quadrant_ctype)

lemma decode_tag: "ie_inst (decode i w) = w" "\<not> ie_is_compressed (decode i w)" "ie_ctype (decode i w) = I_C_NOP"
proof -
  define P where "P d \<longleftrightarrow> ie_inst d = w \<and> \<not> ie_is_compressed d \<and> ie_ctype d = I_C_NOP" for d :: ID_EX
  have d: "P (dec_common i w)"
    by (simp add: P_def dec_common_def ID_EX_ctor_def Let_def)
  have groups: "P (dec_op_imm w d)" "P (dec_op w d)" "P (dec_load w d)" "P (dec_store w d)" "P (dec_jal w d)" "P (dec_jalr w d)"
    "P (dec_branch w d)" "P (dec_fence w d)" "P (dec_amo w d)" "P (dec_system w d)" if "P d" for d
    using that by (simp_all add: P_def dec_op_imm_def dec_op_def dec_load_def dec_store_def dec_jal_def dec_jalr_def dec_branch_def
        dec_fence_def dec_amo_def dec_system_def dec_csr_def Let_def)
  have "P (decode i w)"
    using groups [OF d] d by (simp add: decode_def Let_def) (simp add: P_def)
  then show "ie_inst (decode i w) = w" "\<not> ie_is_compressed (decode i w)" "ie_ctype (decode i w) = I_C_NOP"
    by (simp_all add: P_def)
qed

lemma fault_tag [simp]:
  "ie_inst (decode_fault i d) = ie_inst d" "ie_is_compressed (decode_fault i d) = ie_is_compressed d" "ie_ctype (decode_fault i d) = ie_ctype d"
  "ie_type (decode_fault i d) = ie_type d"
  by (simp_all add: decode_fault_def Let_def)

text \<open>The values written to the signal: bubbles and decoded instructions.\<close>

lemma id_ex_written:
  assumes "\<not> di_stall i"
  obtains "id_ex_tmp i = ID_EX_ctor\<lparr>ie_flush := True\<rparr>"
  | w where "id_ex_tmp i = (decode_fault i (decode i w))\<lparr>ie_flush := False\<rparr>" and "w AND 3 = 3"
  | w where "id_ex_tmp i = (decode_fault i (decompress i w))\<lparr>ie_flush := False\<rparr>" and "w AND 3 \<noteq> 3"
proof -
  let ?w = "di_if_id_inst i"
  have low: "(?w AND 0xffff) AND 3 = ?w AND 3"
    by (simp add: and.assoc)
  have "id_ex_tmp i = ID_EX_ctor\<lparr>ie_flush := True\<rparr> \<or>
      id_ex_tmp i = (decode_fault i (decode i ?w))\<lparr>ie_flush := False\<rparr> \<and> ?w AND 3 = 3 \<or>
      id_ex_tmp i = (decode_fault i (decompress i (?w AND 0xffff)))\<lparr>ie_flush := False\<rparr> \<and> ?w AND 3 \<noteq> 3"
    using assms by (simp add: id_ex_tmp_def Let_def)
  then show thesis
    using that(1,2) that(3) [of "?w AND 0xffff"] low by auto
qed

lemma id_ex_same:
  assumes "\<not> di_stall i" and "\<not> di_stall j" and "ID_EX_eq (id_ex_tmp i) (id_ex_tmp j)"
  shows "id_ex_tmp i = id_ex_tmp j"
proof (rule ID_EX_eq_parts [OF assms(3)])
  have eq: "ie_inst (id_ex_tmp i) = ie_inst (id_ex_tmp j)" "ie_flush (id_ex_tmp i) = ie_flush (id_ex_tmp j)"
    using assms(3) by (simp_all add: ID_EX_eq_def)
  have "ie_is_compressed (id_ex_tmp i) = ie_is_compressed (id_ex_tmp j) \<and> ie_ctype (id_ex_tmp i) = ie_ctype (id_ex_tmp j)"
    using eq by (cases rule: id_ex_written [OF assms(1)]; cases rule: id_ex_written [OF assms(2)])
      (auto simp: decode_tag decompress_tag(1,2) intro: decompress_tag(3))
  then show "ie_is_compressed (id_ex_tmp i) = ie_is_compressed (id_ex_tmp j)" "ie_ctype (id_ex_tmp i) = ie_ctype (id_ex_tmp j)"
    by blast+
qed

lemma decompress_zero: "I_NOP \<noteq> ie_type (decompress i 0)"
  by (simp add: decompress_def decompress_q0_def illegal_def get_bits_def Let_def)

lemma id_ex_initial:
  assumes "\<not> di_stall i"
  shows "\<not> ID_EX_eq ID_EX_ctor (id_ex_tmp i)"
  by (cases rule: id_ex_written [OF assms])
    (auto simp: ID_EX_eq_def ID_EX_ctor_def decode_tag decompress_tag(1,2) decompress_zero)

text \<open>
  C32. No write to a structured signal is lost. The requests and answers of the memory and of the MMU
  are compared member by member, so their signals always take the new value; and although the comparison
  of the decoded instruction leaves out the flag and the type of compressed instructions, the signal
  between the decoder and the execute stage takes every value the decode stage writes, whether it holds
  its initial value or one written before.
\<close>

theorem signal_writes:
  "sc_write IMEM_IN_eq iin iin' = iin' \<and> sc_write DMEM_IN_eq din din' = din' \<and> sc_write MEM_OUT_eq out out' = out' \<and>
   sc_write MMU_RSP_eq rsp rsp' = rsp' \<and>
   (\<not> di_stall i \<longrightarrow> sc_write ID_EX_eq ID_EX_ctor (id_ex_tmp i) = id_ex_tmp i \<and>
      (\<forall>j. \<not> di_stall j \<longrightarrow> sc_write ID_EX_eq (id_ex_tmp j) (id_ex_tmp i) = id_ex_tmp i))"
  using id_ex_same id_ex_initial
  by (auto simp: sc_write_def IMEM_IN_eq_def DMEM_IN_eq_def MEM_OUT_eq_def MMU_RSP_eq_def intro: ID_EX.equality
      IMEM_IN.equality DMEM_IN.equality MEM_OUT.equality MMU_RSP.equality)

text \<open>A compressed and a 32-bit instruction without effect at the same address.\<close>

definition nop_in :: "u32 \<Rightarrow> DECODE_IN" where
  "nop_in w = example_in\<lparr>di_if_id_inst := w\<rparr>"

theorem signal_writes_witness:
  "\<not> di_stall (nop_in 0x13) \<and> \<not> di_stall (nop_in 1) \<and> sc_write ID_EX_eq ID_EX_ctor (id_ex_tmp (nop_in 1)) = id_ex_tmp (nop_in 1) \<and>
   sc_write ID_EX_eq (id_ex_tmp (nop_in 1)) (id_ex_tmp (nop_in 0x13)) = id_ex_tmp (nop_in 0x13)"
proof -
  have s: "\<not> di_stall (nop_in w)" for w
    by (simp add: nop_in_def example_in_def)
  then show ?thesis
    using signal_writes [where i = "nop_in 1"] signal_writes [where i = "nop_in 0x13"] by blast
qed

end
