(* ===== verification/Mext.thy ===== *)
theory Mext
  imports Decode "HOL-Library.Signed_Division"
begin

unbundle bit_operations_syntax

text \<open>
  The multiply/divide unit of \<^verbatim>\<open>src/src/mext.hpp\<close>. \<^verbatim>\<open>int32_t\<close> and \<^verbatim>\<open>int64_t\<close> operands
  are words read as signed numbers; C++ division truncates, which is \<open>sdiv\<close> and \<open>smod\<close>.
\<close>

definition mext_result :: "InstrType \<Rightarrow> u32 \<Rightarrow> u32 \<Rightarrow> u32 option" where
  "mext_result t a b =
     (if t = I_MUL then Some (a * b)
      else if t = I_MULH then Some (ucast (signed_drop_bit 32 (scast a * scast b :: u64)))
      else if t = I_MULHSU then Some (ucast (drop_bit 32 (scast a * ucast b :: u64)))
      else if t = I_MULHU then Some (ucast (drop_bit 32 (ucast a * ucast b :: u64)))
      else if t = I_DIV
      then Some (if b = 0 then - 1
                 else if a = 0x80000000 \<and> b = - 1 then 0x80000000
                 else of_int (sint a sdiv sint b))
      else if t = I_DIVU then Some (if b = 0 then 0xFFFFFFFF else a div b)
      else if t = I_REM
      then Some (if b = 0 then a
                 else if a = 0x80000000 \<and> b = - 1 then 0
                 else of_int (sint a smod sint b))
      else if t = I_REMU then Some (if b = 0 then a else a mod b)
      else None)"

text \<open>The registered outputs \<^verbatim>\<open>mext_result\<close> and \<^verbatim>\<open>mext_rsp_ack\<close>.\<close>

record MEXT =
  mx_result :: u32
  mx_rsp_ack :: bool

definition mext_seq :: "bool \<Rightarrow> ID_EX \<Rightarrow> MEXT \<Rightarrow> MEXT" where
  "mext_seq mext_req_ack d s =
     (if mext_req_ack
      then (case mext_result (ie_type d) (ie_rs1_val d) (ie_rs2_val d) of
              Some r \<Rightarrow> s\<lparr>mx_result := r, mx_rsp_ack := True\<rparr>
            | None \<Rightarrow> s\<lparr>mx_result := 0, mx_rsp_ack := False\<rparr>)
      else s\<lparr>mx_result := 0, mx_rsp_ack := False\<rparr>)"

subsection \<open>The product\<close>

lemma high_word:
  fixes k :: int
  shows "(ucast (drop_bit 32 (word_of_int k :: u64)) :: u32) = word_of_int (k div 2 ^ 32)"
    and "(ucast (signed_drop_bit 32 (word_of_int k :: u64)) :: u32) = word_of_int (k div 2 ^ 32)"
proof -
  have e: "k div 2 ^ 32 = drop_bit 32 k"
    by (rule drop_bit_eq_div [symmetric])
  show "(ucast (drop_bit 32 (word_of_int k :: u64)) :: u32) = word_of_int (k div 2 ^ 32)"
    "(ucast (signed_drop_bit 32 (word_of_int k :: u64)) :: u32) = word_of_int (k div 2 ^ 32)"
    unfolding e by (intro bit_word_eqI; simp add: bit_simps)+
qed

text \<open>
  The four multiply instructions return the low word of the product and the high words of
  the signed, signed-by-unsigned and unsigned products of the operands.
\<close>

lemma mext_multiply:
  "mext_result I_MUL a b = Some (of_int (sint a * sint b)) \<and>
   mext_result I_MULH a b = Some (of_int (sint a * sint b div 2 ^ 32)) \<and>
   mext_result I_MULHSU a b = Some (of_int (sint a * uint b div 2 ^ 32)) \<and>
   mext_result I_MULHU a b = Some (of_int (uint a * uint b div 2 ^ 32))"
proof -
  have prod: "a * b = word_of_int (sint a * sint b)"
    "(scast a * scast b :: u64) = word_of_int (sint a * sint b)"
    "(scast a * ucast b :: u64) = word_of_int (sint a * uint b)"
    "(ucast a * ucast b :: u64) = word_of_int (uint a * uint b)"
    by simp_all
  have "mext_result I_MUL a b = Some (a * b)"
    "mext_result I_MULH a b = Some (ucast (signed_drop_bit 32 (scast a * scast b :: u64)))"
    "mext_result I_MULHSU a b = Some (ucast (drop_bit 32 (scast a * ucast b :: u64)))"
    "mext_result I_MULHU a b = Some (ucast (drop_bit 32 (ucast a * ucast b :: u64)))"
    by (simp_all add: mext_result_def)
  then show ?thesis
    by (simp only: prod high_word simp_thms)
qed

subsection \<open>The quotient\<close>

lemma sint_of_int_exact: "- (2 ^ 31) \<le> k \<Longrightarrow> k < 2 ^ 31 \<Longrightarrow> sint (of_int k :: u32) = k"
  by (simp add: signed_of_int signed_take_bit_int_eq_self)

lemma sint_eq_iff: "sint (a :: u32) = sint c \<longleftrightarrow> a = c"
  by (auto dest: signed_word_eqI)

lemma sdiv_exact:
  fixes a b :: u32
  assumes "b \<noteq> 0" and "\<not> (sint a = - (2 ^ 31) \<and> sint b = - 1)"
  shows "sint (of_int (sint a sdiv sint b) :: u32) = sint a sdiv sint b"
    and "sint (of_int (sint a smod sint b) :: u32) = sint a smod sint b"
proof -
  have lim: "- (2 ^ 31) \<le> sint a" "sint a < 2 ^ 31" "- (2 ^ 31) \<le> sint b" "sint b < 2 ^ 31"
    using sint_greater_eq [of a] sint_less [of a] sint_greater_eq [of b] sint_less [of b] by simp_all
  have b0: "sint b \<noteq> 0"
    using assms(1) sint_eq_iff [of b 0] by simp
  have "sint a sdiv sint b \<noteq> 2 ^ 31"
  proof
    assume eq: "sint a sdiv sint b = 2 ^ 31"
    have "\<bar>sint a sdiv sint b\<bar> \<le> \<bar>sint a\<bar>"
      using sdiv_int_range [of "sint a" "sint b"] by auto
    then have a: "sint a = - (2 ^ 31)"
      using eq lim by auto
    then have "sint a sdiv sint b = - sint a"
      using eq by simp
    then show False
      using assms(2) a int_sdiv_negated_is_minus1 [of "sint a" "sint b"] by simp
  qed
  then have "- (2 ^ 31) \<le> sint a sdiv sint b" "sint a sdiv sint b < 2 ^ 31"
    using sdiv_int_range [of "sint a" "sint b"] lim by auto
  then show "sint (of_int (sint a sdiv sint b) :: u32) = sint a sdiv sint b"
    by (rule sint_of_int_exact)
  have "- (2 ^ 31) \<le> sint a smod sint b" "sint a smod sint b < 2 ^ 31"
    using smod_int_range [OF b0, of "sint a"] lim by auto
  then show "sint (of_int (sint a smod sint b) :: u32) = sint a smod sint b"
    by (rule sint_of_int_exact)
qed

text \<open>
  Signed division: a zero divisor gives quotient \<open>-1\<close> and remainder the dividend, the one
  overflowing case gives the dividend and zero, and otherwise quotient and remainder are the
  truncating ones: they satisfy the division identity exactly, the remainder is smaller than
  the divisor in magnitude and never has the sign opposite to the dividend.
\<close>

lemma mext_divide:
  "\<exists>q r. mext_result I_DIV a b = Some q \<and> mext_result I_REM a b = Some r \<and>
     (if b = 0 then q = - 1 \<and> r = a
      else if sint a = - (2 ^ 31) \<and> sint b = - 1 then q = a \<and> r = 0
      else sint a = sint b * sint q + sint r \<and> \<bar>sint r\<bar> < \<bar>sint b\<bar> \<and> 0 \<le> sint a * sint r)"
proof -
  have over: "a = 0x80000000 \<longleftrightarrow> sint a = - (2 ^ 31)" "b = - 1 \<longleftrightarrow> sint b = - 1"
    using sint_eq_iff [of a "0x80000000"] sint_eq_iff [of b "- 1"] by simp_all
  show ?thesis
  proof (cases "b = 0 \<or> (sint a = - (2 ^ 31) \<and> sint b = - 1)")
    case True
    then show ?thesis
      using over by (auto simp: mext_result_def)
  next
    case False
    then have b: "b \<noteq> 0" "\<not> (sint a = - (2 ^ 31) \<and> sint b = - 1)"
      by simp_all
    have exact: "sint (of_int (sint a sdiv sint b) :: u32) = sint a sdiv sint b"
      "sint (of_int (sint a smod sint b) :: u32) = sint a smod sint b"
      using sdiv_exact [OF b] by simp_all
    have "sint b \<noteq> 0"
      using b(1) sint_eq_iff [of b 0] by simp
    then have "\<bar>sint a smod sint b\<bar> < \<bar>sint b\<bar>" "0 \<le> sint a * (sint a smod sint b)"
      using smod_int_range [of "sint b" "sint a"] by (auto simp: smod_int_alt_def sgn_if zero_le_mult_iff)
    then show ?thesis
      using b over exact mult_sdiv_smod_eq [of "sint b" "sint a"]
      by (auto simp: mext_result_def)
  qed
qed

text \<open>
  Unsigned division: a zero divisor gives the all-ones quotient and the dividend, and
  otherwise quotient and remainder satisfy the division identity with a smaller remainder.
\<close>

lemma mext_divide_unsigned:
  "\<exists>q r. mext_result I_DIVU a b = Some q \<and> mext_result I_REMU a b = Some r \<and>
     (if b = 0 then unat q = 2 ^ 32 - 1 \<and> r = a
      else unat a = unat b * unat q + unat r \<and> unat r < unat b)"
proof -
  have "unat (- 1 :: u32) = 2 ^ 32 - 1"
    by (simp add: unsigned_minus_1_eq_mask mask_eq_exp_minus_1)
  moreover have "0 < unat b" if "b \<noteq> 0"
    using that by (simp add: unat_gt_0)
  ultimately show ?thesis
    by (simp add: mext_result_def unat_div_distrib unat_mod_distrib)
qed

lemma mext_seq_result:
  "mext_result t (ie_rs1_val d) (ie_rs2_val d) = Some v \<Longrightarrow>
     mext_seq True (d\<lparr>ie_type := t\<rparr>) s = s\<lparr>mx_result := v, mx_rsp_ack := True\<rparr>"
  by (simp add: mext_seq_def)

text \<open>
  C33. The multiply/divide unit answers every request of its eight instructions at the next edge. The
  products are the low word and the signed, mixed and unsigned high words; quotient and remainder
  satisfy the division equation with the remainder smaller than the divisor and, for the signed
  pair, of the sign of the dividend; division by zero gives all ones and the dividend, and the
  one overflow gives the dividend and 0.
\<close>

theorem mext_arithmetic:
  "let a = ie_rs1_val d; b = ie_rs2_val d; unit = (\<lambda>t. mext_seq True (d\<lparr>ie_type := t\<rparr>) s);
       res = (\<lambda>t. mx_result (unit t)); q = res I_DIV; r = res I_REM; qu = res I_DIVU; ru = res I_REMU
   in list_all (\<lambda>t. mx_rsp_ack (unit t)) [I_MUL, I_MULH, I_MULHSU, I_MULHU, I_DIV, I_DIVU, I_REM, I_REMU] \<and>
      res I_MUL = of_int (sint a * sint b) \<and> res I_MULH = of_int (sint a * sint b div 2 ^ 32) \<and>
      res I_MULHSU = of_int (sint a * uint b div 2 ^ 32) \<and> res I_MULHU = of_int (uint a * uint b div 2 ^ 32) \<and>
      (if b = 0 then q = - 1 \<and> r = a
       else if sint a = - (2 ^ 31) \<and> sint b = - 1 then q = a \<and> r = 0
       else sint a = sint b * sint q + sint r \<and> \<bar>sint r\<bar> < \<bar>sint b\<bar> \<and> 0 \<le> sint a * sint r) \<and>
      (if b = 0 then unat qu = 2 ^ 32 - 1 \<and> ru = a
       else unat a = unat b * unat qu + unat ru \<and> unat ru < unat b)"
proof -
  let ?a = "ie_rs1_val d" and ?b = "ie_rs2_val d"
  note mul = mext_multiply [of ?a ?b]
  obtain q r where div: "mext_result I_DIV ?a ?b = Some q" "mext_result I_REM ?a ?b = Some r"
    "if ?b = 0 then q = - 1 \<and> r = ?a
     else if sint ?a = - (2 ^ 31) \<and> sint ?b = - 1 then q = ?a \<and> r = 0
     else sint ?a = sint ?b * sint q + sint r \<and> \<bar>sint r\<bar> < \<bar>sint ?b\<bar> \<and> 0 \<le> sint ?a * sint r"
    using mext_divide [of ?a ?b] by blast
  obtain qu ru where divu: "mext_result I_DIVU ?a ?b = Some qu" "mext_result I_REMU ?a ?b = Some ru"
    "if ?b = 0 then unat qu = 2 ^ 32 - 1 \<and> ru = ?a else unat ?a = unat ?b * unat qu + unat ru \<and> unat ru < unat ?b"
    using mext_divide_unsigned [of ?a ?b] by blast
  show ?thesis
    unfolding Let_def
    using div(3) divu(3) mul
    by (simp add: mext_seq_result [OF div(1)] mext_seq_result [OF div(2)] mext_seq_result [OF divu(1)]
        mext_seq_result [OF divu(2)] mext_seq_result)
qed

end
