(* ===== verification/Exec.thy ===== *)
theory Exec
  imports Decode Pmp Tlb Plic Clint
begin

unbundle bit_operations_syntax

text \<open>
  The execute stage of \<^verbatim>\<open>src/src/exec.hpp\<close>: arithmetic, memory requests, control flow, the
  CSR file, traps and interrupts, and the write-back registers.

  The stage has three processes. \<^verbatim>\<open>exec_comb\<close> runs at the falling clock edge and computes,
  from the instruction in \<^verbatim>\<open>id_ex_port\<close>, the output ports and the members whose names start
  with an underscore; \<^verbatim>\<open>exec_seq\<close> and \<^verbatim>\<open>writeback_seq\<close> run at the rising edge and use them.
  The CSR file is a vector of signals: a read sees the values from before the edge, and of
  several writes in one activation the last one counts. So \<^verbatim>\<open>exec_seq\<close> computes the new file
  from reads of the old one. \<^verbatim>\<open>priv\<close> is a plain member. CSR addresses are the 12-bit field of
  the instruction; the file is a function on them.
\<close>

subsection \<open>State\<close>

type_synonym csr_file = "u16 \<Rightarrow> u32"

text \<open>The members and local variables that one run of \<^verbatim>\<open>exec_comb\<close> assigns. \<open>c_npc\<close> and
  \<open>c_req\<close> are its locals \<^verbatim>\<open>_npc\<close> and \<^verbatim>\<open>mmu_req\<close>; \<open>c_mext_req\<close> is the port \<^verbatim>\<open>mext_req_ack\<close>,
  which only a multiply or divide writes; \<open>c_tlb\<close> is the TLB, which SFENCE.VMA flushes.\<close>

record COMB =
  c_rd_val :: u32
  c_on_trap :: bool
  c_stall :: bool
  c_flush :: bool
  c_csr_access :: bool
  c_csr_mret :: bool
  c_csr_sret :: bool
  c_cause :: u32
  c_tval :: u32
  c_epc :: u32
  c_branch_taken :: bool
  c_npc :: u32
  c_req :: DMEM_IN
  c_mext_req :: bool
  c_tlb :: TLB

record EXEC =
  x_priv :: u32
  x_pmp :: PMP
  x_csr :: csr_file
  x_entry :: u32
  x_val :: u32
  x_comb :: COMB
  ex_pc :: u32
  ex_stall :: bool
  ex_branch_taken :: bool
  ex_flush :: bool
  ex_npc :: u32
  ex_to_dmmu :: DMEM_IN
  ex_write_rd :: bool
  ex_rd_val :: u32
  ex_rd :: u8
  wb_stall :: bool
  wb_write_rd :: bool
  wb_rd_val :: u32
  wb_rd :: u8
  wb_pc :: u32
  wb_type :: InstrType

text \<open>The input ports and the two devices the stage reads through pointers.\<close>

record EXEC_IN =
  xi_rst :: bool
  xi_id_ex :: ID_EX
  xi_mext_rsp_ack :: bool
  xi_mext_result :: u32
  xi_dmmu_to_ex :: MMU_RSP
  xi_clint :: CLINT_DEV
  xi_plic :: "PLIC_DEV option"

definition reset_csr_registers :: "csr_file \<Rightarrow> csr_file" where
  "reset_csr_registers csr =
     csr(CSR_MSTATUS := 0x00001800, CSR_MEDELEG := 0, CSR_MIDELEG := 0, CSR_MIE := 0,
         CSR_MISA := push_bit 30 1 OR push_bit 8 1 OR push_bit 12 1 OR push_bit 20 1 OR push_bit 18 1
           OR push_bit 2 1 OR 1,
         CSR_MTVEC := 0, CSR_MSCRATCH := 0, CSR_MEPC := 0, CSR_MCAUSE := 0, CSR_MTVAL := 0, CSR_MIP := 0,
         CSR_STVEC := 0, CSR_SSCRATCH := 0, CSR_SEPC := 0, CSR_SCAUSE := 0, CSR_STVAL := 0, CSR_SATP := 0)"

definition COMB_ctor :: "TLBEntry \<Rightarrow> COMB" where
  "COMB_ctor junk =
     \<lparr>c_rd_val = 0, c_on_trap = False, c_stall = False, c_flush = False, c_csr_access = False,
      c_csr_mret = False, c_csr_sret = False, c_cause = 0, c_tval = 0, c_epc = 0,
      c_branch_taken = False, c_npc = 0, c_req = DMEM_IN_ctor, c_mext_req = False,
      c_tlb = TLB_ctor junk\<rparr>"

definition EXEC_ctor :: "TLBEntry \<Rightarrow> u32 \<Rightarrow> EXEC" where
  "EXEC_ctor junk entry =
     \<lparr>x_priv = 3, x_pmp = PMP_ctor, x_csr = reset_csr_registers (\<lambda>_. 0), x_entry = entry, x_val = 0,
      x_comb = COMB_ctor junk, ex_pc = 0, ex_stall = False, ex_branch_taken = False,
      ex_flush = False, ex_npc = 0, ex_to_dmmu = DMEM_IN_ctor, ex_write_rd = False, ex_rd_val = 0,
      ex_rd = 0, wb_stall = False, wb_write_rd = False, wb_rd_val = 0, wb_rd = 0, wb_pc = 0,
      wb_type = I_LUI\<rparr>"

subsection \<open>Pending interrupts and trap targets\<close>

definition stimecmp :: "csr_file \<Rightarrow> u64" where
  "stimecmp csr = push_bit 32 (ucast (csr CSR_STIMECMPH)) OR ucast (csr CSR_STIMECMP)"

definition get_mip :: "EXEC_IN \<Rightarrow> csr_file \<Rightarrow> u32" where
  "get_mip i csr =
     (let mip = csr CSR_MIP;
          mip = (if mtime (xi_clint i) > stimecmp csr then mip OR MIP_STIP else mip);
          mip = (if mtime (xi_clint i) > mtimecmp (xi_clint i) then mip OR MIP_MTIP else mip);
          mip = (case xi_plic i of
                   Some p \<Rightarrow> (if core0_m_irq p \<noteq> 0 then mip OR MIP_MEIP else mip) | None \<Rightarrow> mip)
      in case xi_plic i of
           Some p \<Rightarrow> (if core0_s_irq p \<noteq> 0 then mip OR MIP_SEIP else mip) | None \<Rightarrow> mip)"

text \<open>The computation of \<^verbatim>\<open>delegated_to_s\<close>, which \<^verbatim>\<open>trap_pc\<close> and \<^verbatim>\<open>trap\<close> both contain. The
  cause numbers are below 32, the width of the delegation registers.\<close>

definition delegated_to_s :: "csr_file \<Rightarrow> u32 \<Rightarrow> u32 \<Rightarrow> bool" where
  "delegated_to_s csr priv cause =
     (let is_interrupt = cause AND 0x80000000 \<noteq> 0;
          cause_id = unat (cause AND 0x3ff)
      in if is_interrupt
         then priv < RV_PRIV_M_MODE \<and> csr CSR_MSTATUS AND MSTATUS_SIE \<noteq> 0 \<and>
              drop_bit cause_id (csr CSR_MIDELEG) AND 1 \<noteq> 0
         else priv < RV_PRIV_M_MODE \<and> drop_bit cause_id (csr CSR_MEDELEG) AND 1 \<noteq> 0)"

definition tvec_target :: "u32 \<Rightarrow> u32 \<Rightarrow> u32" where
  "tvec_target tvec cause_id =
     (if tvec AND 1 \<noteq> 0 then (tvec AND NOT 3) + 4 * (cause_id AND 0x3ff) else tvec AND NOT 1)"

definition trap_pc :: "csr_file \<Rightarrow> u32 \<Rightarrow> u32 \<Rightarrow> u32" where
  "trap_pc csr priv cause =
     (let cause_id = cause AND 0x3ff
      in if delegated_to_s csr priv cause then tvec_target (csr CSR_STVEC) cause_id
         else tvec_target (csr CSR_MTVEC) cause_id)"

text \<open>\<^verbatim>\<open>__builtin_ctz\<close>: the number of trailing zeros.\<close>

definition ctz :: "u32 \<Rightarrow> nat" where
  "ctz w = length (takeWhile (\<lambda>n. \<not> bit w n) [0..<32])"

definition pending_enabled :: "EXEC_IN \<Rightarrow> csr_file \<Rightarrow> u32 \<Rightarrow> u32" where
  "pending_enabled i csr priv =
     (let pending_interrupt = get_mip i csr AND csr CSR_MIE;
          s_int = pending_interrupt AND csr CSR_MIDELEG;
          s_en = (priv = RV_PRIV_S_MODE \<and> csr CSR_MSTATUS AND MSTATUS_SIE \<noteq> 0) \<or> priv < RV_PRIV_S_MODE;
          m_int = pending_interrupt AND NOT (csr CSR_MIDELEG);
          m_en = (csr CSR_MSTATUS AND MSTATUS_MIE \<noteq> 0 \<and> priv = RV_PRIV_M_MODE) \<or> priv < RV_PRIV_M_MODE;
          final_int = 0;
          final_int = (if m_en then final_int OR m_int else final_int)
      in if s_en then final_int OR s_int else final_int)"

definition select_interrupt :: "u32 \<Rightarrow> u32" where
  "select_interrupt final_int =
     (if final_int AND MIP_MEIP \<noteq> 0 then MIP_MEIP
      else if final_int AND MIP_MSIP \<noteq> 0 then MIP_MSIP
      else if final_int AND MIP_MTIP \<noteq> 0 then MIP_MTIP
      else if final_int AND MIP_SEIP \<noteq> 0 then MIP_SEIP
      else if final_int AND MIP_SSIP \<noteq> 0 then MIP_SSIP
      else if final_int AND MIP_STIP \<noteq> 0 then MIP_STIP
      else final_int)"

text \<open>\<^verbatim>\<open>check_interrupt\<close>: the cause it stores through its pointer, if it returns true.\<close>

definition check_interrupt :: "EXEC_IN \<Rightarrow> csr_file \<Rightarrow> u32 \<Rightarrow> u32 option" where
  "check_interrupt i csr priv =
     (let final_int = pending_enabled i csr priv
      in if final_int \<noteq> 0
         then Some (push_bit 31 1 OR of_nat (ctz (select_interrupt final_int)))
         else None)"

subsection \<open>exec_comb\<close>

definition comb_init :: "EXEC_IN \<Rightarrow> EXEC \<Rightarrow> COMB" where
  "comb_init i s =
     (let d = xi_id_ex i
      in (x_comb s)\<lparr>c_on_trap := False, c_stall := False, c_flush := False, c_csr_access := False,
           c_csr_mret := False, c_csr_sret := False, c_cause := 0, c_tval := 0, c_epc := ex_pc s,
           c_branch_taken := False, c_rd_val := 0, c_npc := ex_pc s,
           c_req := DMEM_IN_ctor\<lparr>
             dmem_addr := (if ie_is_atomic d then ie_rs1_val d else ie_rs1_val d + ie_imm d),
             dmem_wdata := ie_rs2_val d, dmem_is_amo := ie_is_atomic d, dmem_amoop := ie_amo_type d,
             dmem_is_load := ie_is_load d, dmem_is_store := ie_is_store d, dmem_req_ack := False,
             dmem_size := ie_mem_size d\<rparr>\<rparr>)"

definition of_bool32 :: "bool \<Rightarrow> u32" where
  "of_bool32 b = (if b then 1 else 0)"

text \<open>The cases from LUI to AND: the value for the destination register.\<close>

definition alu_result :: "ID_EX \<Rightarrow> u32 option" where
  "alu_result d =
     (let t = ie_type d; a = ie_rs1_val d; b = ie_rs2_val d; imm = ie_imm d
      in if t = I_LUI then Some imm
         else if t = I_AUIPC then Some (ie_pc d + imm)
         else if t = I_ADDI then Some (a + imm)
         else if t = I_SLTI then Some (of_bool32 (a <s imm))
         else if t = I_SLTIU then Some (of_bool32 (a < imm))
         else if t = I_XORI then Some (a XOR imm)
         else if t = I_ORI then Some (a OR imm)
         else if t = I_ANDI then Some (a AND imm)
         else if t = I_SLLI then Some (push_bit (unat (imm AND 0x1F)) a)
         else if t = I_SRLI then Some (drop_bit (unat (imm AND 0x1F)) a)
         else if t = I_SRAI then Some (signed_drop_bit (unat (imm AND 0x1F)) a)
         else if t = I_ADD then Some (a + b)
         else if t = I_SUB then Some (a - b)
         else if t = I_SLL then Some (push_bit (unat (b AND 0x1F)) a)
         else if t = I_SLT then Some (of_bool32 (a <s b))
         else if t = I_SLTU then Some (of_bool32 (a < b))
         else if t = I_XOR then Some (a XOR b)
         else if t = I_SRL then Some (drop_bit (unat (b AND 0x1F)) a)
         else if t = I_SRA then Some (signed_drop_bit (unat (b AND 0x1F)) a)
         else if t = I_OR then Some (a OR b)
         else if t = I_AND then Some (a AND b)
         else None)"

definition mext_types :: "InstrType list" where
  "mext_types = [I_MUL, I_MULH, I_MULHSU, I_MULHU, I_DIV, I_DIVU, I_REM, I_REMU]"

definition ex_mext :: "EXEC_IN \<Rightarrow> EXEC \<Rightarrow> COMB \<Rightarrow> COMB" where
  "ex_mext i s c =
     c\<lparr>c_mext_req := \<not> wb_stall s, c_stall := \<not> xi_mext_rsp_ack i, c_rd_val := xi_mext_result i\<rparr>"

definition mem_types :: "InstrType list" where
  "mem_types = [I_LB, I_LH, I_LW, I_LBU, I_LHU, I_SB, I_SH, I_SW, I_LR_W, I_SC_W, I_AMOSWAP_W,
     I_AMOADD_W, I_AMOXOR_W, I_AMOAND_W, I_AMOOR_W, I_AMOMIN_W, I_AMOMAX_W, I_AMOMINU_W, I_AMOMAXU_W]"

definition ex_mem :: "EXEC_IN \<Rightarrow> EXEC \<Rightarrow> COMB \<Rightarrow> COMB" where
  "ex_mem i s c =
     (let rsp = xi_dmmu_to_ex i
      in c\<lparr>c_tval := mmu_rsp_tval rsp, c_stall := \<not> mmu_rsp_ack rsp,
           c_cause := ucast (mmu_rsp_fault rsp), c_on_trap := mmu_rsp_fault rsp \<noteq> 0,
           c_req := (c_req c)\<lparr>dmem_req_ack := \<not> wb_stall s\<rparr>\<rparr>)"

text \<open>A taken jump or branch to \<open>target\<close>.\<close>

definition go_to :: "u32 \<Rightarrow> COMB \<Rightarrow> COMB" where
  "go_to target c =
     (let c1 = c\<lparr>c_npc := target, c_branch_taken := True\<rparr>
      in if target AND 1 \<noteq> 0
         then c1\<lparr>c_stall := False, c_tval := target, c_cause := INSTR_ADDR_MISALIGNED, c_on_trap := True\<rparr>
         else c1)"

definition ex_jump :: "ID_EX \<Rightarrow> u32 \<Rightarrow> COMB \<Rightarrow> COMB" where
  "ex_jump d target c =
     go_to target (c\<lparr>c_rd_val := (if ie_is_compressed d then ie_pc d + 2 else ie_pc d + 4)\<rparr>)"

definition branch_cond :: "InstrType \<Rightarrow> u32 \<Rightarrow> u32 \<Rightarrow> bool option" where
  "branch_cond t a b =
     (if t = I_BEQ then Some (a = b)
      else if t = I_BNE then Some (a \<noteq> b)
      else if t = I_BLT then Some (a <s b)
      else if t = I_BGE then Some (b \<le>s a)
      else if t = I_BLTU then Some (a < b)
      else if t = I_BGEU then Some (a \<ge> b)
      else None)"

definition ex_branch :: "ID_EX \<Rightarrow> bool \<Rightarrow> COMB \<Rightarrow> COMB" where
  "ex_branch d taken c =
     (if taken then go_to (ie_pc d + ie_imm d) (c\<lparr>c_rd_val := ie_pc d + ie_imm d\<rparr>) else c)"

definition raise_illegal :: "COMB \<Rightarrow> COMB" where
  "raise_illegal c = c\<lparr>c_cause := ILLEGAL_INSTR, c_on_trap := True\<rparr>"

text \<open>FENCE.I, SFENCE.VMA, ECALL, EBREAK, WFI, SRET and MRET.\<close>

definition ex_system :: "EXEC_IN \<Rightarrow> EXEC \<Rightarrow> COMB \<Rightarrow> COMB" where
  "ex_system i s c =
     (let d = xi_id_ex i; t = ie_type d; priv = x_priv s; csr = x_csr s; mstatus = csr CSR_MSTATUS
      in if t = I_FENCE_I then c\<lparr>c_flush := True, c_cause := 0, c_on_trap := False\<rparr>
         else if t = I_SFENCE_VMA
         then (if priv = RV_PRIV_U_MODE \<or> priv = RV_PRIV_S_MODE \<and> mstatus AND MSTATUS_TVM \<noteq> 0
               then raise_illegal c
               else c\<lparr>c_tlb := tlb_flush (ie_rs2_val d) (ie_rs1_val d) (c_tlb c), c_flush := True,
                      c_cause := 0, c_on_trap := False\<rparr>)
         else if t = I_ECALL
         then c\<lparr>c_epc := ie_pc d,
                c_cause := (if priv = RV_PRIV_M_MODE then ECALL_M
                            else if priv = RV_PRIV_S_MODE then ECALL_S else ECALL_U),
                c_on_trap := True\<rparr>
         else if t = I_EBREAK then c\<lparr>c_cause := BREAKPOINT, c_on_trap := True, c_tval := ie_pc d\<rparr>
         else if t = I_WFI
         then (if priv < RV_PRIV_S_MODE \<or> priv = RV_PRIV_S_MODE \<and> mstatus AND MSTATUS_TW \<noteq> 0
               then raise_illegal c
               else c\<lparr>c_stall := csr CSR_MIE AND get_mip i csr = 0\<rparr>)
         else if t = I_SRET
         then (if priv = RV_PRIV_S_MODE \<and> mstatus AND MSTATUS_TSR \<noteq> 0 then raise_illegal c
               else c\<lparr>c_csr_sret := True, c_flush := True\<rparr>)
         else if t = I_MRET then c\<lparr>c_csr_mret := True, c_flush := True\<rparr>
         else c)"

subsubsection \<open>Reading a CSR\<close>

definition is_pmpcfg :: "u16 \<Rightarrow> bool" where
  "is_pmpcfg a \<longleftrightarrow> a \<ge> PMPCONFIG0 \<and> a < PMPCONFIG0 + 16"

definition is_pmpaddr :: "u16 \<Rightarrow> bool" where
  "is_pmpaddr a \<longleftrightarrow> a \<ge> PMPADDR0 \<and> a < PMPADDR0 + 64"

definition pmpcfg_read :: "u8 list \<Rightarrow> nat \<Rightarrow> u32 \<Rightarrow> u32" where
  "pmpcfg_read cfg b v = fold (\<lambda>t v. push_bit 8 v OR ucast (cfg ! (b + t))) [3, 2, 1, 0] v"

definition sip_read :: "EXEC_IN \<Rightarrow> csr_file \<Rightarrow> u32" where
  "sip_read i csr =
     (let v = csr CSR_MIP;
          v = (if mtime (xi_clint i) > stimecmp csr then v OR MIP_STIP else v);
          v = (case xi_plic i of Some p \<Rightarrow> (if core0_s_irq p \<noteq> 0 then v OR MIP_SEIP else v) | None \<Rightarrow> v)
      in v AND csr CSR_MIDELEG)"

text \<open>\<^verbatim>\<open>mcycle\<close> and its companions: \<open>allowed\<close> is the condition on the privilege and the
  counter-enable bit.\<close>

definition counter_read :: "bool \<Rightarrow> u32 \<Rightarrow> u32 \<Rightarrow> COMB \<Rightarrow> COMB" where
  "counter_read allowed v inst c =
     (if allowed then c\<lparr>c_rd_val := v\<rparr>
      else c\<lparr>c_on_trap := True, c_cause := ILLEGAL_INSTR, c_tval := inst\<rparr>)"

definition counter_allowed :: "EXEC \<Rightarrow> u32 \<Rightarrow> bool" where
  "counter_allowed s b \<longleftrightarrow>
     x_priv s > RV_PRIV_S_MODE \<or> x_priv s = RV_PRIV_S_MODE \<and> x_csr s CSR_MCOUNTEREN AND b \<noteq> 0"

definition csr_read :: "EXEC_IN \<Rightarrow> EXEC \<Rightarrow> COMB \<Rightarrow> COMB" where
  "csr_read i s c =
     (let d = xi_id_ex i; a = ie_csr_addr d; inst = ie_inst d; priv = x_priv s; csr = x_csr s
      in if a = CSR_MSTATUS then c\<lparr>c_rd_val := csr CSR_MSTATUS AND MSTATUS_MASK\<rparr>
         else if a = CSR_MIP then c\<lparr>c_rd_val := get_mip i csr AND MIP_RMASK\<rparr>
         else if a = CSR_MIDELEG then c\<lparr>c_rd_val := csr CSR_MIDELEG\<rparr>
         else if a = CSR_MCYCLE then counter_read (counter_allowed s 1) (csr CSR_MCYCLE) inst c
         else if a = CSR_MCYCLEH then counter_read (counter_allowed s 1) (csr CSR_MCYCLEH) inst c
         else if a = CSR_MINSTRET then counter_read (counter_allowed s 4) (csr CSR_MINSTRET) inst c
         else if a = CSR_MINSTRETH then counter_read (counter_allowed s 4) (csr CSR_MINSTRETH) inst c
         else if a = CSR_SSTATUS then c\<lparr>c_rd_val := csr CSR_MSTATUS AND SSTATUS_MASK\<rparr>
         else if a = CSR_SIE then c\<lparr>c_rd_val := csr CSR_MIE AND csr CSR_MIDELEG\<rparr>
         else if a = CSR_SIP then c\<lparr>c_rd_val := sip_read i csr\<rparr>
         else if a = CSR_SATP
         then (if priv > RV_PRIV_S_MODE \<or> priv = RV_PRIV_S_MODE \<and> csr CSR_MSTATUS AND MSTATUS_TVM = 0
               then c\<lparr>c_rd_val := csr CSR_SATP, c_flush := True\<rparr>
               else c\<lparr>c_on_trap := True, c_cause := ILLEGAL_INSTR, c_tval := inst\<rparr>)
         else if a = CSR_CYCLE then c\<lparr>c_rd_val := csr CSR_MCYCLE\<rparr>
         else if a = CSR_CYCLEH then c\<lparr>c_rd_val := csr CSR_MCYCLEH\<rparr>
         else c\<lparr>c_rd_val :=
                  (if is_pmpcfg a then pmpcfg_read (pmpconfig (x_pmp s)) (unat (a - PMPCONFIG0) * 4) (c_rd_val c)
                   else if is_pmpaddr a then ucast (pmpaddr (x_pmp s) ! unat (a - PMPADDR0))
                   else csr a),
                c_flush := priv = 3 \<and> (is_pmpcfg a \<or> is_pmpaddr a)\<rparr>)"

definition csr_types :: "InstrType list" where
  "csr_types = [I_CSRRW, I_CSRRWI, I_CSRRS, I_CSRRC, I_CSRRSI, I_CSRRCI]"

text \<open>The access check: the privilege in bits 9:8 of the address, and no write to the
  read-only quarter, bits 11:10 both set.\<close>

definition csr_permitted :: "ID_EX \<Rightarrow> u32 \<Rightarrow> bool" where
  "csr_permitted d priv \<longleftrightarrow>
     (let csr_write = (ie_type d = I_CSRRW \<or> ie_type d = I_CSRRWI)
      in ucast (drop_bit 8 (ie_csr_addr d) AND 3) \<le> priv \<and>
         (ie_csr_addr d AND 0xc00 \<noteq> 0xc00 \<or> \<not> csr_write \<and> ie_csr_val d = 0))"

definition ex_csr :: "EXEC_IN \<Rightarrow> EXEC \<Rightarrow> COMB \<Rightarrow> COMB" where
  "ex_csr i s c =
     (let d = xi_id_ex i
      in if csr_permitted d (x_priv s) then csr_read i s (c\<lparr>c_csr_access := True\<rparr>)
         else c\<lparr>c_on_trap := True, c_cause := ILLEGAL_INSTR, c_tval := ie_inst d\<rparr>)"

subsubsection \<open>The instruction switch and the outputs\<close>

definition system_types :: "InstrType list" where
  "system_types = [I_FENCE_I, I_SFENCE_VMA, I_ECALL, I_EBREAK, I_WFI, I_SRET, I_MRET]"

definition ex_instr :: "EXEC_IN \<Rightarrow> EXEC \<Rightarrow> COMB \<Rightarrow> COMB" where
  "ex_instr i s c =
     (let d = xi_id_ex i; t = ie_type d; a = ie_rs1_val d; b = ie_rs2_val d
      in case alu_result d of
           Some v \<Rightarrow> c\<lparr>c_rd_val := v\<rparr>
         | None \<Rightarrow>
             if t \<in> set mext_types then ex_mext i s c
             else if t \<in> set mem_types then ex_mem i s c
             else if t = I_JAL then ex_jump d (ie_pc d + ie_imm d) c
             else if t = I_JALR then ex_jump d ((a + ie_imm d) AND NOT 1) c
             else (case branch_cond t a b of
                     Some taken \<Rightarrow> ex_branch d taken c
                   | None \<Rightarrow>
                       if t \<in> set system_types then ex_system i s c
                       else if t \<in> set csr_types then ex_csr i s c
                       else if t = I_INVALID
                       then c\<lparr>c_cause := ILLEGAL_INSTR, c_on_trap := True, c_tval := ie_inst d\<rparr>
                       else c))"

definition exec_dispatch :: "EXEC_IN \<Rightarrow> EXEC \<Rightarrow> COMB \<Rightarrow> COMB" where
  "exec_dispatch i s c =
     (let d = xi_id_ex i;
          interrupt = (if \<not> wb_stall s \<or> ie_type d = I_WFI
                       then check_interrupt i (x_csr s) (x_priv s) else None)
      in if xi_rst i
         then c\<lparr>c_req := (c_req c)\<lparr>dmem_req_ack := False, dmem_is_amo := False, dmem_is_load := False,
                           dmem_is_store := False\<rparr>, c_npc := x_entry s\<rparr>
         else case interrupt of
           Some cause \<Rightarrow> c\<lparr>c_cause := cause, c_tval := 0, c_on_trap := True, c_stall := False\<rparr>
         | None \<Rightarrow>
             if \<not> ie_flush d
             then (let c1 = c\<lparr>c_npc := (if ie_is_compressed d then ex_pc s + 2 else ex_pc s + 4)\<rparr>
                   in if ie_on_trap d
                      then c1\<lparr>c_cause := ie_cause d, c_tval := ie_tval d, c_on_trap := True\<rparr>
                      else ex_instr i s c1)
             else c)"

definition exec_outputs :: "EXEC_IN \<Rightarrow> COMB \<Rightarrow> EXEC \<Rightarrow> EXEC" where
  "exec_outputs i c s =
     (let d = xi_id_ex i; rsp = xi_dmmu_to_ex i; csr = x_csr s;
          quiet = (\<lambda>pc. s\<lparr>ex_npc := pc, ex_write_rd := False, ex_rd_val := 0\<rparr>);
          s1 = (if c_on_trap c then quiet (trap_pc csr (x_priv s) (c_cause c))
                else if c_csr_sret c then quiet (csr CSR_SEPC AND NOT 1)
                else if c_csr_mret c then quiet (csr CSR_MEPC AND NOT 1)
                else if c_stall c then quiet (ex_pc s)
                else s\<lparr>ex_npc := c_npc c, ex_write_rd := ie_writes_rd d,
                       ex_rd_val :=
                         (if mmu_rsp_ack rsp
                          then (if ie_type d = I_LB then sign_extend (mmu_rsp_rdata rsp) 8
                                else if ie_type d = I_LH then sign_extend (mmu_rsp_rdata rsp) 16
                                else mmu_rsp_rdata rsp)
                          else c_rd_val c)\<rparr>)
      in s1\<lparr>ex_branch_taken := c_branch_taken c, ex_to_dmmu := c_req c, ex_rd := ie_rd d,
            ex_stall := c_stall c, ex_flush := c_on_trap c \<or> c_flush c, x_comb := c\<rparr>)"

definition exec_comb :: "EXEC_IN \<Rightarrow> EXEC \<Rightarrow> EXEC" where
  "exec_comb i s = exec_outputs i (exec_dispatch i s (comb_init i s)) s"

subsection \<open>exec_seq\<close>

definition csr_mask :: "csr_file \<Rightarrow> u16 \<Rightarrow> u32" where
  "csr_mask csr addr =
     (if addr = CSR_MSTATUS then MSTATUS_MASK
      else if addr = CSR_MIP then MIP_WMASK
      else if addr = CSR_SSTATUS then SSTATUS_MASK
      else if addr = CSR_SIP then SIP_WMASK
      else if addr = CSR_SIE then csr CSR_MIDELEG
      else if addr \<in> {CSR_MISA, CSR_TSELECT, CSR_TDATA1, CSR_TDATA2, CSR_TDATA3, CSR_MCONTEXT, CSR_MHARTID}
      then 0
      else - 1)"

definition csr_wdata :: "csr_file \<Rightarrow> ID_EX \<Rightarrow> u16 \<Rightarrow> u32 \<Rightarrow> u32" where
  "csr_wdata csr d addr cur_val =
     (let mask = csr_mask csr addr; t = ie_type d; v = ie_csr_val d
      in if t = I_CSRRW then (cur_val AND NOT mask) OR (v AND mask)
         else if t = I_CSRRS then cur_val OR (v AND mask)
         else if t = I_CSRRC then cur_val AND NOT (v AND mask)
         else if t = I_CSRRWI then (cur_val AND NOT mask) OR (v AND mask)
         else if t = I_CSRRSI then cur_val OR (v AND mask)
         else if t = I_CSRRCI then cur_val AND NOT (v AND mask)
         else cur_val)"

definition trap :: "EXEC \<Rightarrow> EXEC" where
  "trap s =
     (let c = x_comb s; csr = x_csr s; priv = x_priv s; mstatus = csr CSR_MSTATUS
      in if delegated_to_s csr priv (c_cause c)
         then (let sie = drop_bit MSTATUS_SIE_SHIFT (mstatus AND MSTATUS_SIE);
                   m1 = mstatus AND NOT MSTATUS_SPIE;
                   m2 = m1 OR push_bit MSTATUS_SPIE_SHIFT sie;
                   m3 = m2 AND NOT MSTATUS_SIE;
                   spp_val = (if priv = RV_PRIV_S_MODE then 1 else 0);
                   m4 = (m3 AND NOT MSTATUS_SPP) OR push_bit MSTATUS_SPP_SHIFT spp_val
               in s\<lparr>x_csr := csr(CSR_SCAUSE := c_cause c, CSR_SEPC := c_epc c AND NOT 1,
                                  CSR_STVAL := c_tval c, CSR_MSTATUS := m4),
                    x_priv := RV_PRIV_S_MODE\<rparr>)
         else (let mie = drop_bit MSTATUS_MIE_SHIFT (mstatus AND MSTATUS_MIE);
                   m1 = mstatus AND NOT MSTATUS_MPIE;
                   m2 = m1 OR push_bit MSTATUS_MPIE_SHIFT mie;
                   m3 = m2 AND NOT MSTATUS_MIE;
                   m4 = m3 OR push_bit MSTATUS_MPP_SHIFT priv
               in s\<lparr>x_csr := csr(CSR_MCAUSE := c_cause c, CSR_MEPC := c_epc c AND NOT 1,
                                  CSR_MTVAL := c_tval c, CSR_MSTATUS := m4),
                    x_priv := RV_PRIV_M_MODE\<rparr>))"

definition return_from_trap :: "bool \<Rightarrow> EXEC \<Rightarrow> EXEC" where
  "return_from_trap mmode s =
     (let mstatus = x_csr s CSR_MSTATUS
      in if mmode
         then (let priv = drop_bit MSTATUS_MPP_SHIFT (mstatus AND MSTATUS_MPP);
                   m1 = (if priv \<noteq> RV_PRIV_M_MODE then mstatus AND NOT MSTATUS_MPRV else mstatus);
                   m2 = m1 AND NOT MSTATUS_MPP;
                   mpie = drop_bit MSTATUS_MPIE_SHIFT (m2 AND MSTATUS_MPIE);
                   m3 = m2 OR push_bit MSTATUS_MIE_SHIFT mpie;
                   m4 = m3 OR MSTATUS_MPIE
               in s\<lparr>x_csr := (x_csr s)(CSR_MSTATUS := m4), x_priv := priv\<rparr>)
         else (let priv = drop_bit MSTATUS_SPP_SHIFT (mstatus AND MSTATUS_SPP);
                   m1 = (if priv \<noteq> RV_PRIV_M_MODE then mstatus AND NOT MSTATUS_MPRV else mstatus);
                   m2 = m1 AND NOT MSTATUS_SPP;
                   spie = drop_bit MSTATUS_SPIE_SHIFT (m2 AND MSTATUS_SPIE);
                   m3 = m2 OR push_bit MSTATUS_SIE_SHIFT spie;
                   m4 = m3 OR MSTATUS_SPIE
               in s\<lparr>x_csr := (x_csr s)(CSR_MSTATUS := m4), x_priv := priv\<rparr>))"

text \<open>The CSR write of an instruction that was not trapped. The addresses whose case does
  nothing are listed as in the source; the two PMP ranges of the "hard wired 0" test are empty.\<close>

definition unwritten_csrs :: "u16 list" where
  "unwritten_csrs = [CSR_MCYCLE, CSR_MCYCLEH, CSR_MINSTRET, CSR_MINSTRETH, CSR_MISA, CSR_TSELECT,
     CSR_TDATA1, CSR_TDATA2, CSR_TDATA3, CSR_MCONTEXT, CSR_MHARTID]"

definition csr_write :: "ID_EX \<Rightarrow> EXEC \<Rightarrow> EXEC" where
  "csr_write d s =
     (let addr = ie_csr_addr d; csr = x_csr s; wr = (\<lambda>a v. s\<lparr>x_csr := csr(a := v), x_val := v\<rparr>)
      in if addr = CSR_SSTATUS then wr CSR_MSTATUS (csr_wdata csr d addr (csr CSR_MSTATUS))
         else if addr = CSR_SIE then wr CSR_MIE (csr_wdata csr d addr (csr CSR_MIE))
         else if addr = CSR_SIP \<or> addr = CSR_MIP then wr CSR_MIP (csr_wdata csr d addr (csr CSR_MIP))
         else if addr \<in> set unwritten_csrs then s
         else if is_pmpcfg addr \<and> x_priv s = 3
         then s\<lparr>x_pmp := update_config (unat (addr - PMPCONFIG0)) (x_val s) (x_pmp s)\<rparr>
         else if is_pmpaddr addr \<and> x_priv s = 3
         then s\<lparr>x_pmp := update_addr (unat (addr - PMPADDR0)) (x_val s) (x_pmp s)\<rparr>
         else if addr \<ge> PMPADDR0 + 16 \<and> addr < PMPCONFIG0 + 16 \<or>
                 addr \<ge> PMPADDR0 + 64 \<and> addr < PMPADDR0 + 64 \<or>
                 addr > CSR_MCYCLE + 2 \<and> addr < CSR_MCYCLE + 32 \<or>
                 addr > CSR_MCYCLEH + 2 \<and> addr < CSR_MCYCLEH + 32
         then s
         else s\<lparr>x_csr := csr(addr := x_val s)\<rparr>)"

text \<open>The writes of one 64-bit counter, from the old file \<open>old\<close> into the new one \<open>csr\<close>.\<close>

definition counter_update :: "csr_file \<Rightarrow> u16 \<Rightarrow> u16 \<Rightarrow> u16 \<Rightarrow> u32 \<Rightarrow> bool \<Rightarrow> csr_file \<Rightarrow> csr_file" where
  "counter_update old lo hi addr val counting csr =
     (if lo = addr then csr(lo := val)
      else if hi = addr then csr(hi := val)
      else if counting
      then csr(lo := old lo + 1, hi := old hi + (if old lo = - 1 then 1 else 0))
      else csr)"

definition inst_ret :: "EXEC_IN \<Rightarrow> EXEC \<Rightarrow> bool" where
  "inst_ret i s =
     (let c = x_comb s; cause = c_cause c
      in if c_on_trap c
         then (cause = ECALL_M \<or> cause = ECALL_S \<or> cause = ECALL_U \<or> cause = BREAKPOINT) \<or>
              cause AND 0x80000000 \<noteq> 0 \<and> ie_type (xi_id_ex i) = I_WFI
         else \<not> ex_stall s)"

definition exec_seq :: "EXEC_IN \<Rightarrow> EXEC \<Rightarrow> EXEC" where
  "exec_seq i s =
     (let d = xi_id_ex i; addr = ie_csr_addr d; c = x_comb s; old = x_csr s;
          s0 = s\<lparr>x_val := csr_wdata old d addr (c_rd_val c)\<rparr>;
          s1 = (if c_on_trap c then trap s0
                else if c_csr_sret c \<or> c_csr_mret c then return_from_trap (c_csr_mret c) s0
                else if c_csr_access c then csr_write d s0 else s0);
          csr1 = (x_csr s1)(CSR_TIME := ucast (mtime (xi_clint i)),
                            CSR_TIMEH := ucast (drop_bit 32 (mtime (xi_clint i))));
          csr2 = counter_update old CSR_MCYCLE CSR_MCYCLEH addr (x_val s1)
                   (old CSR_MCOUNTERINHIBIT AND 1 = 0) csr1;
          csr3 = counter_update old CSR_MINSTRET CSR_MINSTRETH addr (x_val s1)
                   (old CSR_MCOUNTERINHIBIT AND 4 = 0 \<and> inst_ret i s) csr2
      in s1\<lparr>x_csr := csr3\<rparr>)"

subsection \<open>PMP checks and write-back\<close>

definition pmp_dcheck :: "EXEC \<Rightarrow> u64 \<Rightarrow> u8 \<Rightarrow> u8 \<Rightarrow> bool" where
  "pmp_dcheck s addr op sz =
     (if x_csr s CSR_MSTATUS AND MSTATUS_MPRV \<noteq> 0
      then dcheck (x_pmp s) addr op sz (ucast (drop_bit MSTATUS_MPP_SHIFT (x_csr s CSR_MSTATUS AND MSTATUS_MPP)))
      else dcheck (x_pmp s) addr op sz (ucast (x_priv s)))"

definition pmp_icheck :: "EXEC \<Rightarrow> u64 \<Rightarrow> u8 \<Rightarrow> u8 \<Rightarrow> bool" where
  "pmp_icheck s addr op sz = icheck (x_pmp s) addr op sz (ucast (x_priv s))"

definition writeback_seq :: "EXEC_IN \<Rightarrow> EXEC \<Rightarrow> EXEC" where
  "writeback_seq i s =
     (if xi_rst i
      then s\<lparr>wb_write_rd := False, wb_rd_val := 0, wb_rd := 0, wb_pc := 0, wb_type := I_NOP,
             wb_stall := False, ex_pc := x_entry s\<rparr>
      else s\<lparr>wb_write_rd := ex_write_rd s, wb_rd_val := ex_rd_val s, wb_rd := ex_rd s,
             wb_pc := ie_pc (xi_id_ex i), wb_type := ie_type (xi_id_ex i), wb_stall := ex_stall s,
             ex_pc := ex_npc s\<rparr>)"

text \<open>One clock cycle of the stage: the falling edge, then the two processes of the rising
  edge. They write different members and neither reads what the other writes. The input ports
  change just after a rising edge, so the three processes see the same inputs.\<close>

definition exec_cycle :: "EXEC_IN \<Rightarrow> EXEC \<Rightarrow> EXEC" where
  "exec_cycle i s = writeback_seq i (exec_seq i (exec_comb i s))"

end
