(* ===== verification/Exec_Instr.thy ===== *)
theory Exec_Instr
  imports Exec
begin

unbundle bit_operations_syntax

text \<open>
  What the execute stage does with an arithmetic, control-flow or memory instruction: its
  outputs at the falling clock edge against the instruction set's definition on integers.
\<close>

text \<open>The instruction in the stage is executed in this cycle: no reset, no interrupt taken,
  no bubble, and no trap found by an earlier stage.\<close>

definition executes :: "EXEC_IN \<Rightarrow> EXEC \<Rightarrow> bool" where
  "executes i s \<longleftrightarrow>
     \<not> xi_rst i \<and> \<not> ie_flush (xi_id_ex i) \<and> \<not> ie_on_trap (xi_id_ex i) \<and>
     (wb_stall s \<and> ie_type (xi_id_ex i) \<noteq> I_WFI \<or> check_interrupt i (x_csr s) (x_priv s) = None)"

text \<open>The address of the next instruction in program order.\<close>

definition next_seq :: "EXEC_IN \<Rightarrow> EXEC \<Rightarrow> u32" where
  "next_seq i s = (if ie_is_compressed (xi_id_ex i) then ex_pc s + 2 else ex_pc s + 4)"

definition comb_exec :: "EXEC_IN \<Rightarrow> EXEC \<Rightarrow> COMB" where
  "comb_exec i s = (comb_init i s)\<lparr>c_npc := next_seq i s\<rparr>"

lemma exec_comb_executes:
  assumes "executes i s"
  shows "exec_comb i s = exec_outputs i (ex_instr i s (comb_exec i s)) s"
proof -
  have "exec_dispatch i s (comb_init i s) = ex_instr i s (comb_exec i s)"
    using assms by (auto simp: executes_def exec_dispatch_def comb_exec_def next_seq_def Let_def)
  then show ?thesis
    by (simp add: exec_comb_def)
qed

lemma comb_exec_simps [simp]:
  "\<not> c_on_trap (comb_exec i s)" "\<not> c_stall (comb_exec i s)" "\<not> c_flush (comb_exec i s)"
  "\<not> c_csr_access (comb_exec i s)" "\<not> c_csr_mret (comb_exec i s)" "\<not> c_csr_sret (comb_exec i s)"
  "c_cause (comb_exec i s) = 0" "c_tval (comb_exec i s) = 0" "c_epc (comb_exec i s) = ex_pc s"
  "\<not> c_branch_taken (comb_exec i s)" "c_rd_val (comb_exec i s) = 0"
  "c_npc (comb_exec i s) = next_seq i s"
  "c_req (comb_exec i s) = \<lparr>dmem_req_ack = False,
     dmem_addr = (if ie_is_atomic (xi_id_ex i) then ie_rs1_val (xi_id_ex i)
                  else ie_rs1_val (xi_id_ex i) + ie_imm (xi_id_ex i)),
     dmem_wdata = ie_rs2_val (xi_id_ex i), dmem_size = ie_mem_size (xi_id_ex i),
     dmem_is_load = ie_is_load (xi_id_ex i), dmem_is_store = ie_is_store (xi_id_ex i),
     dmem_is_amo = ie_is_atomic (xi_id_ex i), dmem_amoop = ie_amo_type (xi_id_ex i)\<rparr>"
  "c_mext_req (comb_exec i s) = c_mext_req (x_comb s)" "c_tlb (comb_exec i s) = c_tlb (x_comb s)"
  by (simp_all add: comb_exec_def comb_init_def DMEM_IN_ctor_def Let_def)

subsection \<open>Arithmetic\<close>

text \<open>The register-register and register-immediate operations on integers, before reduction
  modulo \<open>2\<^sup>32\<close>; \<open>b\<close> is the second operand.\<close>

definition arith_spec :: "InstrType \<Rightarrow> u32 \<Rightarrow> u32 \<Rightarrow> int option" where
  "arith_spec t a b =
     (let k = unat b mod 32
      in if t \<in> {I_ADD, I_ADDI} then Some (uint a + uint b)
         else if t = I_SUB then Some (uint a - uint b)
         else if t \<in> {I_SLT, I_SLTI} then Some (of_bool (sint a < sint b))
         else if t \<in> {I_SLTU, I_SLTIU} then Some (of_bool (uint a < uint b))
         else if t \<in> {I_XOR, I_XORI} then Some (uint a XOR uint b)
         else if t \<in> {I_OR, I_ORI} then Some (uint a OR uint b)
         else if t \<in> {I_AND, I_ANDI} then Some (uint a AND uint b)
         else if t \<in> {I_SLL, I_SLLI} then Some (uint a * 2 ^ k)
         else if t \<in> {I_SRL, I_SRLI} then Some (uint a div 2 ^ k)
         else if t \<in> {I_SRA, I_SRAI} then Some (sint a div 2 ^ k)
         else None)"

definition imm_types :: "InstrType set" where
  "imm_types = {I_ADDI, I_SLTI, I_SLTIU, I_XORI, I_ORI, I_ANDI, I_SLLI, I_SRLI, I_SRAI}"

definition alu_spec :: "ID_EX \<Rightarrow> int option" where
  "alu_spec d =
     (if ie_type d = I_LUI then Some (uint (ie_imm d))
      else if ie_type d = I_AUIPC then Some (uint (ie_pc d) + uint (ie_imm d))
      else arith_spec (ie_type d) (ie_rs1_val d)
             (if ie_type d \<in> imm_types then ie_imm d else ie_rs2_val d))"

lemma shift_amount: "unat (b AND 0x1F :: u32) = unat b mod 32"
proof -
  have "b AND 0x1F = take_bit 5 b"
    by (simp add: take_bit_eq_mask mask_eq_exp_minus_1)
  then show ?thesis
    by (simp only: unsigned_take_bit_eq) (simp add: take_bit_eq_mod)
qed

lemma word_ops_int:
  fixes a b :: u32
  shows "word_of_int (uint a + uint b) = a + b" "word_of_int (uint a - uint b) = a - b"
    "word_of_int (uint a XOR uint b) = a XOR b" "word_of_int (uint a OR uint b) = a OR b"
    "word_of_int (uint a AND uint b) = a AND b" "word_of_int (uint a * 2 ^ k) = push_bit k a"
    "word_of_int (uint a div 2 ^ k) = drop_bit k a" "word_of_int (sint a div 2 ^ k) = signed_drop_bit k a"
  unfolding drop_bit_eq_div [symmetric]
  by (simp_all add: push_bit_eq_mult) (intro bit_word_eqI; auto simp: bit_simps)+

lemma alu_result_spec: "alu_result d = map_option word_of_int (alu_spec d)"
  by (simp add: alu_result_def alu_spec_def arith_spec_def imm_types_def Let_def shift_amount
      word_ops_int of_bool32_def word_sless_alt word_less_def push_bit_eq_mult del: of_int_mult of_int_power)

text \<open>A stage just constructed, and inputs with no device raising anything.\<close>

definition example_state :: EXEC where
  "example_state =
     EXEC_ctor \<lparr>te_vpn = 0, te_asid = 0, te_pte = 0, te_valid = False, te_is_megapage = False\<rparr> 0x80000000"

definition example_input :: "ID_EX \<Rightarrow> MMU_RSP \<Rightarrow> EXEC_IN" where
  "example_input d rsp =
     \<lparr>xi_rst = False, xi_id_ex = d, xi_mext_rsp_ack = False, xi_mext_result = 0, xi_dmmu_to_ex = rsp,
      xi_clint = CLINT_DEV_ctor, xi_plic = None\<rparr>"

lemma check_interrupt_disabled: "csr CSR_MIE = 0 \<Longrightarrow> check_interrupt i csr priv = None"
  by (simp add: check_interrupt_def pending_enabled_def Let_def)

lemma executes_idle:
  "x_csr s CSR_MIE = 0 \<Longrightarrow> executes (example_input d rsp) s \<longleftrightarrow> \<not> ie_flush d \<and> \<not> ie_on_trap d"
  by (simp add: executes_def example_input_def check_interrupt_disabled)

lemma executes_example:
  "executes (example_input d rsp) example_state \<longleftrightarrow> \<not> ie_flush d \<and> \<not> ie_on_trap d"
  by (intro executes_idle) (simp add: example_state_def EXEC_ctor_def reset_csr_registers_def)

text \<open>
  Arithmetic instructions: the stage computes the instruction set's function of the
  operands read as integers, modulo \<open>2\<^sup>32\<close>, writes it to the destination the decoder named, goes on
  to the next instruction in program order, and neither stalls, flushes, branches nor asks
  the memory for anything.
\<close>

theorem exec_arithmetic:
  assumes "executes i s" and "alu_spec (xi_id_ex i) = Some k" and "\<not> mmu_rsp_ack (xi_dmmu_to_ex i)"
  shows "let s' = exec_comb i s
         in ex_rd_val s' = word_of_int k \<and> ex_write_rd s' = ie_writes_rd (xi_id_ex i) \<and>
            ex_rd s' = ie_rd (xi_id_ex i) \<and> ex_npc s' = next_seq i s \<and>
            \<not> ex_stall s' \<and> \<not> ex_flush s' \<and> \<not> ex_branch_taken s' \<and> \<not> dmem_req_ack (ex_to_dmmu s')"
proof -
  have "ex_instr i s (comb_exec i s) = (comb_exec i s)\<lparr>c_rd_val := word_of_int k\<rparr>"
    using assms(2) by (simp add: ex_instr_def alu_result_spec)
  then show ?thesis
    using assms(3) by (simp add: exec_comb_executes [OF assms(1)] exec_outputs_def Let_def)
qed

theorem exec_arithmetic_witness:
  "let i = example_input (ID_EX_ctor\<lparr>ie_type := I_SRAI, ie_rs1_val := - 8, ie_imm := 0x401, ie_rd := 5,
         ie_writes_rd := True\<rparr>) MMU_RSP_ctor
   in executes i example_state \<and> alu_spec (xi_id_ex i) = Some (- 4) \<and>
      ex_rd_val (exec_comb i example_state) = - 4"
proof -
  define d where "d = ID_EX_ctor\<lparr>ie_type := I_SRAI, ie_rs1_val := - 8, ie_imm := 0x401, ie_rd := 5,
      ie_writes_rd := True\<rparr>"
  have ex: "executes (example_input d MMU_RSP_ctor) example_state"
    by (simp add: executes_example d_def ID_EX_ctor_def)
  have in_d: "xi_id_ex (example_input d MMU_RSP_ctor) = d"
    "\<not> mmu_rsp_ack (xi_dmmu_to_ex (example_input d MMU_RSP_ctor))"
    by (simp_all add: example_input_def MMU_RSP_ctor_def)
  have spec: "alu_spec d = Some (- 4)"
    by (simp add: d_def ID_EX_ctor_def alu_spec_def arith_spec_def imm_types_def Let_def)
  show ?thesis
    unfolding Let_def d_def [symmetric]
    using exec_arithmetic [OF ex, of "- 4"] ex in_d spec by (simp add: Let_def)
qed

subsection \<open>Control flow\<close>

definition branch_spec :: "InstrType \<Rightarrow> u32 \<Rightarrow> u32 \<Rightarrow> bool option" where
  "branch_spec t a b =
     (if t = I_BEQ then Some (uint a = uint b)
      else if t = I_BNE then Some (uint a \<noteq> uint b)
      else if t = I_BLT then Some (sint a < sint b)
      else if t = I_BGE then Some (sint a \<ge> sint b)
      else if t = I_BLTU then Some (uint a < uint b)
      else if t = I_BGEU then Some (uint a \<ge> uint b)
      else None)"

lemma branch_cond_spec: "branch_cond = branch_spec"
  by (intro ext) (simp add: branch_cond_def branch_spec_def word_sless_alt word_sle_eq word_less_def
      word_le_def word_uint_eq_iff)

lemma and_1_even [simp]: "x AND 1 = 0 \<longleftrightarrow> even (x :: u32)"
  by (simp add: and_one_eq even_iff_mod_2_eq_zero)

lemma go_to_eq:
  "go_to target c =
     (if odd target
      then c\<lparr>c_npc := target, c_branch_taken := True, c_stall := False, c_tval := target,
             c_cause := INSTR_ADDR_MISALIGNED, c_on_trap := True\<rparr>
      else c\<lparr>c_npc := target, c_branch_taken := True\<rparr>)"
  by (simp add: go_to_def Let_def del: and_one_eq)

text \<open>The groups of the instruction switch are disjoint.\<close>

definition branch_types :: "InstrType list" where
  "branch_types = [I_BEQ, I_BNE, I_BLT, I_BGE, I_BLTU, I_BGEU]"

lemmas type_groups = mext_types_def mem_types_def branch_types_def system_types_def csr_types_def

lemma alu_result_None:
  assumes "ie_type d \<in> set (mext_types @ mem_types @ branch_types @ system_types @ csr_types)"
  shows "alu_result d = None"
  using assms unfolding type_groups list.set set_append Un_insert_left Un_empty_left
  by (elim insertE emptyE) (simp_all add: alu_result_def)

lemma not_ext_types:
  assumes "t \<in> set (branch_types @ system_types @ csr_types)"
  shows "t \<notin> set mext_types" "t \<notin> set mem_types" "t \<noteq> I_JAL" "t \<noteq> I_JALR"
  using assms unfolding type_groups list.set set_append Un_insert_left Un_empty_left
  by (elim insertE emptyE; simp)+

lemma branch_cond_types: "branch_cond t a b = Some taken \<Longrightarrow> t \<in> set branch_types"
  by (auto simp: branch_cond_def branch_types_def split: if_splits)

lemma ex_instr_branch:
  assumes "branch_cond (ie_type (xi_id_ex i)) (ie_rs1_val (xi_id_ex i)) (ie_rs2_val (xi_id_ex i)) = Some taken"
  shows "ex_instr i s c = ex_branch (xi_id_ex i) taken c"
  using branch_cond_types [OF assms] assms
  by (simp add: ex_instr_def alu_result_None not_ext_types)

lemma branch_cond_None: "t \<notin> set branch_types \<Longrightarrow> branch_cond t a b = None"
  by (simp add: branch_cond_def branch_types_def)

lemma not_branch_types:
  assumes "t \<in> set (system_types @ csr_types)"
  shows "t \<notin> set branch_types"
  using assms unfolding type_groups list.set set_append Un_insert_left Un_empty_left
  by (elim insertE emptyE; simp)+

lemma ex_instr_groups:
  "ie_type (xi_id_ex i) \<in> set mext_types \<Longrightarrow> ex_instr i s c = ex_mext i s c"
  "ie_type (xi_id_ex i) \<in> set mem_types \<Longrightarrow> ex_instr i s c = ex_mem i s c"
  "ie_type (xi_id_ex i) \<in> set system_types \<Longrightarrow> ex_instr i s c = ex_system i s c"
  "ie_type (xi_id_ex i) \<in> set csr_types \<Longrightarrow> ex_instr i s c = ex_csr i s c"
proof -
  have "t \<notin> set mext_types" if "t \<in> set mem_types" for t
    using that unfolding type_groups list.set
    by (elim insertE emptyE; simp)
  moreover have "t \<notin> set system_types" if "t \<in> set csr_types" for t
    using that unfolding type_groups list.set
    by (elim insertE emptyE; simp)
  ultimately show
    "ie_type (xi_id_ex i) \<in> set mext_types \<Longrightarrow> ex_instr i s c = ex_mext i s c"
    "ie_type (xi_id_ex i) \<in> set mem_types \<Longrightarrow> ex_instr i s c = ex_mem i s c"
    "ie_type (xi_id_ex i) \<in> set system_types \<Longrightarrow> ex_instr i s c = ex_system i s c"
    "ie_type (xi_id_ex i) \<in> set csr_types \<Longrightarrow> ex_instr i s c = ex_csr i s c"
    by (simp_all add: ex_instr_def alu_result_None not_ext_types branch_cond_None not_branch_types)
qed

lemma ex_instr_jump:
  "ie_type (xi_id_ex i) = I_JAL \<Longrightarrow>
     ex_instr i s c = ex_jump (xi_id_ex i) (ie_pc (xi_id_ex i) + ie_imm (xi_id_ex i)) c"
  "ie_type (xi_id_ex i) = I_JALR \<Longrightarrow>
     ex_instr i s c = ex_jump (xi_id_ex i) ((ie_rs1_val (xi_id_ex i) + ie_imm (xi_id_ex i)) AND NOT 1) c"
  by (simp_all add: ex_instr_def alu_result_def type_groups Let_def)

text \<open>
  Conditional branches: the stage takes the branch exactly when the comparison of the
  operands as signed or unsigned integers holds. A taken branch to an even address continues
  there, one that is not taken continues with the next instruction in program order, and
  neither disturbs the pipeline otherwise; a taken branch to an odd address is a
  misaligned-address trap that reports the target.
\<close>

theorem exec_branches:
  assumes "executes i s"
    and "branch_spec (ie_type (xi_id_ex i)) (ie_rs1_val (xi_id_ex i)) (ie_rs2_val (xi_id_ex i)) = Some taken"
    and "target = ie_pc (xi_id_ex i) + ie_imm (xi_id_ex i)"
  shows "let s' = exec_comb i s
         in ex_branch_taken s' = taken \<and> \<not> ex_stall s' \<and>
            (if taken \<and> odd target
             then ex_flush s' \<and> \<not> ex_write_rd s' \<and> c_on_trap (x_comb s') \<and>
                  c_cause (x_comb s') = INSTR_ADDR_MISALIGNED \<and> c_tval (x_comb s') = target
             else ex_npc s' = (if taken then target else next_seq i s) \<and> \<not> ex_flush s')"
proof -
  have "ex_instr i s (comb_exec i s) = ex_branch (xi_id_ex i) taken (comb_exec i s)"
    using assms(2) by (intro ex_instr_branch) (simp add: branch_cond_spec)
  then show ?thesis
    by (simp add: exec_comb_executes [OF assms(1)] exec_outputs_def ex_branch_def go_to_eq Let_def
        assms(3))
qed

theorem exec_branches_witness:
  "let d = ID_EX_ctor\<lparr>ie_type := I_BLT, ie_rs1_val := - 1, ie_rs2_val := 1, ie_pc := 0x80000010,
         ie_imm := - 16\<rparr>; i = example_input d MMU_RSP_ctor
   in executes i example_state \<and> branch_spec I_BLT (- 1) 1 = Some True \<and>
      ex_npc (exec_comb i example_state) = 0x80000000"
proof -
  define d where "d = ID_EX_ctor\<lparr>ie_type := I_BLT, ie_rs1_val := - 1, ie_rs2_val := 1,
      ie_pc := 0x80000010, ie_imm := - 16\<rparr>"
  have ex: "executes (example_input d MMU_RSP_ctor) example_state"
    by (simp add: executes_example d_def ID_EX_ctor_def)
  have in_d: "xi_id_ex (example_input d MMU_RSP_ctor) = d"
    by (simp add: example_input_def)
  have fields: "ie_type d = I_BLT" "ie_rs1_val d = - 1" "ie_rs2_val d = 1" "ie_pc d = 0x80000010"
    "ie_imm d = - 16"
    by (simp_all add: d_def)
  have spec: "branch_spec I_BLT (- 1) 1 = Some True"
    by (simp add: branch_spec_def)
  have "\<not> odd (0x80000000 :: u32)"
    by simp
  then show ?thesis
    unfolding Let_def d_def [symmetric]
    using exec_branches [OF ex, of True "0x80000000"] ex spec by (simp add: Let_def in_d fields)
qed

lemma even_and_not_1: "even (x AND NOT 1 :: u32)"
proof -
  have "\<not> bit (x AND NOT 1) 0"
    by (simp only: bit_and_iff bit_not_iff bit_1_iff) simp
  then show ?thesis
    by (simp add: bit_0)
qed

text \<open>
  Jumps link and go: JAL and JALR put the address of the following instruction, two bytes on
  for a compressed one, into the destination register and continue at the target; JALR clears
  the lowest bit of its target and so never traps.
\<close>

theorem exec_jumps:
  assumes "executes i s" and "d = xi_id_ex i" and "\<not> mmu_rsp_ack (xi_dmmu_to_ex i)"
    and "ie_type d = I_JAL \<and> target = ie_pc d + ie_imm d \<and> even target \<or>
         ie_type d = I_JALR \<and> target = (ie_rs1_val d + ie_imm d) AND NOT 1"
  shows "let s' = exec_comb i s
         in ex_npc s' = target \<and> even target \<and> ex_branch_taken s' \<and>
            ex_rd_val s' = ie_pc d + (if ie_is_compressed d then 2 else 4) \<and>
            ex_write_rd s' = ie_writes_rd d \<and> ex_rd s' = ie_rd d \<and> \<not> ex_flush s' \<and> \<not> ex_stall s'"
proof -
  have "ex_instr i s c = ex_jump d target c" for c
    using assms(2,4) by (auto simp: ex_instr_jump)
  moreover have "even target"
    using assms(4) even_and_not_1 by auto
  ultimately show ?thesis
    using assms(2,3)
    by (simp add: exec_comb_executes [OF assms(1)] exec_outputs_def ex_jump_def go_to_eq Let_def)
qed

theorem exec_jumps_witness:
  "let d = ID_EX_ctor\<lparr>ie_type := I_JALR, ie_rs1_val := 0x80000101, ie_imm := 8, ie_pc := 0x80000010,
         ie_rd := 1, ie_writes_rd := True\<rparr>; s' = exec_comb (example_input d MMU_RSP_ctor) example_state
   in executes (example_input d MMU_RSP_ctor) example_state \<and> ex_npc s' = 0x80000108 \<and>
      ex_rd_val s' = 0x80000014"
proof -
  define d where "d = ID_EX_ctor\<lparr>ie_type := I_JALR, ie_rs1_val := 0x80000101, ie_imm := 8,
      ie_pc := 0x80000010, ie_rd := 1, ie_writes_rd := True\<rparr>"
  have ex: "executes (example_input d MMU_RSP_ctor) example_state"
    by (simp add: executes_example d_def ID_EX_ctor_def)
  have facts: "d = xi_id_ex (example_input d MMU_RSP_ctor)"
    "\<not> mmu_rsp_ack (xi_dmmu_to_ex (example_input d MMU_RSP_ctor))"
    by (simp_all add: example_input_def MMU_RSP_ctor_def)
  have fields: "ie_type d = I_JALR" "ie_rs1_val d = 0x80000101" "ie_imm d = 8" "ie_pc d = 0x80000010"
    "\<not> ie_is_compressed d"
    by (simp_all add: d_def ID_EX_ctor_def)
  show ?thesis
    unfolding Let_def d_def [symmetric]
    using exec_jumps [OF ex facts, of "0x80000108"] ex by (simp add: Let_def fields)
qed

subsection \<open>Memory instructions\<close>

lemma sign_extend_small:
  assumes "v < 2 ^ Suc n" and "n < 31"
  shows "sign_extend v (Suc n) = signed_take_bit n v"
  using sign_extend_signed_take_bit [of n v] take_bit_word_small [of v "Suc n"] assms by simp

text \<open>The value a load delivers, from the bytes the memory returned in the low end of \<open>w\<close>.\<close>

definition loaded :: "InstrType \<Rightarrow> u32 \<Rightarrow> u32" where
  "loaded t w =
     (if t = I_LB then signed_take_bit 7 w else if t = I_LH then signed_take_bit 15 w else w)"

text \<open>
  C22. Loads, stores and atomics: the request carries the effective address (the base register
  alone for atomics), the data, the size and the kind, and is raised unless the previous cycle
  stalled. Without an answer the stage stalls on the same instruction; an answer with a fault
  traps with the fault as cause and the MMU's trap value; a clean answer completes the
  instruction, sign-extending bytes and halfwords for LB and LH.
\<close>

theorem exec_memory:
  assumes "executes i s" and "d = xi_id_ex i" and "ie_type d \<in> set mem_types"
    and "rsp = xi_dmmu_to_ex i" and "s' = exec_comb i s"
    and "ie_type d = I_LB \<longrightarrow> mmu_rsp_rdata rsp < 2 ^ 8" and "ie_type d = I_LH \<longrightarrow> mmu_rsp_rdata rsp < 2 ^ 16"
  shows "ex_to_dmmu s' = \<lparr>dmem_req_ack = \<not> wb_stall s,
           dmem_addr = (if ie_is_atomic d then ie_rs1_val d else ie_rs1_val d + ie_imm d),
           dmem_wdata = ie_rs2_val d, dmem_size = ie_mem_size d, dmem_is_load = ie_is_load d,
           dmem_is_store = ie_is_store d, dmem_is_amo = ie_is_atomic d, dmem_amoop = ie_amo_type d\<rparr> \<and>
         (if mmu_rsp_fault rsp \<noteq> 0
          then ex_flush s' \<and> \<not> ex_write_rd s' \<and> c_on_trap (x_comb s') \<and>
               c_cause (x_comb s') = ucast (mmu_rsp_fault rsp) \<and> c_tval (x_comb s') = mmu_rsp_tval rsp
          else if mmu_rsp_ack rsp
          then ex_npc s' = next_seq i s \<and> ex_write_rd s' = ie_writes_rd d \<and>
               ex_rd_val s' = loaded (ie_type d) (mmu_rsp_rdata rsp) \<and> \<not> ex_stall s' \<and> \<not> ex_flush s'
          else ex_stall s' \<and> ex_npc s' = ex_pc s \<and> \<not> ex_write_rd s' \<and> \<not> ex_flush s')"
proof -
  have s': "s' = exec_outputs i (ex_mem i s (comb_exec i s)) s"
    using assms(2,3,5) by (simp add: exec_comb_executes [OF assms(1)] ex_instr_groups)
  have "sign_extend (mmu_rsp_rdata rsp) 8 = signed_take_bit 7 (mmu_rsp_rdata rsp)" if "ie_type d = I_LB"
    using sign_extend_small [of "mmu_rsp_rdata rsp" 7] assms(6) that by simp
  moreover have "sign_extend (mmu_rsp_rdata rsp) 16 = signed_take_bit 15 (mmu_rsp_rdata rsp)" if "ie_type d = I_LH"
    using sign_extend_small [of "mmu_rsp_rdata rsp" 15] assms(7) that by simp
  ultimately show ?thesis
    using assms(2,4) by (simp add: s' exec_outputs_def ex_mem_def loaded_def Let_def)
qed

text \<open>A byte load answered with 0x80 delivers \<open>-128\<close>.\<close>

theorem exec_memory_witness:
  "let d = ID_EX_ctor\<lparr>ie_type := I_LB, ie_rs1_val := 0x80001000, ie_imm := - 1, ie_is_load := True,
         ie_mem_size := 1, ie_rd := 3, ie_writes_rd := True\<rparr>;
       rsp = MMU_RSP_ctor\<lparr>mmu_rsp_ack := True, mmu_rsp_rdata := 0x80\<rparr>;
       s' = exec_comb (example_input d rsp) example_state
   in executes (example_input d rsp) example_state \<and> dmem_addr (ex_to_dmmu s') = 0x80000FFF \<and>
      ex_rd_val s' = - 128"
proof -
  define d where "d = ID_EX_ctor\<lparr>ie_type := I_LB, ie_rs1_val := 0x80001000, ie_imm := - 1,
      ie_is_load := True, ie_mem_size := 1, ie_rd := 3, ie_writes_rd := True\<rparr>"
  define rsp where "rsp = MMU_RSP_ctor\<lparr>mmu_rsp_ack := True, mmu_rsp_rdata := 0x80\<rparr>"
  have ex: "executes (example_input d rsp) example_state"
    by (simp add: executes_example d_def ID_EX_ctor_def)
  have ports: "d = xi_id_ex (example_input d rsp)" "rsp = xi_dmmu_to_ex (example_input d rsp)"
    by (simp_all add: example_input_def)
  have fields: "ie_type d = I_LB" "ie_rs1_val d = 0x80001000" "ie_imm d = - 1" "\<not> ie_is_atomic d"
    "mmu_rsp_rdata rsp = 0x80" "mmu_rsp_fault rsp = 0" "mmu_rsp_ack rsp"
    by (simp_all add: d_def rsp_def ID_EX_ctor_def MMU_RSP_ctor_def)
  have "ie_type d \<in> set mem_types"
    by (simp add: fields mem_types_def)
  moreover have "loaded I_LB 0x80 = - 128"
    by (simp add: loaded_def)
  ultimately show ?thesis
    unfolding Let_def d_def [symmetric] rsp_def [symmetric]
    using exec_memory [OF ex ports(1) _ ports(2) refl] ex by (simp add: fields)
qed

end
