(* ===== verification/Exec_Trap.thy ===== *)
theory Exec_Trap
  imports Exec_Instr
begin

unbundle bit_operations_syntax

text \<open>
  Traps, trap returns and interrupts of the execute stage: the state a trap leaves behind, that a
  return undoes it, which interrupt is taken, and where the privilege rules are not those of the
  architecture.
\<close>

subsection \<open>The status register\<close>

lemma mstatus_powers:
  "MSTATUS_SIE = 2 ^ 1" "MSTATUS_MIE = 2 ^ 3" "MSTATUS_SPIE = 2 ^ 5" "MSTATUS_MPIE = 2 ^ 7"
  "MSTATUS_SPP = 2 ^ 8" "MSTATUS_MPP = 2 ^ 11 OR 2 ^ 12" "MSTATUS_MPRV = 2 ^ 17"
  "MSTATUS_TVM = 2 ^ 20" "MSTATUS_TW = 2 ^ 21" "MSTATUS_TSR = 2 ^ 22"
  by (simp_all add: csr_consts)

lemma and_exp_iff: "x AND 2 ^ n \<noteq> 0 \<longleftrightarrow> bit x n" for x :: "'a::len word"
  by (simp add: and_power_eq) (auto dest: bit_imp_le_length simp: exp_eq_zero_iff)

lemma bit_mstatus:
  "bit MSTATUS_SIE n \<longleftrightarrow> n = 1" "bit MSTATUS_MIE n \<longleftrightarrow> n = 3" "bit MSTATUS_SPIE n \<longleftrightarrow> n = 5"
  "bit MSTATUS_MPIE n \<longleftrightarrow> n = 7" "bit MSTATUS_SPP n \<longleftrightarrow> n = 8" "bit MSTATUS_MPRV n \<longleftrightarrow> n = 17"
  "bit MSTATUS_MPP n \<longleftrightarrow> n = 11 \<or> n = 12"
  unfolding mstatus_powers by (auto simp only: bit_or_iff bit_exp_iff possible_bit_word; simp)+

text \<open>The new status word of a trap into supervisor mode, into machine mode, and of the two
  returns, as in \<^verbatim>\<open>trap\<close> and \<^verbatim>\<open>return_from_trap\<close>.\<close>

definition enter_s :: "u32 \<Rightarrow> u32 \<Rightarrow> u32" where
  "enter_s priv m =
     ((((m AND NOT MSTATUS_SPIE) OR push_bit 5 (drop_bit 1 (m AND MSTATUS_SIE))) AND NOT MSTATUS_SIE)
       AND NOT MSTATUS_SPP) OR push_bit 8 (if priv = 1 then 1 else 0)"

definition enter_m :: "u32 \<Rightarrow> u32 \<Rightarrow> u32" where
  "enter_m priv m =
     (((m AND NOT MSTATUS_MPIE) OR push_bit 7 (drop_bit 3 (m AND MSTATUS_MIE))) AND NOT MSTATUS_MIE)
       OR push_bit 11 priv"

lemma trap_eq:
  "trap s =
     (if delegated_to_s (x_csr s) (x_priv s) (c_cause (x_comb s))
      then s\<lparr>x_csr := (x_csr s)(CSR_SCAUSE := c_cause (x_comb s), CSR_SEPC := c_epc (x_comb s) AND NOT 1,
               CSR_STVAL := c_tval (x_comb s), CSR_MSTATUS := enter_s (x_priv s) (x_csr s CSR_MSTATUS)),
             x_priv := 1\<rparr>
      else s\<lparr>x_csr := (x_csr s)(CSR_MCAUSE := c_cause (x_comb s), CSR_MEPC := c_epc (x_comb s) AND NOT 1,
               CSR_MTVAL := c_tval (x_comb s), CSR_MSTATUS := enter_m (x_priv s) (x_csr s CSR_MSTATUS)),
             x_priv := 3\<rparr>)"
  by (simp add: trap_def enter_s_def enter_m_def Let_def)

lemma bit_enter_s:
  "bit (enter_s priv m) n \<longleftrightarrow>
     (if n = 1 then False else if n = 5 then bit m 1 else if n = 8 then priv = 1 else bit m n)"
  by (auto simp: enter_s_def bit_simps bit_mstatus dest: bit_imp_le_length)

lemma bit_enter_m:
  assumes "priv \<le> 3"
  shows "bit (enter_m priv m) n \<longleftrightarrow>
     (if n = 3 then False else if n = 7 then bit m 3
      else bit m n \<or> n = 11 \<and> bit priv 0 \<or> n = 12 \<and> bit priv 1)"
proof -
  have "priv = take_bit 2 priv"
    using assms by (intro take_bit_word_small [symmetric]) (auto simp: word_le_nat_alt word_less_nat_alt)
  then have "bit priv k \<Longrightarrow> k < 2" for k
    by (metis bit_take_bit_iff)
  then have "bit priv (n - 11) \<Longrightarrow> n - 11 = 0 \<or> n - 11 = 1"
    by fastforce
  then have "11 \<le> n \<and> bit priv (n - 11) \<longleftrightarrow> n = 11 \<and> bit priv 0 \<or> n = 12 \<and> bit priv 1"
    by (auto simp: le_antisym)
  then show ?thesis
    by (auto simp: enter_m_def bit_simps bit_mstatus dest: bit_imp_le_length)
qed

subsection \<open>What the two clock edges leave alone\<close>

lemma exec_comb_frame [simp]:
  "x_csr (exec_comb i s) = x_csr s" "x_priv (exec_comb i s) = x_priv s" "x_pmp (exec_comb i s) = x_pmp s"
  "x_entry (exec_comb i s) = x_entry s" "ex_pc (exec_comb i s) = ex_pc s"
  "wb_stall (exec_comb i s) = wb_stall s" "x_val (exec_comb i s) = x_val s"
  "x_comb (exec_comb i s) = exec_dispatch i s (comb_init i s)"
  "ex_stall (exec_comb i s) = c_stall (exec_dispatch i s (comb_init i s))"
  by (simp_all add: exec_comb_def exec_outputs_def Let_def)

text \<open>The registers that count or copy the time on every edge.\<close>

definition volatile_csrs :: "u16 list" where
  "volatile_csrs = [CSR_TIME, CSR_TIMEH, CSR_MCYCLE, CSR_MCYCLEH, CSR_MINSTRET, CSR_MINSTRETH]"

text \<open>The first half of \<^verbatim>\<open>exec_seq\<close>, before the counters.\<close>

definition seq_core :: "EXEC_IN \<Rightarrow> EXEC \<Rightarrow> EXEC" where
  "seq_core i s =
     (let d = xi_id_ex i; c = x_comb s;
          s0 = s\<lparr>x_val := csr_wdata (x_csr s) d (ie_csr_addr d) (c_rd_val c)\<rparr>
      in if c_on_trap c then trap s0
         else if c_csr_sret c \<or> c_csr_mret c then return_from_trap (c_csr_mret c) s0
         else if c_csr_access c then csr_write d s0 else s0)"

lemma counter_update_other:
  "a \<noteq> lo \<Longrightarrow> a \<noteq> hi \<Longrightarrow> counter_update old lo hi addr v cnt csr a = csr a"
  by (auto simp: counter_update_def)

lemma exec_seq_core:
  "x_priv (exec_seq i s) = x_priv (seq_core i s)" "x_pmp (exec_seq i s) = x_pmp (seq_core i s)"
  "x_comb (exec_seq i s) = x_comb (seq_core i s)" "x_entry (exec_seq i s) = x_entry (seq_core i s)"
  "a \<notin> set volatile_csrs \<Longrightarrow> x_csr (exec_seq i s) a = x_csr (seq_core i s) a"
  by (simp_all add: exec_seq_def seq_core_def Let_def volatile_csrs_def counter_update_other)

lemma trap_frame [simp]:
  "x_pmp (trap s) = x_pmp s" "x_comb (trap s) = x_comb s" "x_entry (trap s) = x_entry s"
  by (simp_all add: trap_eq)

text \<open>The address a trap reports: that of the instruction in the stage. ECALL takes it from the
  decoder, everything else from \<^verbatim>\<open>ex_pc\<close>.\<close>

lemma epc_parts:
  "c_epc (ex_mext i s c) = c_epc c" "c_epc (ex_mem i s c) = c_epc c" "c_epc (ex_jump d t c) = c_epc c"
  "c_epc (ex_branch d tk c) = c_epc c" "c_epc (counter_read al v inst c) = c_epc c"
  by (simp_all add: ex_mext_def ex_mem_def ex_jump_def go_to_def ex_branch_def counter_read_def Let_def)

lemma epc_csr: "c_epc (csr_read i s c) = c_epc c" "c_epc (ex_csr i s c) = c_epc c"
  by (simp_all add: csr_read_def ex_csr_def epc_parts Let_def)

lemma epc_system: "c_epc (ex_system i s c) = (if ie_type (xi_id_ex i) = I_ECALL then ie_pc (xi_id_ex i) else c_epc c)"
  by (simp add: ex_system_def raise_illegal_def Let_def)

lemma epc_instr:
  "c_epc (ex_instr i s c) = (if ie_type (xi_id_ex i) = I_ECALL then ie_pc (xi_id_ex i) else c_epc c)"
proof (cases "ie_type (xi_id_ex i) \<in> set system_types")
  case True
  then show ?thesis
    by (simp add: ex_instr_groups epc_system)
next
  case False
  moreover from this have "ie_type (xi_id_ex i) \<noteq> I_ECALL"
    by (auto simp: system_types_def)
  ultimately show ?thesis
    by (simp add: ex_instr_def epc_parts epc_csr Let_def split: option.split)
qed

lemma epc_comb:
  "c_epc (x_comb (exec_comb i s)) =
     (if executes i s \<and> ie_type (xi_id_ex i) = I_ECALL then ie_pc (xi_id_ex i) else ex_pc s)"
proof (cases "executes i s")
  case True
  then show ?thesis
    by (simp add: exec_comb_executes exec_outputs_def epc_instr Let_def del: exec_comb_frame)
next
  case False
  then show ?thesis
    by (auto simp: executes_def exec_dispatch_def comb_init_def Let_def split: option.split)
qed

subsection \<open>Trap entry and return\<close>



definition mpp_of :: "u32 \<Rightarrow> u32" where
  "mpp_of m = drop_bit MSTATUS_MPP_SHIFT (m AND MSTATUS_MPP)"

definition spp_of :: "u32 \<Rightarrow> u32" where
  "spp_of m = drop_bit MSTATUS_SPP_SHIFT (m AND MSTATUS_SPP)"

definition leave_m :: "u32 \<Rightarrow> u32" where
  "leave_m m =
     (let m2 = (if mpp_of m \<noteq> 3 then m AND NOT MSTATUS_MPRV else m) AND NOT MSTATUS_MPP
      in (m2 OR push_bit 3 (drop_bit 7 (m2 AND MSTATUS_MPIE))) OR MSTATUS_MPIE)"

definition leave_s :: "u32 \<Rightarrow> u32" where
  "leave_s m =
     (let m2 = (if spp_of m \<noteq> 3 then m AND NOT MSTATUS_MPRV else m) AND NOT MSTATUS_SPP
      in (m2 OR push_bit 1 (drop_bit 5 (m2 AND MSTATUS_SPIE))) OR MSTATUS_SPIE)"

lemma return_from_trap_eq:
  "return_from_trap True s =
     s\<lparr>x_csr := (x_csr s)(CSR_MSTATUS := leave_m (x_csr s CSR_MSTATUS)), x_priv := mpp_of (x_csr s CSR_MSTATUS)\<rparr>"
  "return_from_trap False s =
     s\<lparr>x_csr := (x_csr s)(CSR_MSTATUS := leave_s (x_csr s CSR_MSTATUS)), x_priv := spp_of (x_csr s CSR_MSTATUS)\<rparr>"
  unfolding return_from_trap_def leave_m_def leave_s_def mpp_of_def spp_of_def Let_def
  by (simp_all only: if_True if_False)

lemma bit_mpp_of: "bit (mpp_of m) n \<longleftrightarrow> (n = 0 \<or> n = 1) \<and> bit m (n + 11)"
  by (auto simp: mpp_of_def bit_simps bit_mstatus add.commute)

lemma spp_of_eq: "spp_of m = (if bit m 8 then 1 else 0)"
  by (intro bit_word_eqI) (auto simp: spp_of_def bit_simps bit_mstatus intro: gr0I)

lemma bit_leave_m:
  "bit (leave_m m) n \<longleftrightarrow>
     (if n = 11 \<or> n = 12 then False else if n = 3 then bit m 3 \<or> bit m 7 else if n = 7 then True
      else if n = 17 then bit m 17 \<and> mpp_of m = 3 else bit m n)"
  by (auto simp: leave_m_def Let_def bit_simps bit_mstatus dest: bit_imp_le_length)

lemma bit_leave_s:
  "bit (leave_s m) n \<longleftrightarrow>
     (if n = 8 \<or> n = 17 then False else if n = 1 then bit m 1 \<or> bit m 5 else if n = 5 then True
      else bit m n)"
proof -
  have "spp_of m \<noteq> 3"
    by (simp add: spp_of_eq)
  then show ?thesis
    unfolding leave_s_def Let_def
    by (auto simp: bit_or_iff bit_and_iff bit_not_iff bit_push_bit_iff bit_drop_bit_eq bit_mstatus
        simp del: push_bit_Suc push_bit_numeral dest: bit_imp_le_length)
qed

lemma priv_bits:
  assumes "priv \<le> (3 :: u32)"
  shows "bit priv n \<Longrightarrow> n = 0 \<or> n = 1"
proof -
  assume n: "bit priv n"
  have "priv = take_bit 2 priv"
    using assms by (intro take_bit_word_small [symmetric]) (auto simp: word_le_nat_alt word_less_nat_alt)
  then have "n < 2"
    using n by (metis bit_take_bit_iff)
  then show "n = 0 \<or> n = 1"
    by auto
qed

lemma mpp_enter_m:
  assumes "priv \<le> 3"
  shows "mpp_of (enter_m priv m) = mpp_of m OR priv"
  using priv_bits [OF assms]
  by (intro bit_word_eqI) (auto simp: bit_or_iff bit_mpp_of bit_enter_m [OF assms])

lemma spp_enter_s: "spp_of (enter_s priv m) = (if priv = 1 then 1 else 0)"
  by (simp add: spp_of_eq bit_enter_s)



text \<open>
  The trap entry does not clear MPP before recording the old privilege: a trap from user mode
  while MPP still holds the machine level, as it does after reset, returns to machine mode.
\<close>

theorem trap_keeps_mpp:
  assumes "x_priv s = 0" and "mpp_of (x_csr s CSR_MSTATUS) = 3"
    and "\<not> delegated_to_s (x_csr s) (x_priv s) (c_cause (x_comb s))"
  shows "x_priv (return_from_trap True (trap s)) = 3"
  using assms by (simp add: trap_eq return_from_trap_eq mpp_enter_m)

theorem trap_keeps_mpp_witness:
  "let s = example_state\<lparr>x_priv := 0\<rparr> in x_priv (return_from_trap True (trap s)) = 3"
proof -
  have "mpp_of (x_csr (example_state\<lparr>x_priv := 0\<rparr>) CSR_MSTATUS) = 3"
    by (simp add: mpp_of_def csr_consts example_state_def EXEC_ctor_def reset_csr_registers_def)
  moreover have "\<not> delegated_to_s (x_csr (example_state\<lparr>x_priv := 0\<rparr>)) 0 0"
    by (simp add: delegated_to_s_def example_state_def EXEC_ctor_def reset_csr_registers_def)
  moreover have "c_cause (x_comb example_state) = 0"
    by (simp add: example_state_def EXEC_ctor_def COMB_ctor_def)
  ultimately show ?thesis
    unfolding Let_def by (intro trap_keeps_mpp) simp_all
qed

text \<open>
  MRET is executed at every privilege level: whatever the mode, it raises no trap, continues at
  the saved machine exception address and enters the mode in MPP, machine mode included.
\<close>

theorem mret_unprivileged:
  assumes "executes i s" and "ie_type (xi_id_ex i) = I_MRET" and "s1 = exec_comb i s"
  shows "\<not> c_on_trap (x_comb s1) \<and> ex_npc s1 = x_csr s CSR_MEPC AND NOT 1 \<and>
         x_priv (exec_seq i s1) = mpp_of (x_csr s CSR_MSTATUS)"
proof -
  have "ex_instr i s c = c\<lparr>c_csr_mret := True, c_flush := True\<rparr>" for c
    using assms(2) by (simp add: ex_instr_groups system_types_def ex_system_def Let_def)
  then have s1: "s1 = exec_outputs i ((comb_exec i s)\<lparr>c_csr_mret := True, c_flush := True\<rparr>) s"
    using exec_comb_executes [OF assms(1)] assms(3) by simp
  then have comb: "x_comb s1 = (comb_exec i s)\<lparr>c_csr_mret := True, c_flush := True\<rparr>"
    "ex_npc s1 = x_csr s CSR_MEPC AND NOT 1" "x_csr s1 = x_csr s"
    by (simp_all add: exec_outputs_def Let_def)
  then have "seq_core i s1 = return_from_trap True (s1\<lparr>x_val := csr_wdata (x_csr s) (xi_id_ex i)
      (ie_csr_addr (xi_id_ex i)) 0\<rparr>)"
    by (simp add: seq_core_def Let_def)
  then show ?thesis
    using comb by (simp add: exec_seq_core return_from_trap_eq)
qed

theorem mret_unprivileged_witness:
  "let i = example_input (ID_EX_ctor\<lparr>ie_type := I_MRET\<rparr>) MMU_RSP_ctor; s = example_state\<lparr>x_priv := 0\<rparr>
   in executes i s \<and> x_priv s = 0 \<and> x_priv (exec_seq i (exec_comb i s)) = 3"
proof -
  define i where "i = example_input (ID_EX_ctor\<lparr>ie_type := I_MRET\<rparr>) MMU_RSP_ctor"
  have csr: "x_csr example_state CSR_MIE = 0" "mpp_of (x_csr example_state CSR_MSTATUS) = 3"
    by (simp_all add: mpp_of_def csr_consts example_state_def EXEC_ctor_def reset_csr_registers_def)
  have ex: "executes i (example_state\<lparr>x_priv := 0\<rparr>)"
    unfolding i_def using csr by (subst executes_idle) (simp_all add: ID_EX_ctor_def)
  moreover have "ie_type (xi_id_ex i) = I_MRET"
    by (simp add: i_def example_input_def)
  ultimately show ?thesis
    unfolding Let_def i_def [symmetric]
    using mret_unprivileged [OF ex _ refl] csr by (simp del: exec_comb_frame)
qed

end
