(* ===== verification/Exec_Interrupt.thy ===== *)
theory Exec_Interrupt
  imports Exec_Trap
begin

unbundle bit_operations_syntax

text \<open>
  Which interrupt the execute stage takes: the selection of \<^verbatim>\<open>check_interrupt\<close> against the
  architecture's enabling rules and priority order.
\<close>

lemma mip_powers:
  "MIP_SSIP = 2 ^ 1" "MIP_MSIP = 2 ^ 3" "MIP_STIP = 2 ^ 5" "MIP_MTIP = 2 ^ 7" "MIP_SEIP = 2 ^ 9" "MIP_MEIP = 2 ^ 11"
  by (simp_all add: csr_consts)

lemma bit_mip:
  "bit MIP_SSIP n \<longleftrightarrow> n = 1" "bit MIP_MSIP n \<longleftrightarrow> n = 3" "bit MIP_STIP n \<longleftrightarrow> n = 5" "bit MIP_MTIP n \<longleftrightarrow> n = 7"
  "bit MIP_SEIP n \<longleftrightarrow> n = 9" "bit MIP_MEIP n \<longleftrightarrow> n = 11" "bit MIP_WMASK n \<longleftrightarrow> n = 1 \<or> n = 9"
proof -
  show "bit MIP_SSIP n \<longleftrightarrow> n = 1" "bit MIP_MSIP n \<longleftrightarrow> n = 3" "bit MIP_STIP n \<longleftrightarrow> n = 5" "bit MIP_MTIP n \<longleftrightarrow> n = 7"
    "bit MIP_SEIP n \<longleftrightarrow> n = 9" "bit MIP_MEIP n \<longleftrightarrow> n = 11"
    unfolding mip_powers by (auto simp only: bit_exp_iff possible_bit_word; simp)+
  then show "bit MIP_WMASK n \<longleftrightarrow> n = 1 \<or> n = 9"
    by (simp add: MIP_WMASK_def bit_or_iff)
qed

text \<open>An interrupt can be taken: it is pending and enabled, and the mode that handles it, by
  delegation supervisor or machine, has interrupts enabled or is above the current mode.\<close>

definition takeable :: "EXEC_IN \<Rightarrow> csr_file \<Rightarrow> u32 \<Rightarrow> nat \<Rightarrow> bool" where
  "takeable i csr priv n \<longleftrightarrow>
     bit (get_mip i csr) n \<and> bit (csr CSR_MIE) n \<and>
     (if bit (csr CSR_MIDELEG) n then priv < 1 \<or> priv = 1 \<and> bit (csr CSR_MSTATUS) 1
      else priv < 3 \<or> priv = 3 \<and> bit (csr CSR_MSTATUS) 3)"

text \<open>The priority order: machine external, software, timer, then the same for the supervisor.\<close>

definition interrupt_order :: "nat list" where
  "interrupt_order = [11, 3, 7, 9, 1, 5]"

lemma and_SIE_MIE:
  "m AND MSTATUS_SIE \<noteq> 0 \<longleftrightarrow> bit m 1" "m AND MSTATUS_MIE \<noteq> 0 \<longleftrightarrow> bit m 3"
  unfolding mstatus_powers by (simp_all only: and_exp_iff)

lemma bit_pending_enabled: "bit (pending_enabled i csr priv) n \<longleftrightarrow> takeable i csr priv n"
  unfolding pending_enabled_def takeable_def Let_def and_SIE_MIE
  by (auto simp: bit_or_iff bit_and_iff bit_not_iff dest: bit_imp_le_length)

lemma get_mip_bits:
  assumes "csr CSR_MIP AND NOT MIP_WMASK = 0" and "bit (get_mip i csr) n"
  shows "n \<in> set interrupt_order"
proof -
  have "bit (csr CSR_MIP) n \<Longrightarrow> n = 1 \<or> n = 9"
    using arg_cong [where f = "\<lambda>w. bit w n", OF assms(1)]
    by (auto simp: bit_and_iff bit_not_iff bit_mip dest: bit_imp_le_length)
  then show ?thesis
    using assms(2)
    by (auto simp: get_mip_def Let_def bit_or_iff bit_mip interrupt_order_def split: if_splits option.splits)
qed

lemma ctz_power: "n \<in> set interrupt_order \<Longrightarrow> ctz (2 ^ n) = n"
  unfolding interrupt_order_def list.set
  by (elim insertE emptyE) (simp_all add: ctz_def upt_rec)

lemma select_interrupt_find:
  assumes "\<And>n. bit w n \<Longrightarrow> n \<in> set interrupt_order"
  shows "(case find (bit w) interrupt_order of None \<Rightarrow> w = 0
          | Some n \<Rightarrow> w \<noteq> 0 \<and> select_interrupt w = 2 ^ n \<and> n \<in> set interrupt_order)"
proof (cases "w = 0")
  case False
  then have "\<exists>n \<in> set interrupt_order. bit w n"
    using assms bit_eqI [of w 0] by auto
  then show ?thesis
    using False unfolding interrupt_order_def select_interrupt_def mip_powers and_exp_iff
    by auto
qed (simp add: interrupt_order_def)

text \<open>
  C17. The interrupt that is taken: provided only the software-writable bits are set in the MIP
  register itself, the stage takes the first interrupt in the architecture's priority order that is
  pending, enabled and permitted by the current mode, its delegation and the global enable bits, and
  takes none when there is no such interrupt.
\<close>

theorem interrupt_selection:
  assumes "csr CSR_MIP AND NOT MIP_WMASK = 0"
  shows "check_interrupt i csr priv =
     map_option (\<lambda>n. 0x80000000 OR of_nat n) (find (takeable i csr priv) interrupt_order)"
proof -
  define w where "w = pending_enabled i csr priv"
  have bits: "bit w = takeable i csr priv"
    by (intro ext) (simp add: w_def bit_pending_enabled)
  have "bit w n \<Longrightarrow> n \<in> set interrupt_order" for n
    using get_mip_bits [of csr i] assms by (simp add: bits takeable_def)
  then have "case find (bit w) interrupt_order of None \<Rightarrow> w = 0
      | Some n \<Rightarrow> w \<noteq> 0 \<and> select_interrupt w = 2 ^ n \<and> n \<in> set interrupt_order"
    by (rule select_interrupt_find)
  then show ?thesis
    unfolding check_interrupt_def w_def [symmetric] bits [symmetric] Let_def
    by (cases "find (bit w) interrupt_order") (auto simp: ctz_power)
qed

text \<open>Supervisor mode with the timer delegated and the software interrupt pending: the software
  interrupt is taken.\<close>

theorem interrupt_selection_witness:
  "let csr = (\<lambda>_. 0)(CSR_MIP := MIP_SSIP, CSR_MIE := 0x22, CSR_MIDELEG := 0x22, CSR_MSTATUS := 0x2);
       i = (example_input ID_EX_ctor MMU_RSP_ctor)\<lparr>xi_clint := CLINT_DEV_ctor\<lparr>mtime := 5\<rparr>\<rparr>
   in csr CSR_MIP AND NOT MIP_WMASK = 0 \<and> takeable i csr 1 5 \<and> check_interrupt i csr 1 = Some 0x80000001"
proof -
  define csr :: csr_file where
    "csr = (\<lambda>_. 0)(CSR_MIP := MIP_SSIP, CSR_MIE := 0x22, CSR_MIDELEG := 0x22, CSR_MSTATUS := 0x2)"
  define i where "i = (example_input ID_EX_ctor MMU_RSP_ctor)\<lparr>xi_clint := CLINT_DEV_ctor\<lparr>mtime := 5\<rparr>\<rparr>"
  have mip: "csr CSR_MIP AND NOT MIP_WMASK = 0"
    by (simp add: csr_def csr_consts)
  have get: "get_mip i csr = 0xA2"
    by (simp add: get_mip_def stimecmp_def i_def csr_def example_input_def CLINT_DEV_ctor_def csr_consts)
  have csr: "csr CSR_MIE = 0x22" "csr CSR_MIDELEG = 0x22" "csr CSR_MSTATUS = 0x2"
    by (simp_all add: csr_def)
  have "find (takeable i csr 1) interrupt_order = Some 1" "takeable i csr 1 5"
    by (simp_all add: interrupt_order_def takeable_def get csr)
  then show ?thesis
    unfolding Let_def csr_def [symmetric] i_def [symmetric]
    using interrupt_selection [of csr i 1] mip by simp
qed

text \<open>
  A delegated interrupt that arrives in user mode while the supervisor's enable bit is clear
  can be taken, as it should be, but is handled in machine mode: the delegation test of the trap
  asks for the enable bit although user mode is below the supervisor.
\<close>

theorem user_interrupt_to_machine:
  assumes "x_priv s = 0" and "c_cause (x_comb s) = 0x80000000 OR of_nat n"
    and "takeable i (x_csr s) (x_priv s) n" and "bit (x_csr s CSR_MIDELEG) n"
    and "\<not> bit (x_csr s CSR_MSTATUS) 1"
  shows "x_priv (trap s) = 3"
proof -
  have "bit (c_cause (x_comb s)) 31"
    unfolding assms(2) by (simp add: bit_or_iff)
  then have "c_cause (x_comb s) AND 0x80000000 \<noteq> 0"
    using and_exp_iff [of "c_cause (x_comb s)" 31] by simp
  moreover have "x_csr s CSR_MSTATUS AND MSTATUS_SIE = 0"
    using and_SIE_MIE(1) [of "x_csr s CSR_MSTATUS"] assms(5) by blast
  ultimately show ?thesis
    by (simp add: trap_eq delegated_to_s_def Let_def del: and_1_even)
qed

theorem user_interrupt_to_machine_witness:
  "let csr = (\<lambda>_. 0)(CSR_MIP := MIP_SSIP, CSR_MIE := 0x2, CSR_MIDELEG := 0x2);
       s = example_state\<lparr>x_priv := 0, x_csr := csr, x_comb := (x_comb example_state)\<lparr>c_cause := 0x80000001\<rparr>\<rparr>;
       i = example_input ID_EX_ctor MMU_RSP_ctor
   in takeable i csr 0 1 \<and> x_priv (trap s) = 3"
proof -
  define csr :: csr_file where "csr = (\<lambda>_. 0)(CSR_MIP := MIP_SSIP, CSR_MIE := 0x2, CSR_MIDELEG := 0x2)"
  define s where "s = example_state\<lparr>x_priv := 0, x_csr := csr,
      x_comb := (x_comb example_state)\<lparr>c_cause := 0x80000001\<rparr>\<rparr>"
  define i where "i = example_input ID_EX_ctor MMU_RSP_ctor"
  have "get_mip i csr = 2"
    by (simp add: get_mip_def stimecmp_def i_def csr_def example_input_def CLINT_DEV_ctor_def csr_consts)
  then have t: "takeable i csr 0 1"
    by (simp add: takeable_def csr_def)
  show ?thesis
    unfolding Let_def csr_def [symmetric] s_def [symmetric] i_def [symmetric]
    using user_interrupt_to_machine [of s 1 i] t by (simp add: s_def csr_def)
qed

end
