(* ===== verification/Exec_Csr.thy ===== *)
theory Exec_Csr
  imports Exec_Interrupt
begin

unbundle bit_operations_syntax

text \<open>
  The CSR file of the execute stage: the 64-bit counters, CSR instructions, what a mode below
  machine can change, and the invariant of the whole stage.
\<close>

subsection \<open>The counters\<close>

definition join64 :: "u32 \<Rightarrow> u32 \<Rightarrow> u64" where
  "join64 hi lo = push_bit 32 (ucast hi) OR ucast lo"

lemma unat_join64: "unat (join64 hi lo) = unat hi * 2 ^ 32 + unat lo"
proof -
  have "(push_bit 32 (ucast hi) :: u64) AND ucast lo = 0"
    by (intro bit_word_eqI) (auto simp: bit_simps dest: bit_imp_le_length)
  then have "join64 hi lo = push_bit 32 (ucast hi) + ucast lo"
    unfolding join64_def by (rule disjunctive_add_eq_or [symmetric])
  moreover have "unat hi < 2 ^ 32" "unat lo < 2 ^ 32"
    using unsigned_less [of hi, where ?'a = nat] unsigned_less [of lo, where ?'a = nat] by simp_all
  moreover from this have "unat hi * 2 ^ 32 + unat lo < 2 ^ 64"
    by simp
  ultimately show ?thesis
    by (simp add: push_bit_eq_mult unat_word_ariths unsigned_ucast_eq take_bit_nat_eq_self)
qed

lemma carry_mod:
  fixes h p :: nat
  assumes "0 < p"
  shows "(h + 1) mod p * p = (h * p + (p - 1) + 1) mod (p * p)"
proof -
  have "h * p + (p - 1) + 1 = (h + 1) * p"
    using assms by simp
  then show ?thesis
    by (simp only: mult_mod_left)
qed

lemma join64_inc: "join64 (hi + (if lo = - 1 then 1 else 0)) (lo + 1) = join64 hi lo + 1"
proof (cases "lo = - 1")
  case True
  have top: "unat (- 1 :: u32) = 2 ^ 32 - 1"
    by (simp add: unsigned_minus_1_eq_mask mask_eq_exp_minus_1)
  have "unat (hi + 1) * 2 ^ 32 = (unat hi + 1) mod 2 ^ 32 * 2 ^ 32"
    by (simp add: unat_word_ariths)
  also have "\<dots> = (unat hi * 2 ^ 32 + (2 ^ 32 - 1) + 1) mod 2 ^ 64"
    using carry_mod [of "2 ^ 32" "unat hi"] by (simp only: power_add [symmetric]) simp
  also have "\<dots> = unat (join64 hi (- 1) + 1)"
    by (simp only: unat_word_ariths unat_join64 top) simp
  finally have "unat (join64 (hi + 1) 0) = unat (join64 hi (- 1) + 1)"
    by (simp only: unat_join64 unat_0 add_0_right)
  then have "join64 (hi + 1) 0 = join64 hi (- 1) + 1"
    by (simp only: word_unat_eq_iff)
  then show ?thesis
    using True by simp
next
  case False
  have "unat lo \<noteq> 2 ^ 32 - 1"
  proof
    assume "unat lo = 2 ^ 32 - 1"
    then have "unat lo = unat (- 1 :: u32)"
      by (simp add: unsigned_minus_1_eq_mask mask_eq_exp_minus_1)
    then show False
      using False by (simp only: word_unat_eq_iff) 
  qed
  moreover have "unat lo < 2 ^ 32" "unat hi < 2 ^ 32"
    using unsigned_less [of lo, where ?'a = nat] unsigned_less [of hi, where ?'a = nat] by simp_all
  ultimately have "unat (lo + 1) = unat lo + 1" and "unat hi * 2 ^ 32 + unat lo + 1 < 2 ^ 64"
    by (simp_all add: unat_word_ariths)
  then have "unat (join64 hi (lo + 1)) = unat (join64 hi lo + 1)"
    by (simp only: unat_join64) (simp add: unat_word_ariths unat_join64)
  then show ?thesis
    using False by (simp add: word_unat_eq_iff [symmetric])
qed

definition mcycle64 :: "csr_file \<Rightarrow> u64" where
  "mcycle64 csr = join64 (csr CSR_MCYCLEH) (csr CSR_MCYCLE)"

definition minstret64 :: "csr_file \<Rightarrow> u64" where
  "minstret64 csr = join64 (csr CSR_MINSTRETH) (csr CSR_MINSTRET)"

lemma counter_update_join:
  assumes "addr \<noteq> lo" "addr \<noteq> hi" "lo \<noteq> hi" "csr lo = old lo" "csr hi = old hi"
  shows "join64 (counter_update old lo hi addr v cnt csr hi) (counter_update old lo hi addr v cnt csr lo) =
     join64 (old hi) (old lo) + (if cnt then 1 else 0)"
  using assms by (simp add: counter_update_def join64_inc [simplified] join64_inc)

text \<open>What \<^verbatim>\<open>csr_write\<close> can change, by address.\<close>

lemma pmp_ranges_empty:
  "(0x3C0 \<le> addr \<and> addr < 0x3B0) = False" "(0x3F0 \<le> addr \<and> addr < 0x3F0) = False" for addr :: u16
  by (auto simp: word_le_nat_alt word_less_nat_alt)

lemma csr_write_csr:
  "x_csr (csr_write d s) a =
     (let addr = ie_csr_addr d; csr = x_csr s
      in if addr = CSR_SSTATUS then (if a = CSR_MSTATUS then csr_wdata csr d addr (csr CSR_MSTATUS) else csr a)
         else if addr = CSR_SIE then (if a = CSR_MIE then csr_wdata csr d addr (csr CSR_MIE) else csr a)
         else if addr = CSR_SIP \<or> addr = CSR_MIP
         then (if a = CSR_MIP then csr_wdata csr d addr (csr CSR_MIP) else csr a)
         else if addr \<in> set unwritten_csrs \<or> (is_pmpcfg addr \<or> is_pmpaddr addr) \<and> x_priv s = 3 \<or>
                 addr > CSR_MCYCLE + 2 \<and> addr < CSR_MCYCLE + 32 \<or>
                 addr > CSR_MCYCLEH + 2 \<and> addr < CSR_MCYCLEH + 32
         then csr a
         else if a = addr then x_val s else csr a)"
  unfolding csr_write_def Let_def by (simp add: pmp_ranges_empty)

lemma csr_write_frame [simp]:
  "x_priv (csr_write d s) = x_priv s" "x_comb (csr_write d s) = x_comb s" "x_entry (csr_write d s) = x_entry s"
  by (simp_all add: csr_write_def Let_def)

text \<open>The registers that traps, returns and the supervisor's views of machine registers write.\<close>

definition trap_csrs :: "u16 list" where
  "trap_csrs = [CSR_SCAUSE, CSR_SEPC, CSR_STVAL, CSR_MCAUSE, CSR_MEPC, CSR_MTVAL, CSR_MSTATUS, CSR_MIE, CSR_MIP]"

lemma seq_core_other:
  assumes "a \<notin> set trap_csrs" and "a \<noteq> ie_csr_addr (xi_id_ex i)"
  shows "x_csr (seq_core i s) a = x_csr s a"
proof -
  have a: "a \<noteq> CSR_SCAUSE" "a \<noteq> CSR_SEPC" "a \<noteq> CSR_STVAL" "a \<noteq> CSR_MCAUSE" "a \<noteq> CSR_MEPC"
    "a \<noteq> CSR_MTVAL" "a \<noteq> CSR_MSTATUS" "a \<noteq> CSR_MIE" "a \<noteq> CSR_MIP"
    using assms(1) by (simp_all add: trap_csrs_def)
  have "x_csr (trap t) a = x_csr t a" for t
    using a by (simp add: trap_eq del: and_1_even)
  moreover have "x_csr (return_from_trap m t) a = x_csr t a" for t m
    using a by (cases m) (simp_all add: return_from_trap_eq)
  moreover have "x_csr (csr_write (xi_id_ex i) t) a = x_csr t a" for t
    using a assms(2) by (simp add: csr_write_csr Let_def)
  ultimately show ?thesis
    by (simp add: seq_core_def Let_def)
qed



subsection \<open>CSR instructions\<close>

lemma exec_comb_csr:
  assumes "executes i s" and "ie_type (xi_id_ex i) \<in> set csr_types"
  shows "x_comb (exec_comb i s) = ex_csr i s (comb_exec i s)"
    and "exec_comb i s = exec_outputs i (ex_csr i s (comb_exec i s)) s"
  using exec_comb_executes [OF assms(1)] assms(2)
  by (simp_all add: ex_instr_groups exec_outputs_def Let_def del: exec_comb_frame)

text \<open>
  A CSR instruction that names a machine counter is refused below machine mode, but its write
  is carried out: CSRRW to mcycle in user mode raises the illegal-instruction trap and at
  the same edge sets the counter to the operand.
\<close>

theorem refused_counter_write:
  assumes "executes i s" and "ie_type (xi_id_ex i) = I_CSRRW" and "ie_csr_addr (xi_id_ex i) = CSR_MCYCLE"
    and "x_priv s = 0" and "s1 = exec_comb i s"
  shows "c_on_trap (x_comb s1) \<and> c_cause (x_comb s1) = ILLEGAL_INSTR \<and>
         x_csr (exec_seq i s1) CSR_MCYCLE = ie_csr_val (xi_id_ex i)"
proof -
  have csr: "x_csr s1 = x_csr s"
    using assms(5) by simp
  have "\<not> csr_permitted (xi_id_ex i) 0"
    using assms(3) by (simp add: csr_permitted_def)
  then have comb: "x_comb s1 = (comb_exec i s)\<lparr>c_on_trap := True, c_cause := ILLEGAL_INSTR,
      c_tval := ie_inst (xi_id_ex i)\<rparr>"
    using exec_comb_csr(1) [OF assms(1)] assms(2,4,5)
    by (simp add: csr_types_def ex_csr_def del: exec_comb_frame)
  moreover have "csr_wdata csr (xi_id_ex i) CSR_MCYCLE v = ie_csr_val (xi_id_ex i)" for csr v
    using assms(2) by (simp add: csr_wdata_def csr_mask_def)
  ultimately show ?thesis
    using assms(3)
    by (simp add: exec_seq_def Let_def counter_update_def trap_eq del: and_1_even)
qed

theorem refused_counter_write_witness:
  "let d = ID_EX_ctor\<lparr>ie_type := I_CSRRW, ie_csr_addr := CSR_MCYCLE, ie_csr_val := 7\<rparr>;
       i = example_input d MMU_RSP_ctor; s = example_state\<lparr>x_priv := 0\<rparr>
   in executes i s \<and> x_csr (exec_seq i (exec_comb i s)) CSR_MCYCLE = 7"
proof -
  define d where "d = ID_EX_ctor\<lparr>ie_type := I_CSRRW, ie_csr_addr := CSR_MCYCLE, ie_csr_val := 7\<rparr>"
  have d: "xi_id_ex (example_input d MMU_RSP_ctor) = d" "ie_type d = I_CSRRW" "ie_csr_addr d = CSR_MCYCLE"
    "ie_csr_val d = 7"
    by (simp_all add: example_input_def d_def)
  have ex: "executes (example_input d MMU_RSP_ctor) (example_state\<lparr>x_priv := 0\<rparr>)"
    by (subst executes_idle)
      (simp_all add: example_state_def EXEC_ctor_def reset_csr_registers_def d_def ID_EX_ctor_def)
  show ?thesis
    unfolding Let_def d_def [symmetric]
    using refused_counter_write [OF ex _ _ _ refl] ex by (simp add: d del: exec_comb_frame)
qed

text \<open>The addresses with no special case in the reads and writes of the stage.\<close>

definition plain_csr :: "u16 \<Rightarrow> bool" where
  "plain_csr a \<longleftrightarrow>
     a \<notin> set (volatile_csrs @ unwritten_csrs) \<and>
     a \<notin> {CSR_MSTATUS, CSR_MIP, CSR_SSTATUS, CSR_SIE, CSR_SIP, CSR_SATP, CSR_CYCLE, CSR_CYCLEH} \<and>
     \<not> is_pmpcfg a \<and> \<not> is_pmpaddr a \<and>
     \<not> (CSR_MCYCLE + 2 < a \<and> a < CSR_MCYCLE + 32) \<and> \<not> (CSR_MCYCLEH + 2 < a \<and> a < CSR_MCYCLEH + 32)"

definition csr_rmw :: "InstrType \<Rightarrow> u32 \<Rightarrow> u32 \<Rightarrow> u32" where
  "csr_rmw t v old =
     (if t = I_CSRRW \<or> t = I_CSRRWI then v else if t = I_CSRRS \<or> t = I_CSRRSI then old OR v
      else old AND NOT v)"

lemma csr_read_plain:
  assumes "plain_csr (ie_csr_addr (xi_id_ex i))" and "\<not> c_flush c"
  shows "csr_read i s c = c\<lparr>c_rd_val := x_csr s (ie_csr_addr (xi_id_ex i))\<rparr>"
  using assms by (simp add: plain_csr_def csr_read_def Let_def volatile_csrs_def unwritten_csrs_def)

lemma csr_wdata_plain:
  assumes "plain_csr (ie_csr_addr d)" and "ie_type d \<in> set csr_types"
  shows "csr_wdata csr d (ie_csr_addr d) v = csr_rmw (ie_type d) (ie_csr_val d) v"
proof -
  have "csr_mask csr (ie_csr_addr d) = - 1"
    using assms(1) by (simp add: csr_mask_def plain_csr_def unwritten_csrs_def)
  then show ?thesis
    using assms(2) by (auto simp: csr_wdata_def csr_rmw_def csr_types_def Let_def)
qed

lemma csr_write_plain:
  assumes "plain_csr (ie_csr_addr d)"
  shows "csr_write d s = s\<lparr>x_csr := (x_csr s)(ie_csr_addr d := x_val s)\<rparr>"
  using assms by (auto simp: plain_csr_def csr_write_def Let_def pmp_ranges_empty)



end
