(* ===== verification/Exec_Inv.thy ===== *)
theory Exec_Inv
  imports Exec_Csr
begin

unbundle bit_operations_syntax

text \<open>
  What the execute stage keeps: a mode below machine cannot change the machine's state except
  through a trap or an MRET, and the invariant of the stage over any sequence of clock cycles.
\<close>

subsection \<open>What the falling edge decides\<close>

lemma access_parts:
  "c_csr_access (ex_mext i s c) = c_csr_access c" "c_csr_access (ex_mem i s c) = c_csr_access c"
  "c_csr_access (ex_jump d t c) = c_csr_access c" "c_csr_access (ex_branch d tk c) = c_csr_access c"
  "c_csr_access (ex_system i s c) = c_csr_access c"
  by (simp_all add: ex_mext_def ex_mem_def ex_jump_def go_to_def ex_branch_def ex_system_def raise_illegal_def
      Let_def)

lemma x_comb_outputs: "x_comb (exec_outputs i c s) = c"
  by (simp add: exec_outputs_def Let_def)

lemma dispatch_executes: "executes i s \<Longrightarrow> exec_dispatch i s (comb_init i s) = ex_instr i s (comb_exec i s)"
  using exec_comb_frame(8) [of i s] by (simp add: exec_comb_executes x_comb_outputs del: exec_comb_frame)

lemma access_permitted:
  assumes "c_csr_access (exec_dispatch i s (comb_init i s))"
  shows "executes i s \<and> ie_type (xi_id_ex i) \<in> set csr_types \<and> csr_permitted (xi_id_ex i) (x_priv s)"
proof -
  have init: "\<not> c_csr_access (comb_init i s)"
    by (simp add: comb_init_def Let_def)
  have ex: "executes i s"
    using assms init
    by (auto simp: exec_dispatch_def executes_def Let_def split: if_splits option.splits)
  then have "c_csr_access (ex_instr i s (comb_exec i s))"
    using assms by (simp add: dispatch_executes)
  then have "ie_type (xi_id_ex i) \<in> set csr_types" "c_csr_access (ex_csr i s (comb_exec i s))"
    by (auto simp: ex_instr_def access_parts Let_def split: if_splits option.splits)
  then show ?thesis
    using ex by (auto simp: ex_csr_def Let_def split: if_splits)
qed

subsection \<open>Confinement of the lower modes\<close>

lemma bit_status_masks:
  "bit SSTATUS_MASK n \<longleftrightarrow> n = 1 \<or> n = 5 \<or> n = 8 \<or> n = 18 \<or> n = 19"
  "bit SIP_WMASK n \<longleftrightarrow> n = 1"
proof -
  have pow: "MSTATUS_SUM = 2 ^ 18" "MSTATUS_MXR = 2 ^ 19"
    by (simp_all add: csr_consts)
  have "bit MSTATUS_SUM n \<longleftrightarrow> n = 18" "bit MSTATUS_MXR n \<longleftrightarrow> n = 19"
    unfolding pow by (auto simp only: bit_exp_iff possible_bit_word; simp)+
  then show "bit SSTATUS_MASK n \<longleftrightarrow> n = 1 \<or> n = 5 \<or> n = 8 \<or> n = 18 \<or> n = 19"
    by (auto simp: SSTATUS_MASK_def bit_or_iff bit_mstatus)
  show "bit SIP_WMASK n \<longleftrightarrow> n = 1"
    by (simp add: SIP_WMASK_def bit_mip)
qed

lemma csr_wdata_confined:
  assumes "\<not> bit (csr_mask csr addr) n"
  shows "bit (csr_wdata csr d addr v) n \<longleftrightarrow> bit v n"
  using assms
  by (auto simp: csr_wdata_def Let_def bit_or_iff bit_and_iff bit_not_iff dest: bit_imp_le_length)

text \<open>The privilege level in the address of a CSR.\<close>

definition csr_level :: "u16 \<Rightarrow> u16" where
  "csr_level a = drop_bit 8 a AND 3"

lemma not_3_le_1: "\<not> (3 :: u32) \<le> 1"
  by (simp add: word_le_nat_alt)

lemma permitted_level:
  assumes "csr_permitted d priv" and "priv \<le> 1"
  shows "csr_level (ie_csr_addr d) \<noteq> 3"
proof
  assume "csr_level (ie_csr_addr d) = 3"
  then have "(3 :: u32) \<le> priv"
    using assms(1) by (simp add: csr_permitted_def csr_level_def Let_def)
  then have "(3 :: u32) \<le> 1"
    using assms(2) by (rule order_trans)
  then show False
    using not_3_le_1 by simp
qed

text \<open>What may change below machine mode: \<open>t\<close> follows \<open>s\<close> on the machine's registers.\<close>

definition machine_kept :: "EXEC \<Rightarrow> EXEC \<Rightarrow> bool" where
  "machine_kept s t \<longleftrightarrow>
     x_pmp t = x_pmp s \<and>
     (\<forall>a. csr_level a = 3 \<and> a \<notin> set volatile_csrs \<and> a \<notin> {CSR_MSTATUS, CSR_MIE, CSR_MIP} \<longrightarrow>
        x_csr t a = x_csr s a) \<and>
     (\<forall>n. n \<notin> {1, 5, 8, 17, 18, 19} \<longrightarrow> (bit (x_csr t CSR_MSTATUS) n \<longleftrightarrow> bit (x_csr s CSR_MSTATUS) n)) \<and>
     (\<forall>n. \<not> bit (x_csr s CSR_MIDELEG) n \<longrightarrow> (bit (x_csr t CSR_MIE) n \<longleftrightarrow> bit (x_csr s CSR_MIE) n)) \<and>
     (\<forall>n. n \<noteq> 1 \<longrightarrow> (bit (x_csr t CSR_MIP) n \<longleftrightarrow> bit (x_csr s CSR_MIP) n))"

lemma machine_kept_refl: "machine_kept s (s\<lparr>x_val := v\<rparr>)"
  by (simp add: machine_kept_def)

lemma machine_kept_sret: "machine_kept s (return_from_trap False (s\<lparr>x_val := v\<rparr>))"
  by (simp add: machine_kept_def return_from_trap_eq bit_leave_s)

lemma machine_kept_csr_write:
  assumes "csr_level (ie_csr_addr d) \<noteq> 3" and "x_priv s \<noteq> 3"
  shows "machine_kept s (csr_write d (s\<lparr>x_val := v\<rparr>))"
proof -
  have ne: "ie_csr_addr d \<noteq> CSR_MSTATUS" "ie_csr_addr d \<noteq> CSR_MIE" "ie_csr_addr d \<noteq> CSR_MIP"
    using assms(1) by (auto simp: csr_level_def)
  have lvl: "a \<noteq> ie_csr_addr d" if "csr_level a = 3" for a
    using assms(1) that by auto
  have mask: "csr_mask csr CSR_SSTATUS = SSTATUS_MASK" "csr_mask csr CSR_SIP = SIP_WMASK"
    "csr_mask csr CSR_SIE = csr CSR_MIDELEG" for csr
    by (simp_all add: csr_mask_def)
  let ?t = "csr_write d (s\<lparr>x_val := v\<rparr>)"
  have "x_pmp ?t = x_pmp s"
    using assms(2) by (simp add: csr_write_def Let_def)
  moreover have "x_csr ?t a = x_csr s a" if "csr_level a = 3" "a \<notin> {CSR_MSTATUS, CSR_MIE, CSR_MIP}" for a
    using that lvl [of a] by (simp add: csr_write_csr Let_def)
  moreover have "bit (x_csr ?t CSR_MSTATUS) n \<longleftrightarrow> bit (x_csr s CSR_MSTATUS) n" if "n \<notin> {1, 5, 8, 17, 18, 19}" for n
    using that ne by (simp add: csr_write_csr Let_def csr_wdata_confined mask bit_status_masks)
  moreover have "bit (x_csr ?t CSR_MIE) n \<longleftrightarrow> bit (x_csr s CSR_MIE) n" if "\<not> bit (x_csr s CSR_MIDELEG) n" for n
    using that ne by (simp add: csr_write_csr Let_def csr_wdata_confined mask)
  moreover have "bit (x_csr ?t CSR_MIP) n \<longleftrightarrow> bit (x_csr s CSR_MIP) n" if "n \<noteq> 1" for n
    using that ne by (simp add: csr_write_csr Let_def csr_wdata_confined mask bit_status_masks)
  ultimately show ?thesis
    unfolding machine_kept_def by blast
qed

lemma spp_of_le: "spp_of m \<le> 1"
  by (simp add: spp_of_eq)



subsection \<open>The invariant of the stage\<close>

definition exec_ok :: "EXEC \<Rightarrow> bool" where
  "exec_ok s \<longleftrightarrow>
     x_priv s \<le> 3 \<and> pmp_ok (x_pmp s) \<and> length (c_tlb (x_comb s)) = 32 \<and>
     x_csr s CSR_MISA = 0x40141105 \<and> x_csr s CSR_MHARTID = 0 \<and>
     x_csr s CSR_MSTATUS AND NOT MSTATUS_MASK = 0 \<and> x_csr s CSR_MIP AND NOT MIP_WMASK = 0"

lemma exec_ok_ctor: "exec_ok (EXEC_ctor junk entry)"
  by (simp add: exec_ok_def EXEC_ctor_def COMB_ctor_def reset_csr_registers_def pmp_ok_ctor TLB_ctor_def
      csr_consts)

text \<open>The falling edge: only SFENCE.VMA touches the TLB, and a CSR access to mstatus reads it
  through its mask.\<close>

lemma tlb_parts:
  "c_tlb (ex_mext i s c) = c_tlb c" "c_tlb (ex_mem i s c) = c_tlb c" "c_tlb (ex_jump d t c) = c_tlb c"
  "c_tlb (ex_branch d tk c) = c_tlb c" "c_tlb (csr_read i s c) = c_tlb c" "c_tlb (ex_csr i s c) = c_tlb c"
  "length (c_tlb (ex_system i s c)) = length (c_tlb c)"
  by (simp_all add: ex_mext_def ex_mem_def ex_jump_def go_to_def ex_branch_def ex_system_def raise_illegal_def
      csr_read_def counter_read_def ex_csr_def Let_def length_tlb_flush)

lemma length_tlb_comb: "length (c_tlb (exec_dispatch i s (comb_init i s))) = length (c_tlb (x_comb s))"
proof -
  have "length (c_tlb (ex_instr i s c)) = length (c_tlb c)" for c
    by (simp add: ex_instr_def tlb_parts Let_def split: option.split)
  then show ?thesis
    by (simp add: exec_dispatch_def comb_init_def Let_def split: option.split)
qed

lemma rd_val_mstatus:
  assumes "c_csr_access (exec_dispatch i s (comb_init i s))" and "ie_csr_addr (xi_id_ex i) = CSR_MSTATUS"
  shows "c_rd_val (exec_dispatch i s (comb_init i s)) = x_csr s CSR_MSTATUS AND MSTATUS_MASK"
  using access_permitted [OF assms(1)] assms(2)
  by (simp add: dispatch_executes ex_instr_groups ex_csr_def csr_read_def Let_def)

text \<open>Words within a mask.\<close>

definition within :: "u32 \<Rightarrow> u32 \<Rightarrow> bool" where
  "within m w \<longleftrightarrow> w AND NOT m = 0"

lemma within_iff: "within m w \<longleftrightarrow> (\<forall>n. bit w n \<longrightarrow> bit m n)"
proof -
  have bit: "bit (w AND NOT m) n \<longleftrightarrow> bit w n \<and> \<not> bit m n" for n
    using bit_imp_le_length [of w n] by (auto simp: bit_and_iff bit_not_iff)
  have "within m w \<longleftrightarrow> (\<forall>n. \<not> bit (w AND NOT m) n)"
    unfolding within_def by (metis bit_0_eq bit_eqI bot_apply bot_bool_def)
  then show ?thesis
    by (simp add: bit)
qed

lemma bit_MSTATUS_MASK: "n \<in> {1, 3, 5, 7, 8, 11, 12, 17, 18, 19} \<Longrightarrow> bit MSTATUS_MASK n"
  unfolding insert_iff by (elim disjE emptyE) (simp_all add: csr_consts)

lemma within_status:
  assumes "within MSTATUS_MASK m"
  shows "priv \<le> 3 \<Longrightarrow> within MSTATUS_MASK (enter_m priv m)" "within MSTATUS_MASK (enter_s priv m)"
    "within MSTATUS_MASK (leave_m m)" "within MSTATUS_MASK (leave_s m)"
  using assms bit_MSTATUS_MASK
  by (auto simp: within_iff bit_enter_m bit_enter_s bit_leave_m bit_leave_s split: if_splits)

lemma within_wdata:
  assumes "within m v" and "within m (csr_mask csr addr)"
  shows "within m (csr_wdata csr d addr v)"
  unfolding within_iff
proof (intro allI impI)
  fix n assume n: "bit (csr_wdata csr d addr v) n"
  show "bit m n"
  proof (cases "bit (csr_mask csr addr) n")
    case True
    then show ?thesis
      using assms(2) by (simp add: within_iff)
  next
    case False
    then show ?thesis
      using n assms(1) by (simp add: csr_wdata_confined within_iff)
  qed
qed

lemma within_masks:
  "within MSTATUS_MASK (csr_mask csr CSR_SSTATUS)" "within MSTATUS_MASK (csr_mask csr CSR_MSTATUS)"
  "within MIP_WMASK (csr_mask csr CSR_SIP)" "within MIP_WMASK (csr_mask csr CSR_MIP)"
  "within MSTATUS_MASK (w AND MSTATUS_MASK)"
  by (auto simp: csr_mask_def within_iff bit_status_masks bit_mip bit_and_iff intro: bit_MSTATUS_MASK)

lemma exec_ok_within:
  "exec_ok s \<longleftrightarrow>
     x_priv s \<le> 3 \<and> pmp_ok (x_pmp s) \<and> length (c_tlb (x_comb s)) = 32 \<and>
     x_csr s CSR_MISA = 0x40141105 \<and> x_csr s CSR_MHARTID = 0 \<and>
     within MSTATUS_MASK (x_csr s CSR_MSTATUS) \<and> within MIP_WMASK (x_csr s CSR_MIP)"
  by (simp add: exec_ok_def within_def)

lemma mpp_of_le: "mpp_of m \<le> 3"
proof -
  have "mpp_of m = take_bit 2 (mpp_of m)"
    by (intro bit_word_eqI) (auto simp: bit_take_bit_iff bit_mpp_of)
  then have "unat (mpp_of m) < 4"
    using unsigned_take_bit_eq [of 2 "mpp_of m", where ?'a = nat] take_bit_nat_less_exp [of 2 "unat (mpp_of m)"]
    by simp
  then show ?thesis
    by (simp add: word_le_nat_alt)
qed

lemma exec_ok_trap: "exec_ok s \<Longrightarrow> exec_ok (trap s)"
  by (simp add: exec_ok_within trap_eq within_status)

lemma exec_ok_return:
  assumes "exec_ok s"
  shows "exec_ok (return_from_trap m s)"
proof -
  have "spp_of w \<le> 3" for w
    by (simp add: spp_of_eq)
  then show ?thesis
    using assms mpp_of_le by (cases m) (simp_all add: exec_ok_within return_from_trap_eq within_status)
qed

lemma pmp_ok_csr_write: "pmp_ok (x_pmp s) \<Longrightarrow> pmp_ok (x_pmp (csr_write d s))"
  by (simp add: csr_write_def Let_def)
    (auto simp: is_pmpcfg_def is_pmpaddr_def word_le_nat_alt word_less_nat_alt unat_sub
      intro!: pmp_ok_update_config pmp_ok_update_addr)

lemma exec_ok_csr_write:
  assumes "exec_ok s" and "ie_csr_addr d = CSR_MSTATUS \<Longrightarrow> within MSTATUS_MASK (x_val s)"
  shows "exec_ok (csr_write d s)"
proof -
  have fixed: "x_csr (csr_write d s) a = x_csr s a" if "a = CSR_MISA \<or> a = CSR_MHARTID" for a
    using that by (auto simp: csr_write_csr Let_def unwritten_csrs_def)
  have "within MSTATUS_MASK (x_csr (csr_write d s) CSR_MSTATUS)"
    using assms by (simp add: csr_write_csr Let_def exec_ok_within within_wdata within_masks)
  moreover have "within MIP_WMASK (x_csr (csr_write d s) CSR_MIP)"
    using assms(1) by (auto simp: csr_write_csr Let_def exec_ok_within intro!: within_wdata within_masks)
  ultimately show ?thesis
    using assms(1) pmp_ok_csr_write [of s d] by (simp add: exec_ok_within fixed)
qed

lemma exec_ok_val: "exec_ok (s\<lparr>x_val := v\<rparr>) = exec_ok s"
  by (simp add: exec_ok_def)

lemma exec_ok_comb: "exec_ok s \<Longrightarrow> exec_ok (exec_comb i s)"
  by (simp add: exec_ok_def length_tlb_comb)

text \<open>The rising edge. The timer may have ticked since the falling edge, so only the instruction
  has to be the same.\<close>

lemma exec_ok_seq:
  assumes "exec_ok s" and "xi_id_ex j = xi_id_ex i"
  shows "exec_ok (exec_seq j (exec_comb i s))"
proof -
  let ?s = "exec_comb i s" and ?d = "xi_id_ex i"
  have "within MSTATUS_MASK (csr_wdata (x_csr s) ?d (ie_csr_addr ?d) (c_rd_val (x_comb ?s)))"
    if "c_csr_access (x_comb ?s)" "ie_csr_addr ?d = CSR_MSTATUS"
    using that rd_val_mstatus [of i s] by (simp add: within_wdata within_masks)
  then have "exec_ok (seq_core j ?s)"
    using exec_ok_comb [OF assms(1), of i] assms(2)
    by (simp add: seq_core_def Let_def exec_ok_trap exec_ok_return exec_ok_csr_write exec_ok_val)
  then show ?thesis
    by (simp add: exec_ok_def exec_seq_core volatile_csrs_def)
qed

lemma exec_ok_cycle: "exec_ok s \<Longrightarrow> exec_ok (exec_cycle i s)"
  using exec_ok_seq [of s i i] by (simp add: exec_cycle_def writeback_seq_def exec_ok_def)

text \<open>
  C21. The invariant of the stage: after any number of clock cycles with any inputs, the privilege is
  a two-bit number, the PMP and the TLB are well formed, misa and mhartid have their fixed values, no
  bit of the unimplemented status fields is set, and in the MIP register itself only the
  software-writable bits can be set.
\<close>

theorem exec_invariant: "exec_ok (fold exec_cycle inputs (EXEC_ctor junk entry))"
proof -
  have "exec_ok s \<Longrightarrow> exec_ok (fold exec_cycle inputs s)" for s
    by (induction inputs arbitrary: s) (simp_all add: exec_ok_cycle)
  then show ?thesis
    using exec_ok_ctor by blast
qed

end
