(* ===== verification/Mmu.thy ===== *)
theory Mmu
  imports Exec Memory
begin

unbundle bit_operations_syntax

text \<open>
  The memory management unit of \<^verbatim>\<open>src/src/mmu.hpp\<close>: two independent ports, one for data and one for
  instructions, each with a state machine that looks a page up in the TLB, walks the Sv32 page
  table when it is not there, and checks every physical address against the PMP and the physical
  memory attributes before it goes to the memory. The two clocked processes are
  \<^verbatim>\<open>dmem_req_seq\<close> and \<^verbatim>\<open>imem_req_seq\<close>; \<^verbatim>\<open>dmem_rsp_comb\<close> and \<^verbatim>\<open>imem_rsp_comb\<close> run one nanosecond after the
  edge and form the answers. The unit reads CSRs, the privilege and the PMP of the execute stage
  and keeps its translations in that stage's TLB.
\<close>

subsection \<open>Physical memory attributes and status fields\<close>

abbreviation (input) DIRTY_BIT :: u32 where "DIRTY_BIT \<equiv> 0x80"
abbreviation (input) ACCESS_BIT :: u32 where "ACCESS_BIT \<equiv> 0x40"

definition is_pma_valid :: "u32 \<Rightarrow> bool" where
  "is_pma_valid phys_addr \<longleftrightarrow>
     (if phys_addr \<ge> 0x80000000 then True
      else if phys_addr \<ge> CLINT_BASE \<and> phys_addr < CLINT_TOP then True
      else if phys_addr \<ge> UART_BASE \<and> phys_addr < UART_TOP then True
      else if phys_addr \<ge> PLIC_BASE \<and> phys_addr < PLIC_TOP then True
      else False)"

definition MXR :: "EXEC \<Rightarrow> u32" where
  "MXR x = drop_bit MSTATUS_MXR_SHIFT (x_csr x CSR_MSTATUS AND MSTATUS_MXR)"

definition MPRV :: "EXEC \<Rightarrow> u32" where
  "MPRV x = drop_bit MSTATUS_MPRV_SHIFT (x_csr x CSR_MSTATUS AND MSTATUS_MPRV)"

definition MPP :: "EXEC \<Rightarrow> u32" where
  "MPP x = drop_bit MSTATUS_MPP_SHIFT (x_csr x CSR_MSTATUS AND MSTATUS_MPP)"

definition SUM_bit :: "EXEC \<Rightarrow> u32" where
  "SUM_bit x = drop_bit MSTATUS_SUM_SHIFT (x_csr x CSR_MSTATUS AND MSTATUS_SUM)"

definition SATP_ON :: "u32 \<Rightarrow> bool" where
  "SATP_ON satp \<longleftrightarrow> drop_bit 31 satp AND 1 \<noteq> 0"

definition USERBIT :: "u32 \<Rightarrow> bool" where
  "USERBIT pte \<longleftrightarrow> drop_bit 4 pte AND 1 \<noteq> 0"

definition asid_of :: "u32 \<Rightarrow> u32" where
  "asid_of satp = drop_bit 20 satp AND 0x1ff"

definition ppn_of :: "u32 \<Rightarrow> u32" where
  "ppn_of pte = drop_bit 10 pte AND 0xFFFFF"

subsection \<open>The data port\<close>

record DMMU =
  d_state :: u8
  d_page_fault :: bool
  d_pmp_fault :: bool
  d_misaligned_fault :: bool
  d_priv :: u8
  d_satp :: u32
  d_root_ppn :: u32
  d_root_addr :: u32
  d_vpn1 :: u32
  d_vpn0 :: u32
  d_offset :: u32
  d_op :: u32
  d_pte :: u32
  d_ppn :: u32
  d_mmu_mem :: DMEM_IN
  dmmu_to_mem :: DMEM_IN

text \<open>The members \<^verbatim>\<open>_d_page_fault\<close> and \<^verbatim>\<open>_d_pmp_fault\<close> are assigned on every path of an activation
  before the signals of the same name are written from them, so the signals carry them.\<close>

definition DMMU_ctor :: DMMU where
  "DMMU_ctor =
     \<lparr>d_state = 0, d_page_fault = False, d_pmp_fault = False, d_misaligned_fault = False, d_priv = 3,
      d_satp = 0, d_root_ppn = 0, d_root_addr = 0, d_vpn1 = 0, d_vpn0 = 0, d_offset = 0, d_op = 0,
      d_pte = 0, d_ppn = 0, d_mmu_mem = DMEM_IN_ctor, dmmu_to_mem = DMEM_IN_ctor\<rparr>"

record DMMU_IN =
  dm_rst :: bool
  dm_flush :: bool
  dm_req :: DMEM_IN
  dm_rsp :: MEM_OUT
  dm_exec :: EXEC

text \<open>The permission test, written out three times in the source.\<close>

definition d_perm_fault :: "EXEC \<Rightarrow> DMEM_IN \<Rightarrow> u32 \<Rightarrow> u8 \<Rightarrow> u32 \<Rightarrow> bool" where
  "d_perm_fault x req op priv pte \<longleftrightarrow>
     push_bit (unat op) 1 AND pte = 0 \<and> (op \<noteq> 1 \<or> MXR x = 0 \<or> pte AND 4 = 0) \<or>
     (dmem_is_store req \<or> dmem_is_amo req) \<and> (pte AND DIRTY_BIT = 0 \<or> pte AND ACCESS_BIT = 0) \<or>
     dmem_is_load req \<and> pte AND ACCESS_BIT = 0 \<or>
     ucast priv = RV_PRIV_S_MODE \<and> USERBIT pte \<and> SUM_bit x = 0 \<or>
     ucast priv = RV_PRIV_U_MODE \<and> \<not> USERBIT pte \<or>
     pte AND 6 = 4"

definition access_req :: "DMEM_IN \<Rightarrow> u32 \<Rightarrow> DMEM_IN" where
  "access_req req addr =
     \<lparr>dmem_req_ack = True, dmem_addr = addr, dmem_wdata = dmem_wdata req, dmem_size = dmem_size req,
      dmem_is_load = dmem_is_load req, dmem_is_store = dmem_is_store req, dmem_is_amo = dmem_is_amo req,
      dmem_amoop = dmem_amoop req\<rparr>"

definition pte_req :: "u32 \<Rightarrow> DMEM_IN" where
  "pte_req addr =
     \<lparr>dmem_req_ack = True, dmem_addr = addr, dmem_wdata = 0, dmem_size = 4, dmem_is_load = True,
      dmem_is_store = False, dmem_is_amo = False, dmem_amoop = 0\<rparr>"

definition no_req :: "DMMU \<Rightarrow> DMMU" where
  "no_req s = s\<lparr>d_mmu_mem := (d_mmu_mem s)\<lparr>dmem_req_ack := False\<rparr>\<rparr>"

definition dmem_reset :: "DMMU \<Rightarrow> DMMU" where
  "dmem_reset s =
     no_req (s\<lparr>d_page_fault := False, d_state := 0, d_satp := 0, d_root_ppn := 0, d_root_addr := 0,
               d_vpn1 := 0, d_vpn0 := 0, d_offset := 0, d_op := 0, d_priv := 3\<rparr>)"

definition dmem_latch :: "EXEC \<Rightarrow> DMEM_IN \<Rightarrow> DMMU \<Rightarrow> DMMU" where
  "dmem_latch x req s =
     (let satp = x_csr x CSR_SATP; a = dmem_addr req
      in s\<lparr>d_satp := satp, d_root_ppn := satp AND 0x003FFFFF,
           d_root_addr := push_bit 12 (satp AND 0x003FFFFF),
           d_vpn1 := drop_bit 22 a AND 0x3FF, d_vpn0 := drop_bit 12 a AND 0x3FF, d_offset := a AND 0xFFF,
           d_priv := ucast (if MPRV x \<noteq> 0 then MPP x else x_priv x),
           d_op := (if dmem_is_load req \<or> dmem_is_amo req \<and> dmem_amoop req = 0 then 1 else 2)\<rparr>)"

text \<open>The idle state: accept a request, and translate it if translation is on. A TLB hit is
  recognised by the valid bit of the returned page table entry.\<close>

definition dmem_idle :: "TLBEntry \<Rightarrow> DMMU_IN \<Rightarrow> DMMU \<Rightarrow> TLB \<Rightarrow> DMMU \<times> TLB" where
  "dmem_idle junk i s0 tlb =
     (let req = dm_req i; x = dm_exec i; s = s0\<lparr>d_page_fault := False\<rparr>
      in if dmem_req_ack req \<and> \<not> dm_flush i
         then (let s1 = dmem_latch x req s
               in if SATP_ON (d_satp s1) \<and>
                     (x_priv x = RV_PRIV_S_MODE \<or> x_priv x = RV_PRIV_U_MODE \<or> ucast (d_priv s1) \<noteq> RV_PRIV_M_MODE)
                  then (let (entry, tlb1) = tlb_find junk (asid_of (d_satp s1)) (drop_bit 12 (dmem_addr req)) tlb;
                            s2 = s1\<lparr>d_pte := te_pte entry\<rparr>; pte = te_pte entry
                        in if pte AND 1 \<noteq> 0
                           then (let s3 = s2\<lparr>d_ppn := ppn_of pte,
                                            d_page_fault := d_perm_fault x req (d_op s2) (d_priv s2) pte\<rparr>
                                 in if d_page_fault s3 then (no_req (s3\<lparr>d_state := 0\<rparr>), tlb1)
                                    else if te_is_megapage entry
                                    then (s3\<lparr>d_mmu_mem := access_req req (push_bit 12 (d_ppn s3) + (dmem_addr req AND 0x3FFFFF)),
                                             d_state := 3\<rparr>, tlb1)
                                    else (s3\<lparr>d_mmu_mem := access_req req (push_bit 12 (d_ppn s3) + (dmem_addr req AND 0xFFF)),
                                             d_state := 3\<rparr>, tlb1))
                           else (s2\<lparr>d_state := 1, d_mmu_mem := pte_req (d_root_addr s2 + d_vpn1 s2 * 4)\<rparr>, tlb1))
                  else (s1\<lparr>d_state := 3, d_mmu_mem := access_req req (dmem_addr req)\<rparr>, tlb))
         else (no_req (s\<lparr>d_state := 0, d_satp := 0, d_root_ppn := 0, d_root_addr := 0, d_vpn1 := 0,
                         d_vpn0 := 0, d_offset := 0, d_op := 0\<rparr>), tlb))"

definition dmem_level1 :: "DMMU_IN \<Rightarrow> DMMU \<Rightarrow> TLB \<Rightarrow> DMMU \<times> TLB" where
  "dmem_level1 i s tlb =
     (let req = dm_req i; x = dm_exec i; pte = mem_rsp_rdata (dm_rsp i); flags = pte AND 0xFF;
          s1 = s\<lparr>d_pte := pte, d_ppn := ppn_of pte\<rparr>;
          s2 = s1\<lparr>d_page_fault := pte AND 1 = 0 \<or>
                    flags \<noteq> 1 \<and> (d_ppn s1 AND 0x3FF \<noteq> 0 \<or> d_perm_fault x req (d_op s1) (d_priv s1) pte)\<rparr>
      in if d_page_fault s2 then (no_req (s2\<lparr>d_state := 0\<rparr>), tlb)
         else if flags AND 0xE \<noteq> 0
         then (s2\<lparr>d_mmu_mem := access_req req (push_bit 12 (d_ppn s2) + (dmem_addr req AND 0x3FFFFF)),
                  d_state := 3\<rparr>,
               tlb_store (asid_of (d_satp s2)) (drop_bit 12 (dmem_addr req)) pte True tlb)
         else (s2\<lparr>d_mmu_mem := pte_req (push_bit 12 (d_ppn s2) + d_vpn0 s2 * 4), d_state := 2\<rparr>, tlb))"

definition dmem_level0 :: "DMMU_IN \<Rightarrow> DMMU \<Rightarrow> TLB \<Rightarrow> DMMU \<times> TLB" where
  "dmem_level0 i s tlb =
     (let req = dm_req i; x = dm_exec i; pte = mem_rsp_rdata (dm_rsp i);
          s1 = s\<lparr>d_pte := pte, d_ppn := ppn_of pte\<rparr>;
          s2 = s1\<lparr>d_page_fault := pte AND 1 = 0 \<or> d_perm_fault x req (d_op s1) (d_priv s1) pte\<rparr>
      in if d_page_fault s2 then (no_req (s2\<lparr>d_state := 0\<rparr>), tlb)
         else (s2\<lparr>d_mmu_mem := access_req req (push_bit 12 (d_ppn s2) + d_offset s2), d_state := 3\<rparr>,
               tlb_store (asid_of (d_satp s2)) (drop_bit 12 (dmem_addr req)) pte False tlb))"

text \<open>The last part of \<^verbatim>\<open>dmem_req_seq\<close>: alignment, PMP and memory attributes of the address about to
  be sent, and the request itself or an empty one.\<close>

definition dmem_check :: "EXEC \<Rightarrow> DMMU \<Rightarrow> DMMU" where
  "dmem_check x s =
     (let m = d_mmu_mem s; a = dmem_addr m; sz = dmem_size m;
          misaligned = dmem_req_ack m \<and> a AND (- ucast sz) \<noteq> a;
          pmp = dmem_req_ack m \<and>
                ((if dmem_is_store m \<or> dmem_is_amo m then \<not> pmp_dcheck x (ucast a) 2 sz
                  else \<not> pmp_dcheck x (ucast a) 1 4) \<or> \<not> is_pma_valid a)
      in s\<lparr>dmmu_to_mem := (if pmp \<or> d_page_fault s \<or> misaligned then DMEM_IN_ctor else m),
           d_pmp_fault := pmp, d_misaligned_fault := misaligned\<rparr>)"

definition dmem_step :: "TLBEntry \<Rightarrow> DMMU_IN \<Rightarrow> DMMU \<Rightarrow> TLB \<Rightarrow> DMMU \<times> TLB" where
  "dmem_step junk i s tlb =
     (if dm_rst i \<or> dm_flush i then (dmem_reset s, tlb)
      else if d_state s = 0 then dmem_idle junk i s tlb
      else if mem_rsp_ack (dm_rsp i)
      then (if d_state s = 1 then dmem_level1 i s tlb
            else if d_state s = 2 then dmem_level0 i s tlb
            else (no_req (s\<lparr>d_page_fault := False, d_state := 0\<rparr>), tlb))
      else (no_req (s\<lparr>d_page_fault := False\<rparr>), tlb))"

definition dmem_req_seq :: "TLBEntry \<Rightarrow> DMMU_IN \<Rightarrow> DMMU \<Rightarrow> TLB \<Rightarrow> DMMU \<times> TLB" where
  "dmem_req_seq junk i s tlb = (let (s', tlb') = dmem_step junk i s tlb in (dmem_check (dm_exec i) s', tlb'))"

definition dmem_rsp_comb :: "DMEM_IN \<Rightarrow> MEM_OUT \<Rightarrow> DMMU \<Rightarrow> MMU_RSP" where
  "dmem_rsp_comb req rsp s =
     (let code = (\<lambda>ld st. if d_op s = 1 then ld else st);
          r0 = MMU_RSP_ctor\<lparr>mmu_rsp_ack :=
                 d_state s = 3 \<and> mem_rsp_ack rsp \<or> d_page_fault s \<or> d_pmp_fault s \<or> d_misaligned_fault s \<or>
                 mem_rsp_fault rsp \<noteq> 0\<rparr>;
          r1 = (if d_misaligned_fault s
                then r0\<lparr>mmu_rsp_fault := ucast (code LOAD_ADDR_MISALIGNED STORE_ADDR_MISALIGNED)\<rparr>
                else if d_page_fault s then r0\<lparr>mmu_rsp_fault := ucast (code LOAD_PAGE_FAULT STORE_PAGE_FAULT)\<rparr>
                else r0\<lparr>mmu_rsp_fault :=
                          (if mem_rsp_fault rsp = 0 \<and> \<not> d_pmp_fault s then 0
                           else ucast (code LOAD_ACCESS_FAULT STORE_ACCESS_FAULT)),
                        mmu_rsp_rdata := mem_rsp_rdata rsp\<rparr>)
      in if mmu_rsp_fault r1 \<noteq> 0 then r1\<lparr>mmu_rsp_tval := dmem_addr req\<rparr> else r1)"

subsection \<open>The instruction port\<close>

record IMMU =
  i_state :: u8
  i_page_fault :: bool
  i_pmp_fault :: bool
  i_satp :: u32
  i_root_ppn :: u32
  i_root_addr :: u32
  i_vpn1 :: u32
  i_vpn0 :: u32
  i_offset :: u32
  i_pte :: u32
  i_ppn :: u32
  i_mmu_mem :: IMEM_IN
  immu_to_mem :: IMEM_IN
  immu_pc :: u32
  immu_flush :: bool
  immu_ready :: bool
  immu_to_ifetch :: MMU_RSP
  i_member_page_fault :: bool

text \<open>\<open>i_member_page_fault\<close> is the member \<^verbatim>\<open>_i_page_fault\<close>, which the path of a completed fetch does
  not assign, so that it keeps its value from one activation to the next.\<close>

definition IMMU_ctor :: "bool \<Rightarrow> IMMU" where
  "IMMU_ctor junk =
     \<lparr>i_state = 0, i_page_fault = False, i_pmp_fault = False, i_satp = 0, i_root_ppn = 0, i_root_addr = 0,
      i_vpn1 = 0, i_vpn0 = 0, i_offset = 0, i_pte = 0, i_ppn = 0, i_mmu_mem = IMEM_IN_ctor,
      immu_to_mem = IMEM_IN_ctor, immu_pc = 0, immu_flush = False, immu_ready = False,
      immu_to_ifetch = MMU_RSP_ctor, i_member_page_fault = junk\<rparr>"

record IMMU_IN =
  im_rst :: bool
  im_flush :: bool
  im_accept :: bool
  im_fetch_pc :: u32
  im_rsp :: MEM_OUT
  im_exec :: EXEC

definition i_perm_fault :: "EXEC \<Rightarrow> u32 \<Rightarrow> bool" where
  "i_perm_fault x pte \<longleftrightarrow>
     8 AND pte = 0 \<or> pte AND ACCESS_BIT = 0 \<or>
     x_priv x = RV_PRIV_S_MODE \<and> USERBIT pte \<or>
     x_priv x = RV_PRIV_U_MODE \<and> \<not> USERBIT pte \<or>
     pte AND 6 = 4"

definition i_no_req :: "IMMU \<Rightarrow> IMMU" where
  "i_no_req s = s\<lparr>i_mmu_mem := (i_mmu_mem s)\<lparr>imem_req_ack := False\<rparr>\<rparr>"

definition i_send :: "u32 \<Rightarrow> IMMU \<Rightarrow> IMMU" where
  "i_send addr s = s\<lparr>i_mmu_mem := \<lparr>imem_req_ack = True, imem_addr = addr\<rparr>\<rparr>"

text \<open>A step returns the new state, the TLB and the flag \<^verbatim>\<open>is_fetch\<close>: the address sent is that of the
  instruction and not of a page table entry.\<close>

definition imem_start :: "TLBEntry \<Rightarrow> IMMU_IN \<Rightarrow> IMMU \<Rightarrow> TLB \<Rightarrow> IMMU \<times> TLB \<times> bool" where
  "imem_start junk i s tlb =
     (let x = im_exec i; pc = (if im_accept i then im_fetch_pc i else immu_pc s); satp = x_csr x CSR_SATP;
          s1 = s\<lparr>immu_pc := pc, i_member_page_fault := False, i_satp := satp,
                 i_root_ppn := satp AND 0x003FFFFF, i_root_addr := push_bit 12 (satp AND 0x003FFFFF),
                 i_vpn1 := drop_bit 22 pc AND 0x3FF, i_vpn0 := drop_bit 12 pc AND 0x3FF,
                 i_offset := pc AND 0xFFF\<rparr>
      in if SATP_ON satp \<and> (x_priv x = RV_PRIV_S_MODE \<or> x_priv x = RV_PRIV_U_MODE)
         then (let (entry, tlb1) = tlb_find junk (asid_of satp) (drop_bit 12 pc) tlb;
                   pte = te_pte entry; s2 = s1\<lparr>i_pte := pte\<rparr>
               in if pte AND 1 \<noteq> 0
                  then (let s3 = s2\<lparr>i_ppn := ppn_of pte, i_member_page_fault := i_perm_fault x pte\<rparr>
                        in if i_member_page_fault s3 then (i_no_req s3, tlb1, False)
                           else if te_is_megapage entry
                           then ((i_send (push_bit 12 (i_ppn s3) + (pc AND 0x3FFFFC)) s3)\<lparr>i_state := 3\<rparr>, tlb1, True)
                           else ((i_send (push_bit 12 (i_ppn s3) + (i_offset s3 AND NOT 3)) s3)\<lparr>i_state := 3\<rparr>,
                                 tlb1, True))
                  else ((i_send (i_root_addr s2 + i_vpn1 s2 * 4) s2)\<lparr>i_state := 1\<rparr>, tlb1, False))
         else ((i_send (pc AND NOT 3) s1)\<lparr>i_state := 3\<rparr>, tlb, True))"

definition imem_level1 :: "IMMU_IN \<Rightarrow> IMMU \<Rightarrow> TLB \<Rightarrow> IMMU \<times> TLB \<times> bool" where
  "imem_level1 i s tlb =
     (let x = im_exec i; pte = mem_rsp_rdata (im_rsp i); flags = pte AND 0xFF;
          s1 = s\<lparr>i_pte := pte, i_ppn := ppn_of pte\<rparr>;
          s2 = s1\<lparr>i_member_page_fault := pte AND 1 = 0 \<or>
                    flags \<noteq> 1 \<and> (i_ppn s1 AND 0x3FF \<noteq> 0 \<or> i_perm_fault x pte)\<rparr>
      in if i_member_page_fault s2 then (i_no_req s2, tlb, False)
         else if flags AND 0xE \<noteq> 0
         then ((i_send (push_bit 12 (i_ppn s2) + (immu_pc s2 AND 0x3FFFFC)) s2)\<lparr>i_state := 3\<rparr>,
               tlb_store (asid_of (i_satp s2)) (drop_bit 12 (immu_pc s2)) pte True tlb, True)
         else ((i_send (push_bit 12 (i_ppn s2) + i_vpn0 s2 * 4) s2)\<lparr>i_state := 2\<rparr>, tlb, False))"

definition imem_level0 :: "IMMU_IN \<Rightarrow> IMMU \<Rightarrow> TLB \<Rightarrow> IMMU \<times> TLB \<times> bool" where
  "imem_level0 i s tlb =
     (let x = im_exec i; pte = mem_rsp_rdata (im_rsp i);
          s1 = s\<lparr>i_pte := pte, i_ppn := ppn_of pte\<rparr>;
          s2 = s1\<lparr>i_member_page_fault := pte AND 1 = 0 \<or> i_perm_fault x pte\<rparr>
      in if i_member_page_fault s2 then (i_no_req s2, tlb, False)
         else ((i_send (push_bit 12 (i_ppn s2) + (i_offset s2 AND NOT 3)) s2)\<lparr>i_state := 3\<rparr>,
               tlb_store (asid_of (i_satp s2)) (drop_bit 12 (immu_pc s2)) pte False tlb, True))"

definition imem_step :: "TLBEntry \<Rightarrow> IMMU_IN \<Rightarrow> IMMU \<Rightarrow> TLB \<Rightarrow> IMMU \<times> TLB \<times> bool" where
  "imem_step junk i s tlb =
     (if im_rst i \<or> im_flush i
      then (i_no_req (s\<lparr>i_member_page_fault := False, i_state := 0, i_satp := 0, i_root_ppn := 0,
                        i_root_addr := 0, i_vpn1 := 0, i_vpn0 := 0, i_offset := 0\<rparr>), tlb, False)
      else if immu_ready s then imem_start junk i s tlb
      else if mem_rsp_ack (im_rsp i)
      then (if i_state s = 1 then imem_level1 i s tlb
            else if i_state s = 2 then imem_level0 i s tlb
            else (i_no_req (s\<lparr>i_state := 0\<rparr>), tlb, False))
      else (i_no_req (s\<lparr>i_member_page_fault := False\<rparr>), tlb, False))"

definition imem_check :: "EXEC \<Rightarrow> bool \<Rightarrow> IMMU \<Rightarrow> IMMU" where
  "imem_check x is_fetch s =
     (let m = i_mmu_mem s; a = imem_addr m;
          pmp = imem_req_ack m \<and>
                (\<not> pmp_icheck x (ucast a) (if is_fetch then 4 else 1) 4 \<or> \<not> is_pma_valid a)
      in s\<lparr>immu_to_mem := (if pmp \<or> i_member_page_fault s then IMEM_IN_ctor else m),
           i_page_fault := i_member_page_fault s, i_pmp_fault := pmp\<rparr>)"

definition imem_req_seq :: "TLBEntry \<Rightarrow> IMMU_IN \<Rightarrow> IMMU \<Rightarrow> TLB \<Rightarrow> IMMU \<times> TLB" where
  "imem_req_seq junk i s tlb =
     (let (s', tlb', is_fetch) = imem_step junk i s tlb;
          s'' = imem_check (im_exec i) is_fetch s'
      in (s''\<lparr>immu_flush := (if immu_ready s then False else if im_flush i then True else immu_flush s)\<rparr>, tlb'))"

definition imem_rsp_comb :: "MEM_OUT \<Rightarrow> IMMU \<Rightarrow> IMMU" where
  "imem_rsp_comb rsp s =
     (let r0 = MMU_RSP_ctor\<lparr>mmu_rsp_ack :=
                 (i_state s = 3 \<or> immu_flush s) \<and> mem_rsp_ack rsp \<or> i_page_fault s \<or> i_pmp_fault s \<or>
                 mem_rsp_fault rsp \<noteq> 0\<rparr>;
          r1 = (if i_page_fault s then r0\<lparr>mmu_rsp_fault := ucast INSTR_PAGE_FAULT\<rparr>
                else r0\<lparr>mmu_rsp_fault := (if mem_rsp_fault rsp = 0 \<and> \<not> i_pmp_fault s then 0 else 1),
                        mmu_rsp_rdata := mem_rsp_rdata rsp\<rparr>);
          r2 = (if mmu_rsp_fault r1 \<noteq> 0 then r1\<lparr>mmu_rsp_tval := immu_pc s\<rparr> else r1)
      in s\<lparr>immu_to_ifetch := r2, immu_ready := mmu_rsp_ack r2 \<or> i_state s = 0\<rparr>)"

end
