(* ===== verification/Mmu_Data.thy ===== *)
theory Mmu_Data
  imports Mmu_Walk
begin

unbundle bit_operations_syntax

text \<open>
  The data port of the MMU against the specification: \<^verbatim>\<open>dmem_req_seq\<close> run edge by edge until a request
  held by the execute stage has an outcome, and the answer \<^verbatim>\<open>dmem_rsp_comb\<close> forms from it. The port is an
  instance of the locale \<open>table_walker\<close>.
\<close>

subsection \<open>Running the data port\<close>

text \<open>What an edge leaves behind: a fault, a request on its way to the memory, or nothing yet.\<close>

definition d_outcome :: "DMMU \<Rightarrow> DMEM_IN access option" where
  "d_outcome s =
     (if d_misaligned_fault s then Some Misaligned
      else if d_page_fault s then Some Page_fault
      else if d_pmp_fault s then Some Access_fault
      else if d_state s = 3 then Some (Physical (dmmu_to_mem s)) else None)"

text \<open>An edge at which the memory has, or has not yet, answered the request for a table entry.\<close>

definition d_edge :: "(u32 \<Rightarrow> u32) \<Rightarrow> TLBEntry \<Rightarrow> EXEC \<Rightarrow> DMEM_IN \<Rightarrow> bool \<Rightarrow> DMMU \<Rightarrow> TLB \<Rightarrow> DMMU \<times> TLB" where
  "d_edge mem junk x req ack s tlb =
     dmem_req_seq junk
       \<lparr>dm_rst = False, dm_flush = False, dm_req = req,
        dm_rsp = (if ack then MEM_OUT_ctor\<lparr>mem_rsp_ack := True, mem_rsp_rdata := mem (dmem_addr (d_mmu_mem s))\<rparr>
                  else MEM_OUT_ctor),
        dm_exec = x\<rparr> s tlb"

definition d_code :: "DMEM_IN \<Rightarrow> u32" where
  "d_code req = (if d_reads req then 1 else 2)"

definition d_translate ::
  "(u32 \<Rightarrow> u32) \<Rightarrow> TLBEntry \<Rightarrow> EXEC \<Rightarrow> DMEM_IN \<Rightarrow> bool list \<Rightarrow> DMMU \<Rightarrow> TLB \<Rightarrow>
     DMEM_IN access option \<times> DMMU \<times> TLB" where
  "d_translate mem junk x req = settle (d_edge mem junk x req) d_outcome"

text \<open>What holds when the port is done: the kind of access is still latched and the TLB is coherent.\<close>

definition d_post :: "(u32 \<Rightarrow> u32) \<Rightarrow> EXEC \<Rightarrow> DMEM_IN \<Rightarrow> DMMU \<Rightarrow> TLB \<Rightarrow> bool" where
  "d_post mem x req s tlb \<longleftrightarrow> d_op s = d_code req \<and> coherent mem (x_csr x CSR_SATP) tlb"

definition latched :: "EXEC \<Rightarrow> DMEM_IN \<Rightarrow> DMMU \<Rightarrow> bool" where
  "latched x req s \<longleftrightarrow>
     d_satp s = x_csr x CSR_SATP \<and> d_priv s = d_effective x \<and> d_op s = d_code req \<and>
     d_vpn0 s = drop_bit 12 (dmem_addr req) AND 0x3FF \<and> d_offset s = dmem_addr req AND 0xFFF"

lemma latched_update: "latched x req (s\<lparr>d_pte := p, d_state := n, d_mmu_mem := m\<rparr>) = latched x req s"
  by (simp add: latched_def)

text \<open>What \<open>dmem_check\<close> makes of the request an edge has formed.\<close>

lemma check_access:
  assumes "d_mmu_mem s = access_req req a" and "\<not> d_page_fault s" and "d_state s = 3"
  shows "d_outcome (dmem_check x s) = Some (d_checked x (access_req req a))"
  using assms by (simp add: d_outcome_def dmem_check_def d_checked_def d_allowed_def access_req_def Let_def)

lemma table_address_aligned: "(push_bit 12 p + v * 4) AND - 4 = (push_bit 12 p + v * 4 :: u32)"
proof -
  have "push_bit 12 p + v * 4 = push_bit 2 (push_bit 10 p + v)"
    by (simp add: push_bit_eq_mult algebra_simps)
  moreover have "push_bit 2 w AND - 4 = push_bit 2 w" for w :: u32
  proof -
    have "(- 4 :: u32) = NOT (mask 2)"
      by (simp add: mask_eq_exp_minus_1)
    moreover have "push_bit 2 w AND NOT (mask 2) = push_bit 2 w"
      by (intro bit_word_eqI) (auto simp: bit_simps)
    ultimately show ?thesis
      by (simp only:)
  qed
  ultimately show ?thesis
    by simp
qed

lemma check_pte:
  assumes "d_mmu_mem s = pte_req (push_bit 12 p + v * 4)" and "\<not> d_page_fault s" and "d_state s \<noteq> 3"
  shows "d_outcome (dmem_check x s) =
    (if d_readable x (push_bit 12 p + v * 4) then None else Some Access_fault)"
  using assms table_address_aligned [of p v]
  by (simp add: d_outcome_def dmem_check_def d_readable_def d_allowed_def pte_req_def Let_def)

lemma check_fault:
  assumes "d_page_fault s" and "\<not> dmem_req_ack (d_mmu_mem s)"
  shows "d_outcome (dmem_check x s) = Some Page_fault"
  using assms by (simp add: d_outcome_def dmem_check_def Let_def)

lemma check_frame [simp]:
  "d_state (dmem_check x s) = d_state s" "d_op (dmem_check x s) = d_op s" "d_mmu_mem (dmem_check x s) = d_mmu_mem s"
  "latched x' req (dmem_check x s) = latched x' req s" "d_vpn0 (dmem_check x s) = d_vpn0 s"
  by (simp_all add: dmem_check_def Let_def latched_def)

text \<open>An edge without an answer changes nothing that matters.\<close>

definition waited :: "EXEC \<Rightarrow> DMMU \<Rightarrow> DMMU" where
  "waited x s = dmem_check x (no_req (s\<lparr>d_page_fault := False\<rparr>))"

lemma waited_simps [simp]:
  "d_outcome (waited x s) = (if d_state s = 3 then Some (Physical (dmmu_to_mem (waited x s))) else None)"
  "d_state (waited x s) = d_state s" "latched x' req (waited x s) = latched x' req s"
  "dmem_addr (d_mmu_mem (waited x s)) = dmem_addr (d_mmu_mem s)"
  by (simp_all add: waited_def no_req_def latched_def d_outcome_def dmem_check_def Let_def)

lemma edge_waiting:
  assumes "d_state s \<noteq> 0"
  shows "d_edge mem junk x req False s tlb = (waited x s, tlb)"
  using assms by (simp add: d_edge_def dmem_req_seq_def dmem_step_def MEM_OUT_ctor_def waited_def)

subsection \<open>The data port reaches the specified outcome\<close>

abbreviation (input) d_vpn :: "DMEM_IN \<Rightarrow> u32" where "d_vpn req \<equiv> drop_bit 12 (dmem_addr req)"

text \<open>The two states in which the port waits for a table entry.\<close>

definition d_at1 :: "(u32 \<Rightarrow> u32) \<Rightarrow> EXEC \<Rightarrow> DMEM_IN \<Rightarrow> DMMU \<Rightarrow> TLB \<Rightarrow> bool" where
  "d_at1 mem x req s tlb \<longleftrightarrow>
     coherent mem (x_csr x CSR_SATP) tlb \<and> d_translating x \<and> latched x req s \<and> d_state s = 1 \<and>
     dmem_addr (d_mmu_mem s) =
       push_bit 12 (x_csr x CSR_SATP AND 0x3FFFFF) + (drop_bit 10 (d_vpn req) AND 0x3FF) * 4 \<and>
     d_readable x (dmem_addr (d_mmu_mem s))"

definition d_at0 :: "(u32 \<Rightarrow> u32) \<Rightarrow> EXEC \<Rightarrow> DMEM_IN \<Rightarrow> DMMU \<Rightarrow> TLB \<Rightarrow> bool" where
  "d_at0 mem x req s tlb \<longleftrightarrow>
     coherent mem (x_csr x CSR_SATP) tlb \<and> d_translating x \<and> latched x req s \<and> d_state s = 2 \<and>
     sv32_walk (d_readable x) mem (x_csr x CSR_SATP) (d_vpn req) =
       (if bit (mem (dmem_addr (d_mmu_mem s))) 0 then Leaf (mem (dmem_addr (d_mmu_mem s))) False else Bad_pte)"

abbreviation (input) d_ends :: "(u32 \<Rightarrow> u32) \<Rightarrow> EXEC \<Rightarrow> DMEM_IN \<Rightarrow> DMEM_IN access \<Rightarrow> DMMU \<times> TLB \<Rightarrow> bool" where
  "d_ends mem x req r \<equiv> (\<lambda>(s', t'). d_outcome s' = Some r \<and> d_post mem x req s' t')"

lemma latched_fault:
  assumes "latched x req s"
  shows "d_perm_fault x req (d_op s) (d_priv s) pte \<longleftrightarrow>
    \<not> d_permitted (bit (x_csr x CSR_MSTATUS) 18) (d_effective x) req pte"
  using assms d_perm_fault_spec [of x req] by (simp add: latched_def d_code_def)

lemma answer_level0:
  assumes at0: "d_at0 mem x req s tlb"
  shows "d_ends mem x req (sv32_data (d_readable x) mem x req) (d_edge mem junk x req True s tlb)"
proof -
  define pte where "pte = mem (dmem_addr (d_mmu_mem s))"
  have coh: "coherent mem (x_csr x CSR_SATP) tlb" and on: "d_translating x" and l: "latched x req s"
    and st: "d_state s = 2"
    and walk: "sv32_walk (d_readable x) mem (x_csr x CSR_SATP) (d_vpn req) =
      (if bit pte 0 then Leaf pte False else Bad_pte)"
    using at0 unfolding d_at0_def pte_def by blast+
  define f where "f = (\<not> bit pte 0 \<or> \<not> d_permitted (bit (x_csr x CSR_MSTATUS) 18) (d_effective x) req pte)"
  define s2 where "s2 = s\<lparr>d_pte := pte, d_ppn := ppn_of pte, d_page_fault := f\<rparr>"
  have op: "d_op s2 = d_code req"
    using l by (simp add: latched_def s2_def)
  have edge: "d_edge mem junk x req True s tlb =
      (if f then (dmem_check x (no_req (s2\<lparr>d_state := 0\<rparr>)), tlb)
       else (dmem_check x (s2\<lparr>d_mmu_mem := access_req req (page_addr False pte (dmem_addr req)), d_state := 3\<rparr>),
             tlb_store (asid_of (x_csr x CSR_SATP)) (d_vpn req) pte False tlb))"
    using l st latched_fault [of x req "s\<lparr>d_pte := pte, d_ppn := ppn_of pte\<rparr>"]
    by (simp add: d_edge_def dmem_req_seq_def dmem_step_def dmem_level0_def MEM_OUT_ctor_def Let_def
        pte_def [symmetric] and_flag_iff f_def s2_def page_addr_def latched_def)
  show ?thesis
  proof (cases f)
    case True
    have "sv32_data (d_readable x) mem x req = Page_fault"
      using walk True on by (auto simp: sv32_data_def f_def)
    then show ?thesis
      using True coh op
      unfolding edge d_post_def by (simp add: check_fault s2_def no_req_def)
  next
    case False
    then have w: "sv32_walk (d_readable x) mem (x_csr x CSR_SATP) (d_vpn req) = Leaf pte False"
      using walk by (simp add: f_def)
    then have "sv32_data (d_readable x) mem x req = d_checked x (access_req req (page_addr False pte (dmem_addr req)))"
      using False on by (simp add: sv32_data_def f_def)
    then show ?thesis
      using False op coherent_store [OF coh w vpn_small]
      unfolding edge d_post_def by (simp add: check_access s2_def)
  qed
qed

definition d_fault1 :: "EXEC \<Rightarrow> DMEM_IN \<Rightarrow> u32 \<Rightarrow> bool" where
  "d_fault1 x req pte \<longleftrightarrow> \<not> bit pte 0 \<or> pte AND 0xFF \<noteq> 1 \<and>
     (ppn_of pte AND 0x3FF \<noteq> 0 \<or> \<not> d_permitted (bit (x_csr x CSR_MSTATUS) 18) (d_effective x) req pte)"

lemma edge_level1:
  assumes "latched x req s" and "d_state s = 1" and "pte = mem (dmem_addr (d_mmu_mem s))"
    and "s2 = s\<lparr>d_pte := pte, d_ppn := ppn_of pte, d_page_fault := d_fault1 x req pte\<rparr>"
  shows "d_edge mem junk x req True s tlb =
      (if d_fault1 x req pte then (dmem_check x (no_req (s2\<lparr>d_state := 0\<rparr>)), tlb)
       else if (pte AND 0xFF) AND 0xE \<noteq> 0
       then (dmem_check x (s2\<lparr>d_mmu_mem := access_req req (page_addr True pte (dmem_addr req)), d_state := 3\<rparr>),
             tlb_store (asid_of (x_csr x CSR_SATP)) (d_vpn req) pte True tlb)
       else (dmem_check x (s2\<lparr>d_mmu_mem := pte_req (leaf_addr pte (d_vpn req)), d_state := 2\<rparr>), tlb))"
  using assms(1,2) latched_fault [of x req "s\<lparr>d_pte := pte, d_ppn := ppn_of pte\<rparr>"]
  by (auto simp: d_edge_def dmem_req_seq_def dmem_step_def dmem_level1_def MEM_OUT_ctor_def Let_def
      assms(3) [symmetric] and_flag_iff d_fault1_def assms(4) page_addr_def latched_def leaf_addr_def)

lemma answer_level1:
  assumes at1: "d_at1 mem x req s tlb"
  shows "case d_edge mem junk x req True s tlb of (s', t') \<Rightarrow>
    d_outcome s' = Some (sv32_data (d_readable x) mem x req) \<and> d_post mem x req s' t' \<or>
    d_outcome s' = None \<and> d_at0 mem x req s' t'"
proof -
  define pte where "pte = mem (dmem_addr (d_mmu_mem s))"
  define s2 where "s2 = s\<lparr>d_pte := pte, d_ppn := ppn_of pte, d_page_fault := d_fault1 x req pte\<rparr>"
  have coh: "coherent mem (x_csr x CSR_SATP) tlb" and on: "d_translating x" and l: "latched x req s" and st: "d_state s = 1"
    using at1 unfolding d_at1_def by blast+
  note edge = edge_level1 [where mem = mem, OF l st pte_def s2_def]
  have walk: "sv32_walk (d_readable x) mem (x_csr x CSR_SATP) (d_vpn req) =
      (if \<not> bit pte 0 then Bad_pte
       else if pte AND 0xFF \<noteq> 1 then (if ppn_of pte AND 0x3FF \<noteq> 0 then Bad_pte else Leaf pte True)
       else if \<not> d_readable x (leaf_addr pte (d_vpn req)) then Denied
       else if \<not> bit (mem (leaf_addr pte (d_vpn req))) 0 then Bad_pte else Leaf (mem (leaf_addr pte (d_vpn req))) False)"
    by (rule sv32_walk_root [where a = "dmem_addr (d_mmu_mem s)" and mem = mem, OF _ _ pte_def]) (use at1 in \<open>unfold d_at1_def, blast+\<close>)
  have op: "d_op s2 = d_code req" and l2: "latched x req (s2\<lparr>d_mmu_mem := m, d_state := n\<rparr>)" for m n
    using l by (simp_all add: latched_def s2_def)
  consider (bad) "d_fault1 x req pte" | (mega) "\<not> d_fault1 x req pte" "pte AND 0xFF \<noteq> 1" | (table) "\<not> d_fault1 x req pte" "pte AND 0xFF = 1"
    by blast
  then show ?thesis
  proof cases
    case bad
    then have "sv32_data (d_readable x) mem x req = Page_fault"
      using walk on by (auto simp: sv32_data_def d_fault1_def)
    then show ?thesis
      using bad coh op unfolding edge d_post_def by (simp add: check_fault s2_def no_req_def)
  next
    case mega
    then have w: "sv32_walk (d_readable x) mem (x_csr x CSR_SATP) (d_vpn req) = Leaf pte True"
      and ok: "d_permitted (bit (x_csr x CSR_MSTATUS) 18) (d_effective x) req pte"
      using walk by (simp_all add: d_fault1_def)
    have "sv32_data (d_readable x) mem x req = d_checked x (access_req req (page_addr True pte (dmem_addr req)))"
      using w ok on by (simp add: sv32_data_def)
    moreover have "((pte AND 0xFF) AND 0xE \<noteq> 0) = True"
      using leaf_flags [of pte 1] ok by (simp add: d_permitted_def)
    ultimately show ?thesis
      using mega op coherent_store [OF coh w vpn_small] unfolding edge d_post_def by (simp add: check_access s2_def)
  next
    case table
    let ?s3 = "dmem_check x (s2\<lparr>d_mmu_mem := pte_req (leaf_addr pte (d_vpn req)), d_state := 2\<rparr>)"
    have "d_outcome ?s3 = (if d_readable x (leaf_addr pte (d_vpn req)) then None else Some Access_fault)"
      unfolding leaf_addr_def by (rule check_pte) (use table in \<open>simp_all add: s2_def\<close>)
    moreover have "d_edge mem junk x req True s tlb = (?s3, tlb)"
      using edge table by simp
    moreover have "dmem_addr (d_mmu_mem ?s3) = leaf_addr pte (d_vpn req)"
      by (simp add: pte_req_def)
    ultimately show ?thesis
      using walk table coh on l2 op by (auto simp: d_at0_def d_post_def sv32_data_def d_fault1_def)
  qed
qed

interpretation data_port: table_walker "\<lambda>a. a" "d_edge mem junk x req" d_outcome "d_at1 mem x req" "d_at0 mem x req"
  "d_post mem x req" "sv32_data (d_readable x) mem x req" for mem junk x req
proof unfold_locales
  show "case d_edge mem junk x req a s t of (s', t') \<Rightarrow> d_outcome s' = None \<and> d_at1 mem x req s' t'"
    if "\<not> a" and "d_at1 mem x req s t" for a s t
    using that unfolding d_at1_def by (elim conjE) (simp add: edge_waiting)
  show "case d_edge mem junk x req a s t of (s', t') \<Rightarrow> d_outcome s' = None \<and> d_at0 mem x req s' t'"
    if "\<not> a" and "d_at0 mem x req s t" for a s t
    using that by (simp add: edge_waiting d_at0_def)
qed (simp_all only: answer_level1 answer_level0)

lemma latch_latched:
  "latched x req (dmem_latch x req s)" "d_page_fault (dmem_latch x req s) = d_page_fault s"
  "d_satp (dmem_latch x req s) = x_csr x CSR_SATP" "d_op (dmem_latch x req s) = d_code req"
  "d_priv (dmem_latch x req s) = d_effective x"
  "d_root_addr (dmem_latch x req s) + d_vpn1 (dmem_latch x req s) * 4 =
     push_bit 12 (x_csr x CSR_SATP AND 0x3FFFFF) + (drop_bit 10 (d_vpn req) AND 0x3FF) * 4"
  by (simp_all add: dmem_latch_def latched_def Let_def d_effective_def d_code_def d_reads_def)

definition started :: "EXEC \<Rightarrow> DMEM_IN \<Rightarrow> DMMU \<Rightarrow> DMMU" where
  "started x req s = dmem_latch x req (s\<lparr>d_page_fault := False\<rparr>)"

lemma started_simps [simp]:
  "latched x req (started x req s)" "\<not> d_page_fault (started x req s)"
  "d_satp (started x req s) = x_csr x CSR_SATP" "d_op (started x req s) = d_code req"
  "d_priv (started x req s) = d_effective x"
  by (simp_all add: started_def latch_latched)

lemma edge_idle:
  assumes "d_state s = 0" and "dmem_req_ack req"
  shows "d_edge mem junk x req ack s tlb =
    (let s1 = started x req s; (e, tlb1) = tlb_find junk (asid_of (x_csr x CSR_SATP)) (d_vpn req) tlb;
         pte = te_pte e; f = \<not> d_permitted (bit (x_csr x CSR_MSTATUS) 18) (d_effective x) req pte;
         s3 = s1\<lparr>d_pte := pte, d_ppn := ppn_of pte, d_page_fault := f\<rparr>
     in if \<not> d_translating x
        then (dmem_check x (s1\<lparr>d_state := 3, d_mmu_mem := access_req req (dmem_addr req)\<rparr>), tlb)
        else if \<not> bit pte 0
        then (dmem_check x (s1\<lparr>d_pte := pte, d_state := 1,
                d_mmu_mem := pte_req (push_bit 12 (x_csr x CSR_SATP AND 0x3FFFFF) + (drop_bit 10 (d_vpn req) AND 0x3FF) * 4)\<rparr>), tlb1)
        else if f then (dmem_check x (no_req (s3\<lparr>d_state := 0\<rparr>)), tlb1)
        else (dmem_check x (s3\<lparr>d_mmu_mem := access_req req (page_addr (te_is_megapage e) pte (dmem_addr req)),
                d_state := 3\<rparr>), tlb1))"
  using assms latched_fault [of x req "started x req s", simplified]
    latch_latched(6) [of x req "s\<lparr>d_page_fault := False\<rparr>", folded started_def]
  by (simp add: d_edge_def dmem_req_seq_def dmem_step_def dmem_idle_def Let_def case_prod_beta
      started_def [symmetric] d_translating_def [symmetric] and_flag_iff page_addr_def)

definition d_reader :: "EXEC \<Rightarrow> DMEM_IN \<Rightarrow> TLB \<Rightarrow> u32 \<Rightarrow> bool" where
  "d_reader x req tlb = (if cached (x_csr x CSR_SATP) (d_vpn req) tlb then (\<lambda>_. True) else d_readable x)"

lemma settled_at_once:
  "d_ends mem x req r (d_edge mem junk x req ack s tlb) \<Longrightarrow>
    settled d_outcome (d_post mem x req) r (d_translate mem junk x req (ack # acks) s tlb)"
  unfolding d_translate_def settled_Cons by auto

lemma idle_direct:
  assumes "coherent mem (x_csr x CSR_SATP) tlb" and "d_state s = 0" and "dmem_req_ack req" and "\<not> d_translating x"
  shows "d_ends mem x req (sv32_data r mem x req) (d_edge mem junk x req ack s tlb)"
  using edge_idle [OF assms(2,3), of mem junk x ack tlb] assms
  by (simp add: case_prod_beta check_access sv32_data_def d_post_def)

lemma idle_hit:
  assumes coh: "coherent mem (x_csr x CSR_SATP) tlb" and st: "d_state s = 0" and ack: "dmem_req_ack req"
    and on: "d_translating x" and hit: "cached (x_csr x CSR_SATP) (d_vpn req) tlb"
  shows "d_ends mem x req (sv32_data (\<lambda>_. True) mem x req) (d_edge mem junk x req ack0 s tlb)"
proof -
  obtain e where e: "fst (tlb_find junk (asid_of (x_csr x CSR_SATP)) (d_vpn req) tlb) = e"
    and w: "sv32_walk (\<lambda>_. True) mem (x_csr x CSR_SATP) (d_vpn req) = Leaf (te_pte e) (te_is_megapage e)"
    using find_cached [OF coh hit] .
  define tlb1 where "tlb1 = snd (tlb_find junk (asid_of (x_csr x CSR_SATP)) (d_vpn req) tlb)"
  have c1: "coherent mem (x_csr x CSR_SATP) tlb1"
    using coh by (simp add: tlb1_def)
  define pte where "pte = te_pte e"
  define f where "f = (\<not> d_permitted (bit (x_csr x CSR_MSTATUS) 18) (d_effective x) req pte)"
  define s3 where "s3 = (started x req s)\<lparr>d_pte := pte, d_ppn := ppn_of pte, d_page_fault := f\<rparr>"
  have v: "bit pte 0"
    using leaf_valid [OF w] by (simp add: pte_def)
  have edge: "d_edge mem junk x req ack0 s tlb =
      (if f then (dmem_check x (no_req (s3\<lparr>d_state := 0\<rparr>)), tlb1)
       else (dmem_check x (s3\<lparr>d_mmu_mem := access_req req (page_addr (te_is_megapage e) pte (dmem_addr req)),
               d_state := 3\<rparr>), tlb1))"
    unfolding edge_idle [OF st ack] Let_def case_prod_beta e tlb1_def [symmetric] pte_def [symmetric]
      f_def [symmetric] s3_def [symmetric]
    using on v by simp
  have spec: "sv32_data (\<lambda>_. True) mem x req =
      (if f then Page_fault else d_checked x (access_req req (page_addr (te_is_megapage e) pte (dmem_addr req))))"
    using w on by (simp add: sv32_data_def f_def pte_def)
  show ?thesis
  proof (cases f)
    case True
    then show ?thesis
      using spec c1
      unfolding edge d_post_def by (simp add: check_fault s3_def no_req_def)
  next
    case False
    then show ?thesis
      using spec c1 unfolding edge d_post_def by (simp add: check_access s3_def)
  qed
qed

lemma idle_miss:
  assumes coh: "coherent mem (x_csr x CSR_SATP) tlb" and st: "d_state s = 0" and ack: "dmem_req_ack req"
    and on: "d_translating x" and miss: "\<not> cached (x_csr x CSR_SATP) (d_vpn req) tlb"
    and junk: "\<not> bit (te_pte junk) 0"
  shows "case d_edge mem junk x req ack0 s tlb of (s', t') \<Rightarrow>
    d_outcome s' = Some (sv32_data (d_readable x) mem x req) \<and> d_post mem x req s' t' \<or>
    d_outcome s' = None \<and> d_at1 mem x req s' t'"
proof -
  define tlb1 where "tlb1 = snd (tlb_find junk (asid_of (x_csr x CSR_SATP)) (d_vpn req) tlb)"
  have c1: "coherent mem (x_csr x CSR_SATP) tlb1"
    using coh by (simp add: tlb1_def)
  define a1 where "a1 = push_bit 12 (x_csr x CSR_SATP AND 0x3FFFFF) + (drop_bit 10 (d_vpn req) AND 0x3FF) * 4"
  define s1 where "s1 = (started x req s)\<lparr>d_pte := te_pte junk, d_state := 1, d_mmu_mem := pte_req a1\<rparr>"
  have edge: "d_edge mem junk x req ack0 s tlb = (dmem_check x s1, tlb1)"
    unfolding edge_idle [OF st ack] Let_def case_prod_beta find_uncached [OF miss] tlb1_def [symmetric]
    using on junk by (simp add: TLBEntry_ctor_def s1_def a1_def)
  have out: "d_outcome (dmem_check x s1) = (if d_readable x a1 then None else Some Access_fault)"
    unfolding a1_def by (rule check_pte) (simp_all add: s1_def a1_def)
  show ?thesis
  proof (cases "d_readable x a1")
    case True
    have addr: "dmem_addr (d_mmu_mem (dmem_check x s1)) = a1" and l: "latched x req (dmem_check x s1)"
      by (simp_all add: s1_def pte_req_def latched_update)
    then have "d_at1 mem x req (dmem_check x s1) tlb1"
      using True c1 on unfolding d_at1_def by (simp add: s1_def a1_def)
    then show ?thesis
      using edge out True by simp
  next
    case False
    then have "sv32_data (d_readable x) mem x req = Access_fault"
      using on unfolding sv32_data_def sv32_walk_def Let_def a1_def [symmetric] by simp
    then show ?thesis
      using out False c1 edge by (simp add: s1_def d_post_def)
  qed
qed

lemma data_port_done:
  assumes "coherent mem (x_csr x CSR_SATP) tlb" and "d_state s = 0" and "dmem_req_ack req"
    and "\<not> bit (te_pte junk) 0" and "2 \<le> length (filter (\<lambda>a. a) acks)"
  shows "settled d_outcome (d_post mem x req) (sv32_data (d_reader x req tlb) mem x req)
    (d_translate mem junk x req (ack # acks) s tlb)"
proof (cases "d_translating x \<and> \<not> cached (x_csr x CSR_SATP) (d_vpn req) tlb")
  case True
  then show ?thesis
    unfolding d_translate_def
    using data_port.run [OF idle_miss [OF assms(1-3) _ _ assms(4)] assms(5)] by (simp add: d_reader_def)
next
  case False
  then show ?thesis
    using assms(1-3) unfolding d_reader_def
    by (intro settled_at_once; cases "d_translating x") (simp_all only: idle_direct idle_hit simp_thms if_True)
qed

subsection \<open>Properties of the data port\<close>

definition word_load :: "u32 \<Rightarrow> DMEM_IN" where
  "word_load a = access_req (pte_req 0) a"

lemma paged_translating: "d_translating paged_state" and paged_effective: "d_effective paged_state = 1"
  by (simp_all add: d_translating_def d_effective_def SATP_ON_def MPRV_def)

lemma paged_readable: "d_readable paged_state 0x80000004" "d_readable paged_state 0x80001008"
  by (simp_all add: d_readable_def d_allowed_def pte_req_def is_pma_valid_def pmp_dcheck_def dcheck_def
      pmp_applies_def pmp_range_def pmp_permits_def Let_def)

lemma paged_walk [simp]: "sv32_walk (d_readable paged_state) paged_mem 0x80080000 0x402 = Leaf 0x200008CF False"
  using paged_readable by (simp add: sv32_walk_def paged_mem_def ppn_of_def Let_def)

lemma paged_load:
  "sv32_data (d_readable paged_state) paged_mem paged_state (word_load 0x402004) = Physical (word_load 0x80002004)"
  "sv32_data (d_readable paged_state) paged_mem paged_state (word_load 0x402003) = Misaligned"
  by (simp_all add: sv32_data_def paged_translating paged_effective word_load_def access_req_def pte_req_def d_permitted_def
      page_addr_def ppn_of_def d_checked_def d_allowed_def is_pma_valid_def pmp_dcheck_def dcheck_def
      pmp_applies_def pmp_range_def pmp_permits_def Let_def)



text \<open>The answer the execute stage must get for an outcome.\<close>

fun d_answer :: "DMEM_IN access \<Rightarrow> DMEM_IN \<Rightarrow> MEM_OUT \<Rightarrow> MMU_RSP" where
  "d_answer (Physical r) req rsp =
     (if mem_rsp_fault rsp = 0
      then \<lparr>mmu_rsp_ack = mem_rsp_ack rsp, mmu_rsp_rdata = mem_rsp_rdata rsp, mmu_rsp_tval = 0, mmu_rsp_fault = 0\<rparr>
      else \<lparr>mmu_rsp_ack = True, mmu_rsp_rdata = mem_rsp_rdata rsp, mmu_rsp_tval = dmem_addr req,
            mmu_rsp_fault = (if d_reads req then 5 else 7)\<rparr>)"
| "d_answer Page_fault req rsp =
     \<lparr>mmu_rsp_ack = True, mmu_rsp_rdata = 0, mmu_rsp_tval = dmem_addr req,
      mmu_rsp_fault = (if d_reads req then 13 else 15)\<rparr>"
| "d_answer Access_fault req rsp =
     \<lparr>mmu_rsp_ack = True, mmu_rsp_rdata = mem_rsp_rdata rsp, mmu_rsp_tval = dmem_addr req,
      mmu_rsp_fault = (if d_reads req then 5 else 7)\<rparr>"
| "d_answer Misaligned req rsp =
     \<lparr>mmu_rsp_ack = True, mmu_rsp_rdata = 0, mmu_rsp_tval = dmem_addr req,
      mmu_rsp_fault = (if d_reads req then 4 else 6)\<rparr>"

lemma rsp_answer:
  assumes "d_outcome s = Some r" and "d_op s = d_code req"
  shows "dmem_rsp_comb req rsp s = d_answer r req rsp"
  using assms
  by (auto simp: d_outcome_def dmem_rsp_comb_def Let_def d_code_def MMU_RSP_ctor_def split: if_splits)



end
