(* ===== verification/Mmu_Fetch.thy ===== *)
theory Mmu_Fetch
  imports Mmu_Walk
begin

unbundle bit_operations_syntax

text \<open>
  The instruction port of the MMU against the specification: \<^verbatim>\<open>imem_req_seq\<close> and, one nanosecond later,
  \<^verbatim>\<open>imem_rsp_comb\<close>, run from a ready port until the fetch has an outcome. The port is the second instance of
  the locale \<open>table_walker\<close>.
\<close>

subsection \<open>The specification of a fetch\<close>

definition i_readable :: "EXEC \<Rightarrow> u32 \<Rightarrow> bool" where
  "i_readable x a \<longleftrightarrow> pmp_icheck x (ucast a) 1 4 \<and> is_pma_valid a"

definition i_checked :: "EXEC \<Rightarrow> u32 \<Rightarrow> IMEM_IN access" where
  "i_checked x a =
     (if pmp_icheck x (ucast a) 4 4 \<and> is_pma_valid a then Physical \<lparr>imem_req_ack = True, imem_addr = a\<rparr>
      else Access_fault)"

definition i_translating :: "EXEC \<Rightarrow> bool" where
  "i_translating x \<longleftrightarrow> SATP_ON (x_csr x CSR_SATP) \<and> (x_priv x = RV_PRIV_S_MODE \<or> x_priv x = RV_PRIV_U_MODE)"

definition fetch_addr :: "bool \<Rightarrow> u32 \<Rightarrow> u32 \<Rightarrow> u32" where
  "fetch_addr mega pte pc = push_bit 12 (ppn_of pte) + (pc AND (if mega then 0x3FFFFC else 0xFFC))"

definition sv32_fetch :: "(u32 \<Rightarrow> bool) \<Rightarrow> (u32 \<Rightarrow> u32) \<Rightarrow> EXEC \<Rightarrow> u32 \<Rightarrow> IMEM_IN access" where
  "sv32_fetch readable mem x pc =
     (if i_translating x
      then (case sv32_walk readable mem (x_csr x CSR_SATP) (drop_bit 12 pc) of
              Denied \<Rightarrow> Access_fault
            | Bad_pte \<Rightarrow> Page_fault
            | Leaf pte mega \<Rightarrow>
                (if i_permitted (x_priv x) pte then i_checked x (fetch_addr mega pte pc) else Page_fault))
      else i_checked x (pc AND NOT 3))"

definition i_reader :: "EXEC \<Rightarrow> u32 \<Rightarrow> TLB \<Rightarrow> u32 \<Rightarrow> bool" where
  "i_reader x pc tlb = (if cached (x_csr x CSR_SATP) (drop_bit 12 pc) tlb then (\<lambda>_. True) else i_readable x)"

subsection \<open>Running the instruction port\<close>

definition i_outcome :: "IMMU \<Rightarrow> IMEM_IN access option" where
  "i_outcome s =
     (if i_page_fault s then Some Page_fault
      else if i_pmp_fault s then Some Access_fault
      else if i_state s = 3 then Some (Physical (immu_to_mem s)) else None)"

definition i_wire :: "(u32 \<Rightarrow> u32) \<Rightarrow> bool \<Rightarrow> IMMU \<Rightarrow> MEM_OUT" where
  "i_wire mem ack s =
     (if ack then MEM_OUT_ctor\<lparr>mem_rsp_ack := True, mem_rsp_rdata := mem (imem_addr (i_mmu_mem s))\<rparr>
      else MEM_OUT_ctor)"

text \<open>One cycle: the pair tells whether an answer of the memory is on the wires at the edge, and
  whether one is there when \<^verbatim>\<open>imem_rsp_comb\<close> looks.\<close>

definition i_cycle ::
  "(u32 \<Rightarrow> u32) \<Rightarrow> TLBEntry \<Rightarrow> EXEC \<Rightarrow> bool \<Rightarrow> u32 \<Rightarrow> bool \<times> bool \<Rightarrow> IMMU \<Rightarrow> TLB \<Rightarrow> IMMU \<times> TLB" where
  "i_cycle mem junk x accept fpc a s tlb =
     (let (s', tlb') = imem_req_seq junk
            \<lparr>im_rst = False, im_flush = False, im_accept = accept, im_fetch_pc = fpc,
             im_rsp = i_wire mem (fst a) s, im_exec = x\<rparr> s tlb
      in (imem_rsp_comb (i_wire mem (snd a) s') s', tlb'))"

definition i_translate where
  "i_translate mem junk x accept fpc = settle (i_cycle mem junk x accept fpc) i_outcome"

text \<open>The answer the fetch unit gets for an outcome when the memory shows \<open>rsp\<close>.\<close>

fun i_answer :: "IMEM_IN access \<Rightarrow> u32 \<Rightarrow> MEM_OUT \<Rightarrow> MMU_RSP" where
  "i_answer (Physical r) pc rsp =
     (if mem_rsp_fault rsp = 0
      then \<lparr>mmu_rsp_ack = mem_rsp_ack rsp, mmu_rsp_rdata = mem_rsp_rdata rsp, mmu_rsp_tval = 0, mmu_rsp_fault = 0\<rparr>
      else \<lparr>mmu_rsp_ack = True, mmu_rsp_rdata = mem_rsp_rdata rsp, mmu_rsp_tval = pc, mmu_rsp_fault = 1\<rparr>)"
| "i_answer Page_fault pc rsp =
     \<lparr>mmu_rsp_ack = True, mmu_rsp_rdata = 0, mmu_rsp_tval = pc, mmu_rsp_fault = 12\<rparr>"
| "i_answer Access_fault pc rsp =
     \<lparr>mmu_rsp_ack = True, mmu_rsp_rdata = mem_rsp_rdata rsp, mmu_rsp_tval = pc, mmu_rsp_fault = 1\<rparr>"
| "i_answer Misaligned pc rsp = MMU_RSP_ctor"

definition i_latched :: "EXEC \<Rightarrow> u32 \<Rightarrow> IMMU \<Rightarrow> bool" where
  "i_latched x pc s \<longleftrightarrow>
     i_satp s = x_csr x CSR_SATP \<and> i_vpn0 s = drop_bit 12 pc AND 0x3FF \<and> i_offset s = pc AND 0xFFF \<and>
     immu_pc s = pc"

definition i_post :: "(u32 \<Rightarrow> u32) \<Rightarrow> EXEC \<Rightarrow> u32 \<Rightarrow> IMMU \<Rightarrow> TLB \<Rightarrow> bool" where
  "i_post mem x pc s tlb \<longleftrightarrow> immu_pc s = pc \<and> \<not> immu_flush s \<and> coherent mem (x_csr x CSR_SATP) tlb"

subsection \<open>The end of a cycle\<close>

definition closing :: "(u32 \<Rightarrow> u32) \<Rightarrow> EXEC \<Rightarrow> bool \<Rightarrow> bool \<Rightarrow> IMMU \<Rightarrow> IMMU" where
  "closing mem x ack is_fetch s =
     (let s' = (imem_check x is_fetch s)\<lparr>immu_flush := False\<rparr> in imem_rsp_comb (i_wire mem ack s') s')"

abbreviation (input) i_ports where
  "i_ports mem x accept fpc ack s \<equiv>
     \<lparr>im_rst = False, im_flush = False, im_accept = accept, im_fetch_pc = fpc, im_rsp = i_wire mem ack s, im_exec = x\<rparr>"

lemma cycle_closing:
  assumes "immu_ready s \<or> \<not> immu_flush s"
  shows "i_cycle mem junk x accept fpc a s tlb =
    (case imem_step junk (i_ports mem x accept fpc (fst a) s) s tlb of
       (s', tlb', is_fetch) \<Rightarrow> (closing mem x (snd a) is_fetch s', tlb'))"
  using assms by (auto simp: i_cycle_def imem_req_seq_def closing_def Let_def split: prod.split)

lemma closing_frame [simp]:
  "i_state (closing mem x ack f s) = i_state s" "i_mmu_mem (closing mem x ack f s) = i_mmu_mem s"
  "immu_pc (closing mem x ack f s) = immu_pc s" "\<not> immu_flush (closing mem x ack f s)"
  "i_latched x' pc (closing mem x ack f s) = i_latched x' pc s"
  by (simp_all add: closing_def imem_check_def imem_rsp_comb_def i_latched_def Let_def)

lemma closing_outcome:
  "i_outcome (closing mem x ack f s) = i_outcome (imem_check x f s)"
proof -
  have "i_outcome (imem_rsp_comb rsp u) = i_outcome u" and "i_outcome (u\<lparr>immu_flush := b\<rparr>) = i_outcome u" for rsp u b
    by (simp_all add: i_outcome_def imem_rsp_comb_def Let_def)
  then show ?thesis
    by (simp add: closing_def Let_def)
qed

lemma closing_fetch:
  assumes "i_mmu_mem s = \<lparr>imem_req_ack = True, imem_addr = a\<rparr>" and "\<not> i_member_page_fault s" and "i_state s = 3"
  shows "i_outcome (closing mem x ack True s) = Some (i_checked x a)"
  using assms unfolding closing_outcome by (simp add: i_outcome_def imem_check_def i_checked_def Let_def)

lemma closing_pte:
  assumes "i_mmu_mem s = \<lparr>imem_req_ack = True, imem_addr = a\<rparr>" and "\<not> i_member_page_fault s" and "i_state s \<noteq> 3"
  shows "i_outcome (closing mem x ack False s) = (if i_readable x a then None else Some Access_fault)"
  using assms unfolding closing_outcome by (simp add: i_outcome_def imem_check_def i_readable_def Let_def)

lemma closing_fault:
  assumes "i_member_page_fault s"
  shows "i_outcome (closing mem x ack f s) = Some Page_fault"
  using assms unfolding closing_outcome by (simp add: i_outcome_def imem_check_def Let_def)

lemma closing_busy:
  assumes "i_outcome (closing mem x ack f s) = None" and "i_state s \<noteq> 0"
  shows "\<not> immu_ready (closing mem x ack f s)"
  using assms
  by (auto simp: closing_def imem_rsp_comb_def i_outcome_def Let_def imem_check_def i_wire_def MEM_OUT_ctor_def
      MMU_RSP_ctor_def split: if_splits)

lemma rsp_i_answer:
  assumes "i_outcome s = Some r" and "\<not> immu_flush s" and "r \<noteq> Misaligned"
  shows "immu_to_ifetch (imem_rsp_comb rsp s) = i_answer r (immu_pc s) rsp"
  using assms by (auto simp: i_outcome_def imem_rsp_comb_def Let_def MMU_RSP_ctor_def split: if_splits)

subsection \<open>The instruction port reaches the specified outcome\<close>

definition i_busy :: "(u32 \<Rightarrow> u32) \<Rightarrow> EXEC \<Rightarrow> u32 \<Rightarrow> IMMU \<Rightarrow> TLB \<Rightarrow> bool" where
  "i_busy mem x pc s tlb \<longleftrightarrow>
     coherent mem (x_csr x CSR_SATP) tlb \<and> i_translating x \<and> i_latched x pc s \<and>
     \<not> immu_ready s \<and> \<not> immu_flush s"

definition i_at1 :: "(u32 \<Rightarrow> u32) \<Rightarrow> EXEC \<Rightarrow> u32 \<Rightarrow> IMMU \<Rightarrow> TLB \<Rightarrow> bool" where
  "i_at1 mem x pc s tlb \<longleftrightarrow>
     i_busy mem x pc s tlb \<and> i_state s = 1 \<and>
     imem_addr (i_mmu_mem s) =
       push_bit 12 (x_csr x CSR_SATP AND 0x3FFFFF) + (drop_bit 10 (drop_bit 12 pc) AND 0x3FF) * 4 \<and>
     i_readable x (imem_addr (i_mmu_mem s))"

definition i_at0 :: "(u32 \<Rightarrow> u32) \<Rightarrow> EXEC \<Rightarrow> u32 \<Rightarrow> IMMU \<Rightarrow> TLB \<Rightarrow> bool" where
  "i_at0 mem x pc s tlb \<longleftrightarrow>
     i_busy mem x pc s tlb \<and> i_state s = 2 \<and>
     sv32_walk (i_readable x) mem (x_csr x CSR_SATP) (drop_bit 12 pc) =
       (if bit (mem (imem_addr (i_mmu_mem s))) 0 then Leaf (mem (imem_addr (i_mmu_mem s))) False else Bad_pte)"

abbreviation (input) i_ends where
  "i_ends mem x pc r \<equiv> (\<lambda>(s', t'). i_outcome s' = Some r \<and> i_post mem x pc s' t')"

lemma offset_fetch: "(pc AND 0xFFF) AND - 4 = (pc AND 0xFFC :: u32)"
proof -
  have "(0xFFF :: u32) AND - 4 = 0xFFC"
    by simp
  then show ?thesis
    by (simp only: and.assoc)
qed

lemma i_latched_update: "i_latched x pc (i_no_req (s\<lparr>i_member_page_fault := b\<rparr>)) = i_latched x pc s"
  by (simp add: i_latched_def i_no_req_def)

lemma busy_waits:
  assumes "i_busy mem x pc s tlb" and "\<not> fst a" and "i_state s = 1 \<or> i_state s = 2"
  obtains s' where "i_cycle mem junk x accept fpc a s tlb = (s', tlb)" and "i_outcome s' = None"
    and "i_busy mem x pc s' tlb" and "i_state s' = i_state s"
    and "imem_addr (i_mmu_mem s') = imem_addr (i_mmu_mem s)"
proof -
  let ?u = "i_no_req (s\<lparr>i_member_page_fault := False\<rparr>)"
  let ?s = "closing mem x (snd a) False ?u"
  have c: "i_cycle mem junk x accept fpc a s tlb = (?s, tlb)"
    using assms by (simp add: cycle_closing i_busy_def imem_step_def i_wire_def MEM_OUT_ctor_def)
  have none: "i_outcome ?s = None"
    unfolding closing_outcome using assms(3) by (auto simp: i_outcome_def imem_check_def i_no_req_def Let_def)
  have "\<not> immu_ready ?s"
    by (rule closing_busy [OF none]) (use assms(3) in \<open>auto simp: i_no_req_def\<close>)
  then show thesis
    using assms(1) by (intro that [OF c none]) (simp_all add: i_busy_def i_latched_update, simp_all add: i_no_req_def)
qed

lemma i_answer_level0:
  assumes at0: "i_at0 mem x pc s tlb" and "fst a"
  shows "i_ends mem x pc (sv32_fetch (i_readable x) mem x pc) (i_cycle mem junk x accept fpc a s tlb)"
proof -
  define pte where "pte = mem (imem_addr (i_mmu_mem s))"
  have coh: "coherent mem (x_csr x CSR_SATP) tlb" and on: "i_translating x" and l: "i_latched x pc s"
    and st: "i_state s = 2" and busy: "\<not> immu_ready s" "\<not> immu_flush s"
    and walk: "sv32_walk (i_readable x) mem (x_csr x CSR_SATP) (drop_bit 12 pc) =
      (if bit pte 0 then Leaf pte False else Bad_pte)"
    using at0 unfolding i_at0_def i_busy_def pte_def by blast+
  define f where "f = (\<not> bit pte 0 \<or> \<not> i_permitted (x_priv x) pte)"
  define s2 where "s2 = s\<lparr>i_pte := pte, i_ppn := ppn_of pte, i_member_page_fault := f\<rparr>"
  have pc2: "immu_pc s2 = pc"
    using l by (simp add: i_latched_def s2_def)
  have cycle: "i_cycle mem junk x accept fpc a s tlb =
      (if f then (closing mem x (snd a) False (i_no_req s2), tlb)
       else (closing mem x (snd a) True ((i_send (fetch_addr False pte pc) s2)\<lparr>i_state := 3\<rparr>),
             tlb_store (asid_of (x_csr x CSR_SATP)) (drop_bit 12 pc) pte False tlb))"
    using l st busy assms(2)
    by (auto simp: cycle_closing imem_step_def imem_level0_def i_wire_def MEM_OUT_ctor_def Let_def
        pte_def [symmetric] and_flag_iff i_perm_fault_spec f_def s2_def fetch_addr_def i_latched_def offset_fetch)
  show ?thesis
  proof (cases f)
    case True
    then have "sv32_fetch (i_readable x) mem x pc = Page_fault"
      using walk on by (auto simp: sv32_fetch_def f_def)
    then show ?thesis
      using True coh pc2 unfolding cycle i_post_def by (simp add: closing_fault s2_def i_no_req_def)
  next
    case False
    then have w: "sv32_walk (i_readable x) mem (x_csr x CSR_SATP) (drop_bit 12 pc) = Leaf pte False"
      using walk by (simp add: f_def)
    then have "sv32_fetch (i_readable x) mem x pc = i_checked x (fetch_addr False pte pc)"
      using False on by (simp add: sv32_fetch_def f_def)
    then show ?thesis
      using False pc2 coherent_store [OF coh w vpn_small] unfolding cycle i_post_def
      by (simp add: closing_fetch s2_def i_send_def)
  qed
qed

definition i_fault1 :: "EXEC \<Rightarrow> u32 \<Rightarrow> bool" where
  "i_fault1 x pte \<longleftrightarrow> \<not> bit pte 0 \<or> pte AND 0xFF \<noteq> 1 \<and> (ppn_of pte AND 0x3FF \<noteq> 0 \<or> \<not> i_permitted (x_priv x) pte)"

lemma cycle_level1:
  assumes "i_latched x pc s" and "i_state s = 1" "\<not> immu_ready s" "\<not> immu_flush s" and "fst a" and "pte = mem (imem_addr (i_mmu_mem s))"
    and "s2 = s\<lparr>i_pte := pte, i_ppn := ppn_of pte, i_member_page_fault := i_fault1 x pte\<rparr>"
  shows "i_cycle mem junk x accept fpc a s tlb =
      (if i_fault1 x pte then (closing mem x (snd a) False (i_no_req s2), tlb)
       else if (pte AND 0xFF) AND 0xE \<noteq> 0
       then (closing mem x (snd a) True ((i_send (fetch_addr True pte pc) s2)\<lparr>i_state := 3\<rparr>),
             tlb_store (asid_of (x_csr x CSR_SATP)) (drop_bit 12 pc) pte True tlb)
       else (closing mem x (snd a) False ((i_send (leaf_addr pte (drop_bit 12 pc)) s2)\<lparr>i_state := 2\<rparr>), tlb))"
  using assms(1-5)
  by (auto simp: cycle_closing imem_step_def imem_level1_def i_wire_def MEM_OUT_ctor_def Let_def
      assms(6) [symmetric] and_flag_iff i_perm_fault_spec i_fault1_def assms(7) fetch_addr_def i_latched_def leaf_addr_def)

lemma i_answer_level1:
  assumes at1: "i_at1 mem x pc s tlb" and "fst a"
  shows "case i_cycle mem junk x accept fpc a s tlb of (s', t') \<Rightarrow>
    i_outcome s' = Some (sv32_fetch (i_readable x) mem x pc) \<and> i_post mem x pc s' t' \<or>
    i_outcome s' = None \<and> i_at0 mem x pc s' t'"
proof -
  define pte where "pte = mem (imem_addr (i_mmu_mem s))"
  define s2 where "s2 = s\<lparr>i_pte := pte, i_ppn := ppn_of pte, i_member_page_fault := i_fault1 x pte\<rparr>"
  let ?a0 = "leaf_addr pte (drop_bit 12 pc)"
  have coh: "coherent mem (x_csr x CSR_SATP) tlb" and on: "i_translating x" and l: "i_latched x pc s"
    and st: "i_state s = 1" "\<not> immu_ready s" "\<not> immu_flush s"
    using at1 unfolding i_at1_def i_busy_def by blast+
  note cycle = cycle_level1 [where mem = mem, OF l st assms(2) pte_def s2_def]
  have walk: "sv32_walk (i_readable x) mem (x_csr x CSR_SATP) (drop_bit 12 pc) =
      (if \<not> bit pte 0 then Bad_pte
       else if pte AND 0xFF \<noteq> 1 then (if ppn_of pte AND 0x3FF \<noteq> 0 then Bad_pte else Leaf pte True)
       else if \<not> i_readable x ?a0 then Denied else if \<not> bit (mem ?a0) 0 then Bad_pte else Leaf (mem ?a0) False)"
    by (rule sv32_walk_root [where a = "imem_addr (i_mmu_mem s)" and mem = mem, OF _ _ pte_def]) (use at1 in \<open>unfold i_at1_def, blast+\<close>)
  have pc2: "immu_pc s2 = pc" and l2: "i_latched x pc ((i_send b s2)\<lparr>i_state := n\<rparr>)" for b n
    using l by (simp_all add: i_latched_def s2_def i_send_def)
  consider (bad) "i_fault1 x pte" | (mega) "\<not> i_fault1 x pte" "pte AND 0xFF \<noteq> 1" | (table) "\<not> i_fault1 x pte" "pte AND 0xFF = 1"
    by blast
  then show ?thesis
  proof cases
    case bad
    then have "sv32_fetch (i_readable x) mem x pc = Page_fault"
      using walk on by (auto simp: sv32_fetch_def i_fault1_def)
    then show ?thesis
      using bad coh pc2 unfolding cycle i_post_def by (simp add: closing_fault s2_def i_no_req_def)
  next
    case mega
    then have w: "sv32_walk (i_readable x) mem (x_csr x CSR_SATP) (drop_bit 12 pc) = Leaf pte True"
      and ok: "i_permitted (x_priv x) pte"
      using walk by (simp_all add: i_fault1_def)
    then have "sv32_fetch (i_readable x) mem x pc = i_checked x (fetch_addr True pte pc)"
      using on by (simp add: sv32_fetch_def)
    moreover have "(pte AND 0xFF) AND 0xE \<noteq> 0"
      using leaf_flags [of pte 3] ok by (simp add: i_permitted_def)
    ultimately show ?thesis
      using mega pc2 coherent_store [OF coh w vpn_small] unfolding cycle i_post_def
      by (simp add: closing_fetch s2_def i_send_def)
  next
    case table
    let ?s3 = "closing mem x (snd a) False ((i_send ?a0 s2)\<lparr>i_state := 2\<rparr>)"
    have out: "i_outcome ?s3 = (if i_readable x ?a0 then None else Some Access_fault)"
      unfolding leaf_addr_def by (rule closing_pte) (use table in \<open>simp_all add: s2_def i_send_def\<close>)
    moreover have "i_cycle mem junk x accept fpc a s tlb = (?s3, tlb)"
      using cycle table by simp
    moreover have "\<not> immu_ready ?s3" if "i_readable x ?a0"
      using that out by (intro closing_busy) simp_all
    moreover have "imem_addr (i_mmu_mem ?s3) = ?a0"
      by (simp add: i_send_def)
    ultimately show ?thesis
      using walk table coh on l2 pc2 by (auto simp: i_at0_def i_busy_def i_post_def i_send_def sv32_fetch_def i_fault1_def)
  qed
qed

interpretation fetch_port: table_walker fst "i_cycle mem junk x accept fpc" i_outcome "i_at1 mem x pc" "i_at0 mem x pc"
  "i_post mem x pc" "sv32_fetch (i_readable x) mem x pc" for mem junk x accept fpc pc
proof unfold_locales
  fix a :: "bool \<times> bool" and s t
  show "case i_cycle mem junk x accept fpc a s t of (s', t') \<Rightarrow> i_outcome s' = None \<and> i_at1 mem x pc s' t'"
    if "\<not> fst a" and w: "i_at1 mem x pc s t"
  proof -
    have "i_busy mem x pc s t" and "i_state s = 1 \<or> i_state s = 2"
      using w by (simp_all add: i_at1_def)
    then obtain s' where "i_cycle mem junk x accept fpc a s t = (s', t)" and "i_outcome s' = None"
      and "i_busy mem x pc s' t" and "i_state s' = i_state s"
      and "imem_addr (i_mmu_mem s') = imem_addr (i_mmu_mem s)"
      by (rule busy_waits [OF _ \<open>\<not> fst a\<close>])
    then show ?thesis
      using w unfolding i_at1_def by (elim conjE) (simp only: prod.case simp_thms)
  qed
  show "case i_cycle mem junk x accept fpc a s t of (s', t') \<Rightarrow> i_outcome s' = None \<and> i_at0 mem x pc s' t'"
    if "\<not> fst a" and w: "i_at0 mem x pc s t"
  proof -
    have "i_busy mem x pc s t" and "i_state s = 1 \<or> i_state s = 2"
      using w by (simp_all add: i_at0_def)
    then obtain s' where "i_cycle mem junk x accept fpc a s t = (s', t)" and "i_outcome s' = None"
      and "i_busy mem x pc s' t" and "i_state s' = i_state s"
      and "imem_addr (i_mmu_mem s') = imem_addr (i_mmu_mem s)"
      by (rule busy_waits [OF _ \<open>\<not> fst a\<close>])
    then show ?thesis
      using w by (simp only: i_at0_def prod.case simp_thms)
  qed
qed (simp_all only: i_answer_level1 i_answer_level0)

text \<open>The first cycle, from a ready port.\<close>

definition i_started :: "EXEC \<Rightarrow> u32 \<Rightarrow> IMMU \<Rightarrow> IMMU" where
  "i_started x pc s =
     s\<lparr>immu_pc := pc, i_member_page_fault := False, i_satp := x_csr x CSR_SATP,
       i_root_ppn := x_csr x CSR_SATP AND 0x003FFFFF, i_root_addr := push_bit 12 (x_csr x CSR_SATP AND 0x003FFFFF),
       i_vpn1 := drop_bit 22 pc AND 0x3FF, i_vpn0 := drop_bit 12 pc AND 0x3FF, i_offset := pc AND 0xFFF\<rparr>"

lemma i_started_sel [simp]:
  "i_root_addr (i_started x pc s) = push_bit 12 (x_csr x CSR_SATP AND 0x003FFFFF)"
  "i_vpn1 (i_started x pc s) = drop_bit 22 pc AND 0x3FF" "i_offset (i_started x pc s) = pc AND 0xFFF"
  "immu_pc (i_started x pc s) = pc" "\<not> i_member_page_fault (i_started x pc s)"
  "immu_ready (i_started x pc s) = immu_ready s"
  by (simp_all add: i_started_def)

lemma i_started_latched: "i_latched x pc ((i_send b ((i_started x pc s)\<lparr>i_pte := p\<rparr>))\<lparr>i_state := n\<rparr>)"
  by (simp add: i_latched_def i_started_def i_send_def)

text \<open>The first cycle once the lookup is known to give \<open>e\<close>.\<close>

definition i_first :: "EXEC \<Rightarrow> u32 \<Rightarrow> TLBEntry \<Rightarrow> IMMU \<Rightarrow> IMMU \<times> bool" where
  "i_first x pc e s =
     (let s2 = (i_started x pc s)\<lparr>i_pte := te_pte e\<rparr>; f = \<not> i_permitted (x_priv x) (te_pte e);
          s3 = s2\<lparr>i_ppn := ppn_of (te_pte e), i_member_page_fault := f\<rparr>
      in if \<not> bit (te_pte e) 0
         then ((i_send (push_bit 12 (x_csr x CSR_SATP AND 0x3FFFFF) + (drop_bit 10 (drop_bit 12 pc) AND 0x3FF) * 4) s2)
                 \<lparr>i_state := 1\<rparr>, False)
         else if f then (i_no_req s3, False)
         else ((i_send (fetch_addr (te_is_megapage e) (te_pte e) pc) s3)\<lparr>i_state := 3\<rparr>, True))"

lemma start_eq:
  assumes "pc = (if accept then fpc else immu_pc s)"
  shows "imem_start junk (i_ports mem x accept fpc ack s) s tlb =
    (if i_translating x
     then (let (e, tlb1) = tlb_find junk (asid_of (x_csr x CSR_SATP)) (drop_bit 12 pc) tlb; (s', f) = i_first x pc e s
           in (s', tlb1, f))
     else ((i_send (pc AND NOT 3) (i_started x pc s))\<lparr>i_state := 3\<rparr>, tlb, True))"
  unfolding imem_start_def IMMU_IN.select_convs Let_def assms [symmetric] i_started_def [symmetric]
    i_translating_def [symmetric] and_flag_iff i_perm_fault_spec case_prod_beta i_first_def
  by (simp add: fetch_addr_def offset_fetch)

lemma cycle_start:
  assumes "immu_ready s" and "pc = (if accept then fpc else immu_pc s)"
  shows "i_cycle mem junk x accept fpc a s tlb =
    (if i_translating x
     then (let (e, tlb1) = tlb_find junk (asid_of (x_csr x CSR_SATP)) (drop_bit 12 pc) tlb; (s', f) = i_first x pc e s
           in (closing mem x (snd a) f s', tlb1))
     else (closing mem x (snd a) True ((i_send (pc AND NOT 3) (i_started x pc s))\<lparr>i_state := 3\<rparr>), tlb))"
  using assms(1) start_eq [OF assms(2)] by (simp add: cycle_closing imem_step_def Let_def case_prod_beta)

lemma start_direct:
  assumes "coherent mem (x_csr x CSR_SATP) tlb" and "immu_ready s" and "pc = (if accept then fpc else immu_pc s)"
    and "\<not> i_translating x"
  shows "i_ends mem x pc (sv32_fetch r mem x pc) (i_cycle mem junk x accept fpc a s tlb)"
proof -
  let ?u = "(i_send (pc AND NOT 3) (i_started x pc s))\<lparr>i_state := 3\<rparr>"
  have "i_outcome (closing mem x (snd a) True ?u) = Some (i_checked x (pc AND NOT 3))"
    by (rule closing_fetch) (simp_all add: i_send_def)
  then show ?thesis
    using assms unfolding cycle_start [OF assms(2,3)] by (simp add: sv32_fetch_def i_post_def i_send_def)
qed

lemma start_hit:
  assumes coh: "coherent mem (x_csr x CSR_SATP) tlb" and rdy: "immu_ready s"
    and pc: "pc = (if accept then fpc else immu_pc s)"
    and on: "i_translating x" and hit: "cached (x_csr x CSR_SATP) (drop_bit 12 pc) tlb"
  shows "i_ends mem x pc (sv32_fetch (\<lambda>_. True) mem x pc) (i_cycle mem junk x accept fpc a s tlb)"
proof -
  obtain e where e: "fst (tlb_find junk (asid_of (x_csr x CSR_SATP)) (drop_bit 12 pc) tlb) = e"
    and w: "sv32_walk (\<lambda>_. True) mem (x_csr x CSR_SATP) (drop_bit 12 pc) = Leaf (te_pte e) (te_is_megapage e)"
    using find_cached [OF coh hit] .
  have v: "bit (te_pte e) 0"
    using leaf_valid [OF w] .
  have spec: "sv32_fetch (\<lambda>_. True) mem x pc =
      (if i_permitted (x_priv x) (te_pte e) then i_checked x (fetch_addr (te_is_megapage e) (te_pte e) pc)
       else Page_fault)"
    using w on by (simp add: sv32_fetch_def)
  have "i_outcome (closing mem x (snd a) (snd (i_first x pc e s)) (fst (i_first x pc e s))) =
      Some (sv32_fetch (\<lambda>_. True) mem x pc)"
    and "immu_pc (fst (i_first x pc e s)) = pc"
    using v unfolding spec i_first_def Let_def
    by (auto simp: i_send_def i_no_req_def intro!: closing_fetch closing_fault)
  then show ?thesis
    using coh on unfolding cycle_start [OF rdy pc] Let_def case_prod_beta e by (simp add: i_post_def)
qed

lemma start_miss:
  assumes coh: "coherent mem (x_csr x CSR_SATP) tlb" and rdy: "immu_ready s"
    and pc: "pc = (if accept then fpc else immu_pc s)"
    and on: "i_translating x" and miss: "\<not> cached (x_csr x CSR_SATP) (drop_bit 12 pc) tlb"
    and junk: "\<not> bit (te_pte junk) 0"
  shows "case i_cycle mem junk x accept fpc a s tlb of (s', t') \<Rightarrow>
    i_outcome s' = Some (sv32_fetch (i_readable x) mem x pc) \<and> i_post mem x pc s' t' \<or>
    i_outcome s' = None \<and> i_at1 mem x pc s' t'"
proof -
  define tlb1 where "tlb1 = snd (tlb_find junk (asid_of (x_csr x CSR_SATP)) (drop_bit 12 pc) tlb)"
  have c1: "coherent mem (x_csr x CSR_SATP) tlb1"
    using coh by (simp add: tlb1_def)
  define a1 where "a1 = push_bit 12 (x_csr x CSR_SATP AND 0x3FFFFF) + (drop_bit 10 (drop_bit 12 pc) AND 0x3FF) * 4"
  define u where "u = (i_send a1 ((i_started x pc s)\<lparr>i_pte := te_pte junk\<rparr>))\<lparr>i_state := 1\<rparr>"
  have u: "i_latched x pc u" "i_state u = 1" "imem_addr (i_mmu_mem u) = a1"
    unfolding u_def by (rule i_started_latched) (simp_all add: i_send_def)
  have cycle: "i_cycle mem junk x accept fpc a s tlb = (closing mem x (snd a) False u, tlb1)"
    using on junk unfolding cycle_start [OF rdy pc] Let_def case_prod_beta find_uncached [OF miss] tlb1_def [symmetric]
    by (simp add: i_first_def TLBEntry_ctor_def u_def a1_def)
  have out: "i_outcome (closing mem x (snd a) False u) = (if i_readable x a1 then None else Some Access_fault)"
    by (rule closing_pte) (simp_all add: u_def i_send_def)
  show ?thesis
  proof (cases "i_readable x a1")
    case True
    then have "\<not> immu_ready (closing mem x (snd a) False u)"
      using out u by (intro closing_busy) simp_all
    then have "i_at1 mem x pc (closing mem x (snd a) False u) tlb1"
      using True c1 on u unfolding i_at1_def i_busy_def a1_def [symmetric] by simp
    then show ?thesis
      using cycle out True by simp
  next
    case False
    then have "sv32_fetch (i_readable x) mem x pc = Access_fault"
      using on unfolding sv32_fetch_def sv32_walk_def Let_def a1_def [symmetric] by simp
    then show ?thesis
      using out False c1 cycle u by (simp add: i_post_def i_latched_def)
  qed
qed

lemma fetch_port_done:
  assumes "coherent mem (x_csr x CSR_SATP) tlb" and "immu_ready s" and "pc = (if accept then fpc else immu_pc s)"
    and "\<not> bit (te_pte junk) 0" and "2 \<le> length (filter fst acks)"
  shows "settled i_outcome (i_post mem x pc) (sv32_fetch (i_reader x pc tlb) mem x pc)
    (i_translate mem junk x accept fpc (a # acks) s tlb)"
proof (cases "i_translating x \<and> \<not> cached (x_csr x CSR_SATP) (drop_bit 12 pc) tlb")
  case True
  then show ?thesis
    unfolding i_translate_def
    using fetch_port.run [OF start_miss [OF assms(1-3) _ _ assms(4)] assms(5)] by (simp add: i_reader_def)
next
  case False
  have "i_ends mem x pc (sv32_fetch (i_reader x pc tlb) mem x pc) (i_cycle mem junk x accept fpc a s tlb)"
    using False start_direct [OF assms(1-3)] start_hit [OF assms(1-3)] unfolding i_reader_def
    by (cases "i_translating x") (simp_all only: simp_thms if_True)
  then show ?thesis
    unfolding i_translate_def settled_Cons by auto
qed

subsection \<open>Properties of the instruction port\<close>


lemma paged_fetch:
  "sv32_fetch (i_readable paged_state) paged_mem paged_state 0x402006 =
     Physical \<lparr>imem_req_ack = True, imem_addr = 0x80002004\<rparr>"
  by (simp add: sv32_fetch_def i_translating_def SATP_ON_def sv32_walk_def i_readable_def paged_mem_def ppn_of_def
      i_permitted_def fetch_addr_def i_checked_def is_pma_valid_def pmp_icheck_def icheck_def
      pmp_applies_def pmp_range_def pmp_permits_def Let_def)


end
