(* ===== verification/Test_Bench.thy ===== *)
theory Test_Bench
  imports Exec Plic Uart Clint
begin

unbundle bit_operations_syntax

text \<open>
  The test bench of \<^verbatim>\<open>src/src/tb.hpp\<close> and the console of \<^verbatim>\<open>src/src/utils.hpp\<close>, which runs in a process of its own
  and talks to the bench through shared memory: the run control that decides at every heartbeat
  whether the processor gets a clock edge, the update of the platform at every edge, and the
  commands a user types. A line is a list of characters; bytes are words.
\<close>

subsection \<open>Shared state and run control\<close>

record SharedState =
  force_run :: bool
  timeirq :: bool
  force_stop :: bool
  breakpoint :: bool
  start_flag :: bool
  brk_pc :: u32
  new_step_cycles :: u32
  new_print_cycles :: u32
  sh_uart_buf :: "u8 list"

definition setup_shared_memory :: SharedState where
  "setup_shared_memory =
     \<lparr>force_run = False, timeirq = False, force_stop = False, breakpoint = False, start_flag = False, brk_pc = 0,
      new_step_cycles = 0, new_print_cycles = 0, sh_uart_buf = replicate 128 0\<rparr>"

text \<open>\<open>step_cycles\<close> is a signed 32-bit integer; an assignment from an unsigned value reads it as signed.\<close>

record TB_State =
  tb_run :: bool
  step_cycles :: int
  print_cycles :: u32

definition TB_State_init :: TB_State where
  "TB_State_init = \<lparr>tb_run = False, step_cycles = 0, print_cycles = 0\<rparr>"

definition tb_accept :: "SharedState \<Rightarrow> TB_State \<Rightarrow> TB_State" where
  "tb_accept sh t =
     (let t1 = (if new_step_cycles sh > 0 then t\<lparr>step_cycles := sint (new_step_cycles sh)\<rparr> else t)
      in if new_print_cycles sh > 0 then t1\<lparr>print_cycles := new_print_cycles sh\<rparr> else t1)"

definition tb_switch :: "u32 \<Rightarrow> SharedState \<Rightarrow> TB_State \<Rightarrow> TB_State" where
  "tb_switch pc sh t =
     (if \<not> tb_run t
      then (if force_run sh then t\<lparr>tb_run := True, step_cycles := - 1\<rparr>
            else if step_cycles t > 0 then t\<lparr>tb_run := True\<rparr> else t)
      else (if force_stop sh then t\<lparr>tb_run := False, step_cycles := 0\<rparr>
            else if breakpoint sh \<and> brk_pc sh = pc then t\<lparr>tb_run := False\<rparr>
            else if step_cycles t = 0 then t\<lparr>tb_run := False\<rparr> else t))"

definition tb_count :: "TB_State \<Rightarrow> TB_State" where
  "tb_count t =
     (let t1 = (if print_cycles t > 0 then t\<lparr>print_cycles := print_cycles t - of_bool (tb_run t)\<rparr> else t)
      in if step_cycles t1 > 0 then t1\<lparr>step_cycles := step_cycles t1 - of_bool (tb_run t1)\<rparr> else t1)"

definition next_cycle :: "u32 \<Rightarrow> SharedState \<Rightarrow> TB_State \<Rightarrow> bool \<times> SharedState \<times> TB_State" where
  "next_cycle pc sh t =
     (let t' = tb_count (tb_switch pc sh (tb_accept sh t));
          sh' = sh\<lparr>new_step_cycles := 0, new_print_cycles := 0, force_run := False, force_stop := False\<rparr>
      in (tb_run t', sh', t'))"

text \<open>\<^verbatim>\<open>clock\<close> runs at both edges of the heartbeat; it asks the run control only at the rising one. It
  returns the level of the clock of the processor.\<close>

definition tb_clock :: "bool \<Rightarrow> u32 \<Rightarrow> SharedState \<Rightarrow> TB_State \<Rightarrow> bool \<times> SharedState \<times> TB_State" where
  "tb_clock heartbeat pc sh t = (if heartbeat then next_cycle pc sh t else (False, sh, t))"

subsection \<open>The platform\<close>

definition strlen :: "u8 list \<Rightarrow> nat" where
  "strlen buf = length (takeWhile (\<lambda>b. b \<noteq> 0) buf)"

text \<open>The buffer is the last member of a block of zeroed pages, so \<^verbatim>\<open>strlen\<close> of a full buffer is 128.\<close>

record platform =
  p_shared :: SharedState
  p_clint :: CLINT_DEV
  p_uart :: UART_DEV
  p_plic :: PLIC_DEV

definition plat_update :: "csr_file \<Rightarrow> platform \<Rightarrow> platform" where
  "plat_update csr p =
     (let sh = p_shared p; cl = p_clint p;
          (sh1, cl1) = (if timeirq sh then (sh\<lparr>timeirq := False\<rparr>, cl\<lparr>mtime := stimecmp csr\<rparr>)
                        else (sh, cl\<lparr>mtime := mtime cl + 1\<rparr>));
          buf = sh_uart_buf sh1; len = strlen buf;
          (sh2, u) = (if len \<noteq> 0
                      then (sh1\<lparr>sh_uart_buf := replicate len 0 @ drop len buf\<rparr>, keyboard_input (take len buf) (p_uart p))
                      else (sh1, p_uart p));
          (pl, u') = plic_update (p_plic p) u
      in \<lparr>p_shared = sh2, p_clint = cl1, p_uart = u', p_plic = pl\<rparr>)"

definition archtest_clock :: "CLINT_DEV \<Rightarrow> CLINT_DEV" where
  "archtest_clock cl = cl\<lparr>mtime := mtime cl + 1\<rparr>"

subsection \<open>The console\<close>

fun split_commands :: "string \<Rightarrow> string \<Rightarrow> string list" where
  "split_commands tmp [] = (if tmp = [] then [] else [tmp])"
| "split_commands tmp (c # cs) =
     (if c = CHR '' '' \<or> c = CHR 0x0A then tmp # split_commands [] cs else split_commands (tmp @ [c]) cs)"

text \<open>\<^verbatim>\<open>std::stoull\<close> in base ten: leading white space, a sign, and the longest run of digits. It throws, here
  \<open>None\<close>, when there is no digit or the value does not fit; a minus sign negates modulo \<open>2\<^sup>64\<close>.\<close>

definition is_space :: "char \<Rightarrow> bool" where
  "is_space c \<longleftrightarrow> (let n = (of_char c :: nat) in n = 32 \<or> 9 \<le> n \<and> n \<le> 13)"

definition is_digit :: "char \<Rightarrow> bool" where
  "is_digit c \<longleftrightarrow> (let n = (of_char c :: nat) in 48 \<le> n \<and> n \<le> 57)"

definition digits_val :: "string \<Rightarrow> nat" where
  "digits_val ds = foldl (\<lambda>v c. 10 * v + (of_char c - 48)) 0 ds"

definition stoull :: "string \<Rightarrow> u64 option" where
  "stoull s =
     (let s1 = dropWhile is_space s;
          neg = (s1 \<noteq> [] \<and> hd s1 = CHR ''-'');
          s2 = (if s1 \<noteq> [] \<and> (hd s1 = CHR ''-'' \<or> hd s1 = CHR ''+'') then tl s1 else s1);
          ds = takeWhile is_digit s2; v = digits_val ds
      in if ds = [] \<or> v \<ge> 2 ^ 64 then None
         else Some (if neg then - of_nat v else of_nat v))"

definition console_command :: "string list \<Rightarrow> SharedState \<Rightarrow> SharedState" where
  "console_command commands sh =
     (case commands of
        [] \<Rightarrow> sh
      | c0 # rest \<Rightarrow>
          (let arg2 = (case rest of [] \<Rightarrow> 0 | c1 # _ \<Rightarrow> (case stoull c1 of None \<Rightarrow> 0 | Some v \<Rightarrow> v))
           in if c0 = ''b'' \<and> arg2 > 0 then sh\<lparr>breakpoint := True, brk_pc := ucast arg2\<rparr>
              else if c0 = ''d'' then sh\<lparr>breakpoint := False\<rparr>
              else if c0 = ''c'' then sh\<lparr>force_run := True\<rparr>
              else if c0 = ''p'' \<and> arg2 > 0 then sh\<lparr>new_print_cycles := ucast arg2\<rparr>
              else if c0 = ''stop'' then sh\<lparr>force_stop := True\<rparr>
              else if c0 = ''step'' \<and> arg2 > 0 then sh\<lparr>new_step_cycles := ucast arg2\<rparr>
              else if c0 = ''r'' then sh\<lparr>force_run := True, start_flag := True\<rparr>
              else if c0 = ''timeirq'' then sh\<lparr>timeirq := True\<rparr>
              else sh))"

definition char_byte :: "char \<Rightarrow> u8" where
  "char_byte c = of_nat (of_char c)"

definition console_text :: "string \<Rightarrow> SharedState \<Rightarrow> SharedState" where
  "console_text s sh =
     (let bytes = map char_byte (take 128 s); buf = bytes @ drop (length bytes) (sh_uart_buf sh);
          at = (if length s \<ge> 128 then 127 else length s)
      in sh\<lparr>sh_uart_buf := buf[at := 10]\<rparr>)"

text \<open>One turn of the loop of \<^verbatim>\<open>run_ui_console\<close>, for the line just read.\<close>

definition run_ui_console :: "string \<Rightarrow> SharedState \<Rightarrow> SharedState" where
  "run_ui_console s sh =
     (if s = [] then sh
      else if hd s = CHR '':'' then console_command (split_commands [] (tl s)) sh
      else if sh_uart_buf sh ! 0 = 0 then console_text s sh
      else sh)"

subsection \<open>Decimal numbers\<close>

fun dec :: "nat \<Rightarrow> string" where
  "dec n = (if n < 10 then [char_of (48 + n)] else dec (n div 10) @ [char_of (48 + n mod 10)])"

declare dec.simps [simp del]

lemma of_char_digit: "n < 10 \<Longrightarrow> (of_char (char_of (48 + n) :: char) :: nat) = 48 + n"
  by (simp add: take_bit_eq_mod)

lemma is_digit_dec: "c \<in> set (dec n) \<Longrightarrow> is_digit c"
  by (induction n rule: dec.induct) (subst (asm) (2) dec.simps, auto simp: is_digit_def of_char_digit split: if_splits)

lemma dec_not_Nil [simp]: "dec n \<noteq> []"
  by (subst dec.simps) simp

lemma digits_val_dec: "digits_val (dec n) = n"
proof (induction n rule: dec.induct)
  case (1 n)
  show ?case
  proof (cases "n < 10")
    case True
    then show ?thesis
      by (subst dec.simps) (simp add: digits_val_def of_char_digit)
  next
    case False
    then have "digits_val (dec n) = 10 * digits_val (dec (n div 10)) + n mod 10"
      by (subst dec.simps) (simp add: digits_val_def of_char_digit)
    then show ?thesis
      using 1 [OF False] by simp
  qed
qed

lemma not_digit: "\<not> is_digit (CHR '' '')" "\<not> is_digit (CHR 0x0A)" "\<not> is_digit (CHR ''-'')" "\<not> is_digit (CHR ''+'')"
  "is_digit c \<Longrightarrow> \<not> is_space c"
  by (auto simp: is_digit_def is_space_def Let_def)

lemma stoull_dec:
  assumes "n < 2 ^ 64"
  shows "stoull (dec n) = Some (of_nat n)"
proof -
  have h: "is_digit (hd (dec n))"
    using is_digit_dec [of "hd (dec n)" n] by simp
  have "dropWhile is_space (dec n) = dec n"
    using h not_digit(5) by (cases "dec n") auto
  moreover have "hd (dec n) \<noteq> CHR ''-''" "hd (dec n) \<noteq> CHR ''+''"
    using h not_digit by metis+
  moreover have ds: "takeWhile is_digit (dec n) = dec n"
    by (simp add: is_digit_dec)
  ultimately show ?thesis
    using assms unfolding stoull_def Let_def by (simp add: ds digits_val_dec del: takeWhile_eq_all_conv)
qed

lemma split_commands_word:
  assumes "\<forall>c \<in> set w. c \<noteq> CHR '' '' \<and> c \<noteq> CHR 0x0A"
  shows "split_commands tmp (w @ rest) = split_commands (tmp @ w) rest"
  using assms by (induction w arbitrary: tmp) auto

lemma split_dec: "split_commands [] (''step '' @ dec n) = [''step'', dec n]"
proof -
  have "\<forall>c \<in> set (dec n). c \<noteq> CHR '' '' \<and> c \<noteq> CHR 0x0A"
    using is_digit_dec not_digit by metis
  then have "split_commands [] (dec n) = [dec n]"
    using split_commands_word [of "dec n" "[]" "[]"] by simp
  then show ?thesis
    by simp
qed

subsection \<open>Properties\<close>

text \<open>The levels the run control gives the clock of the processor at successive heartbeats.\<close>

fun heartbeats :: "u32 list \<Rightarrow> SharedState \<Rightarrow> TB_State \<Rightarrow> bool list" where
  "heartbeats [] sh t = []"
| "heartbeats (pc # pcs) sh t =
     (let (level, sh', t') = tb_clock True pc sh t in level # heartbeats pcs sh' t')"

definition quiet :: "SharedState \<Rightarrow> bool" where
  "quiet sh \<longleftrightarrow> \<not> force_run sh \<and> \<not> force_stop sh \<and> \<not> breakpoint sh \<and> new_step_cycles sh = 0"

lemma next_cycle_quiet:
  assumes "quiet sh" and "step_cycles t = int k"
  obtains sh' t' where "tb_clock True pc sh t = (k > 0, sh', t')" and "quiet sh'" and "step_cycles t' = int (k - 1)"
proof -
  have a: "tb_run (tb_accept sh t) = tb_run t" "step_cycles (tb_accept sh t) = int k"
    using assms by (simp_all add: tb_accept_def quiet_def)
  have "tb_run (tb_switch pc sh (tb_accept sh t)) = (k > 0)" and "step_cycles (tb_switch pc sh (tb_accept sh t)) = int k"
    using assms(1) a by (simp_all add: tb_switch_def quiet_def)
  then have "tb_run (tb_count (tb_switch pc sh (tb_accept sh t))) = (k > 0)"
    and "step_cycles (tb_count (tb_switch pc sh (tb_accept sh t))) = int (k - 1)"
    by (auto simp: tb_count_def Let_def)
  then show thesis
    using assms(1)
    by (intro that [of "sh\<lparr>new_step_cycles := 0, new_print_cycles := 0, force_run := False, force_stop := False\<rparr>"
          "tb_count (tb_switch pc sh (tb_accept sh t))"])
      (simp_all add: tb_clock_def next_cycle_def Let_def quiet_def)
qed

lemma heartbeats_quiet:
  "quiet sh \<Longrightarrow> step_cycles t = int k \<Longrightarrow> heartbeats pcs sh t = map (\<lambda>i. i < k) [0..<length pcs]"
proof (induction pcs arbitrary: sh t k)
  case (Cons pc pcs)
  obtain sh' t' where n: "tb_clock True pc sh t = (k > 0, sh', t')" "quiet sh'" "step_cycles t' = int (k - 1)"
    using next_cycle_quiet [OF Cons.prems] .
  have "heartbeats (pc # pcs) sh t = (k > 0) # map (\<lambda>i. i < k - 1) [0..<length pcs]"
    using n Cons.IH [OF n(2,3)] by simp
  also have "\<dots> = map (\<lambda>i. i < k) (0 # map Suc [0..<length pcs])"
    by auto
  finally show ?case
    by (simp add: upt_conv_Cons map_Suc_upt del: upt_Suc)
qed simp

lemma step_command:
  assumes "quiet sh" and "0 < n" and "n < 2 ^ 31"
  shows "run_ui_console ('':step '' @ dec n) sh = sh\<lparr>new_step_cycles := of_nat n\<rparr>"
proof -
  have "stoull (dec n) = Some (of_nat n)"
    using assms(3) by (intro stoull_dec) simp
  moreover have "(of_nat n :: u64) > 0"
    using assms(2,3) by (simp add: word_less_nat_alt unat_of_nat)
  moreover have "ucast (of_nat n :: u64) = (of_nat n :: u32)"
    using assms(3) by (simp add: unsigned_of_nat take_bit_nat_eq_self)
  ultimately show ?thesis
    using split_dec [of n] by (simp add: run_ui_console_def console_command_def Let_def)
qed

text \<open>
  C39. Stepping runs exactly as many cycles as the user asked for, and then the processor stands still.
  When the command \<^verbatim>\<open>:step n\<close> is typed, in decimal, with no other command pending and no breakpoint
  set, the run control lets exactly the next \<open>n\<close> heartbeats through to the clock of the processor
  and none after them, whatever addresses the program executes and whether it was stopped, stepping
  or running before.
\<close>

theorem step_runs_exactly:
  assumes "quiet sh" and "0 < n" and "n < 2 ^ 31"
  shows "heartbeats pcs (run_ui_console ('':step '' @ dec n) sh) t = map (\<lambda>i. i < n) [0..<length pcs]"
proof (cases pcs)
  case (Cons pc rest)
  have pos: "(of_nat n :: u32) > 0" and val: "sint (of_nat n :: u32) = int n"
    using assms(2,3) by (simp_all add: word_less_nat_alt unat_of_nat signed_of_nat signed_take_bit_int_eq_self)
  have eq: "heartbeats pcs (sh\<lparr>new_step_cycles := of_nat n\<rparr>) t = heartbeats pcs sh (t\<lparr>step_cycles := int n\<rparr>)"
    using pos val assms(1)
    by (simp add: Cons tb_clock_def next_cycle_def tb_accept_def tb_switch_def quiet_def Let_def)
  show ?thesis
    unfolding step_command [OF assms] eq by (rule heartbeats_quiet [OF assms(1)]) simp
qed simp

theorem step_runs_exactly_witness:
  "quiet setup_shared_memory \<and> (0 :: nat) < 2 \<and> (2 :: nat) < 2 ^ 31 \<and>
   heartbeats [0x80000000, 0x80000004, 0x80000004, 0x80000008] (run_ui_console '':step 2'' setup_shared_memory) TB_State_init =
     [True, True, False, False]"
proof -
  have q: "quiet setup_shared_memory"
    by (simp add: quiet_def setup_shared_memory_def)
  have "dec 2 = ''2''"
    by code_simp
  then show ?thesis
    using q step_runs_exactly [OF q, of 2 "[0x80000000, 0x80000004, 0x80000004, 0x80000008]" TB_State_init]
    by (simp add: upt_rec)
qed

lemma uart_irq_keeps:
  "uart_ok (snd (uart_irq u)) = uart_ok u" "uart_contents (snd (uart_irq u)) = uart_contents u"
  "uart_dlab (snd (uart_irq u)) = uart_dlab u"
  by (simp_all add: uart_irq_def uart_ok_def uart_contents_def uart_dlab_def Let_def)

lemma plic_update_uart: "snd (plic_update p u) = snd (uart_irq u)"
  by (simp add: plic_update_def Let_def split_beta)

lemma char_byte_0: "char_byte c = 0 \<longleftrightarrow> c = CHR 0x00"
proof -
  have "(of_char c :: nat) < 256"
    by simp
  then have "char_byte c = 0 \<longleftrightarrow> (of_char c :: nat) = 0"
    by (simp add: char_byte_def word_unat_eq_iff unat_of_nat)
  then show ?thesis
    using of_char_eq_iff [of c "CHR 0x00", where ?'a = nat] by simp
qed

text \<open>The shared buffer after a short line, and what one platform update makes of it.\<close>

lemma console_text_buffer:
  assumes "sh_uart_buf sh = replicate 128 0" and "length s < 128"
  shows "sh_uart_buf (console_text s sh) = map char_byte s @ 10 # replicate (127 - length s) 0"
proof -
  have "replicate (128 - length s) (0 :: u8) = 0 # replicate (127 - length s) 0"
    using assms(2) by (simp flip: replicate_Suc add: Suc_diff_le)
  then show ?thesis
    using assms by (simp add: console_text_def Let_def list_update_append)
qed

lemma plat_update_line:
  assumes "sh_uart_buf (p_shared p) = map char_byte s @ 10 # replicate (127 - length s) 0"
    and "CHR 0x00 \<notin> set s" and "length s < 128"
  shows "sh_uart_buf (p_shared (plat_update csr p)) = replicate 128 0"
    and "p_uart (plat_update csr p) = snd (uart_irq (keyboard_input (map char_byte s @ [10]) (p_uart p)))"
proof -
  let ?l = "map char_byte s @ [10]" and ?z = "replicate (127 - length s) (0 :: u8)"
  have buf: "sh_uart_buf (p_shared p) = ?l @ ?z"
    using assms(1) by simp
  have "\<forall>b \<in> set ?l. b \<noteq> 0"
    using assms(2) by (auto simp: char_byte_0)
  then have "takeWhile (\<lambda>b. b \<noteq> 0) (?l @ ?z) = ?l"
    by (cases "127 - length s") (simp_all add: takeWhile_append)
  then have len: "strlen (sh_uart_buf (p_shared p)) = length s + 1"
    by (simp add: strlen_def buf)
  then have take: "take (length s + 1) (sh_uart_buf (p_shared p)) = ?l"
    and drop: "drop (length s + 1) (sh_uart_buf (p_shared p)) = ?z"
    by (simp_all add: buf)
  show "p_uart (plat_update csr p) = snd (uart_irq (keyboard_input ?l (p_uart p)))"
    using take len by (simp add: plat_update_def Let_def plic_update_uart split_beta)
  have "replicate (length s + 1) 0 @ ?z = replicate 128 0"
    using assms(3) by (simp flip: replicate_add replicate_Suc)
  then show "sh_uart_buf (p_shared (plat_update csr p)) = replicate 128 0"
    using drop len by (simp add: plat_update_def Let_def split_beta)
qed

text \<open>
  C40. A line typed at the console is what the guest reads. A line of fewer than 127 characters that is
  not a command goes through the shared buffer and, at the next update of the platform, into the
  UART; there the guest's loads of the receive register return its bytes in order, followed by a
  newline. The shared buffer is empty again, ready for the next line.
\<close>

theorem typed_line_read_back:
  assumes "sh_uart_buf (p_shared p) = replicate 128 0" and "uart_ok (p_uart p)" and "\<not> uart_dlab (p_uart p)"
    and "uart_contents (p_uart p) = []"
    and "s \<noteq> []" and "hd s \<noteq> CHR '':''" and "CHR 0x00 \<notin> set s" and "length s < 127"
  shows "let p' = plat_update csr (p\<lparr>p_shared := run_ui_console s (p_shared p)\<rparr>)
         in fst (uart_reads (length s + 1) (p_uart p')) = map char_byte s @ [10] \<and>
            sh_uart_buf (p_shared p') = replicate 128 0"
proof -
  let ?p = "p\<lparr>p_shared := run_ui_console s (p_shared p)\<rparr>" and ?l = "map char_byte s @ [10]"
  have "run_ui_console s (p_shared p) = console_text s (p_shared p)"
    using assms by (simp add: run_ui_console_def)
  then have buf: "sh_uart_buf (p_shared ?p) = map char_byte s @ 10 # replicate (127 - length s) 0"
    using console_text_buffer [OF assms(1)] assms(8) by simp
  have u: "p_uart (plat_update csr ?p) = snd (uart_irq (keyboard_input ?l (p_uart p)))"
    and z: "sh_uart_buf (p_shared (plat_update csr ?p)) = replicate 128 0"
    using plat_update_line [OF buf assms(7)] assms(8) by simp_all
  let ?u = "p_uart (plat_update csr ?p)"
  have ok: "uart_ok ?u" and c: "uart_contents ?u = ?l" and d: "\<not> uart_dlab ?u"
    using keyboard_input_queue [OF assms(2), of ?l] assms(3,4,8) unfolding u uart_irq_keeps
    by (simp_all add: uart_dlab_keyboard)
  have "uart_reads (length s + 1) ?u = uart_q.drain (length s + 1) ?u"
    by (rule uart_reads_drain [OF ok d]) (simp add: c)
  then show ?thesis
    using uart_q.drain_contents [OF ok, of "length s + 1"] c z by (simp add: Let_def)
qed

theorem typed_line_read_back_witness:
  "let p = \<lparr>p_shared = setup_shared_memory, p_clint = CLINT_DEV_ctor, p_uart = UART_DEV_ctor (replicate 128 0),
            p_plic = PLIC_DEV_ctor\<rparr>;
       p' = plat_update (\<lambda>_. 0) (p\<lparr>p_shared := run_ui_console ''ls'' (p_shared p)\<rparr>)
   in uart_ok (p_uart p) \<and> \<not> uart_dlab (p_uart p) \<and> uart_contents (p_uart p) = [] \<and>
      fst (uart_reads 3 (p_uart p')) = [0x6C, 0x73, 0x0A]"
proof -
  define p where "p = \<lparr>p_shared = setup_shared_memory, p_clint = CLINT_DEV_ctor,
    p_uart = UART_DEV_ctor (replicate 128 0), p_plic = PLIC_DEV_ctor\<rparr>"
  have h: "sh_uart_buf (p_shared p) = replicate 128 0" "uart_ok (p_uart p)" "\<not> uart_dlab (p_uart p)"
    "uart_contents (p_uart p) = []" "''ls'' \<noteq> []" "hd ''ls'' \<noteq> CHR '':''" "CHR 0x00 \<notin> set ''ls''" "length ''ls'' < 127"
    by (simp_all add: p_def setup_shared_memory_def uart_ok_ctor uart_contents_ctor) (simp add: uart_dlab_def UART_DEV_ctor_def)
  have b: "map char_byte ''ls'' @ [10] = [0x6C, 0x73, 0x0A]"
    by (simp add: char_byte_def)
  have n: "length ''ls'' + 1 = 3"
    by simp
  show ?thesis
    unfolding Let_def p_def [symmetric]
    using h(2-4) typed_line_read_back [OF h, of "\<lambda>_. 0", unfolded Let_def b n] by (simp only: simp_thms)
qed

end
