(* ===== verification/Loader.thy ===== *)
theory Loader
  imports Ram
begin

unbundle bit_operations_syntax

text \<open>
  What puts a program into the memory before the processor starts and takes the results out
  afterwards: the ELF loader of \<^verbatim>\<open>src/src/elf_loader32.hpp\<close>, \<^verbatim>\<open>load_to_ram\<close> of \<^verbatim>\<open>src/src/utils.hpp\<close>, and from
  \<^verbatim>\<open>src/src/main.cpp\<close> the placing of the segments and the signature of the architecture tests. Files are
  lists of bytes. The loader does not check everything it relies on; an access outside the file or
  outside a buffer is the error \<open>Undefined\<close>.
\<close>

subsection \<open>ELF files\<close>

record SegmentInfo =
  seg_vaddr :: u32
  seg_memsz :: u32
  seg_flags :: u32
  seg_mem :: "u8 list"

record LoadedELF =
  elf_entry :: u32
  elf_segments :: "SegmentInfo list"

datatype elf_error = Too_small | Not_elf | Not_elf32 | Not_little_endian | No_program_headers
  | Segment_out_of_range | Undefined

text \<open>Fields of the two headers, at their offsets; \<open>None\<close> is a read outside the file.\<close>

definition half_at :: "u8 list \<Rightarrow> nat \<Rightarrow> u16 option" where
  "half_at f i = (if i + 2 \<le> length f then Some (ucast (f ! i) OR push_bit 8 (ucast (f ! (i + 1)))) else None)"

definition word_at :: "u8 list \<Rightarrow> nat \<Rightarrow> u32 option" where
  "word_at f i =
     (if i + 4 \<le> length f
      then Some (ucast (f ! i) OR push_bit 8 (ucast (f ! (i + 1))) OR push_bit 16 (ucast (f ! (i + 2)))
                 OR push_bit 24 (ucast (f ! (i + 3))))
      else None)"

record Elf32_Phdr =
  p_type :: u32
  p_offset :: u32
  p_vaddr :: u32
  p_filesz :: u32
  p_memsz :: u32
  p_flags :: u32

definition phdr_at :: "u8 list \<Rightarrow> nat \<Rightarrow> Elf32_Phdr option" where
  "phdr_at f i =
     do { ty \<leftarrow> word_at f i;
          off \<leftarrow> word_at f (i + 4);
          va \<leftarrow> word_at f (i + 8);
          fsz \<leftarrow> word_at f (i + 16);
          msz \<leftarrow> word_at f (i + 20);
          fl \<leftarrow> word_at f (i + 24);
          Some \<lparr>p_type = ty, p_offset = off, p_vaddr = va, p_filesz = fsz, p_memsz = msz, p_flags = fl\<rparr> }"

text \<open>The body of the loop for a header to be loaded. The range test adds two 32-bit numbers, so it
  can wrap; the copy then reads outside the file, and it writes outside the segment when the file
  part is larger than the memory part.\<close>

definition load_segment :: "u8 list \<Rightarrow> Elf32_Phdr \<Rightarrow> elf_error + SegmentInfo" where
  "load_segment f ph =
     (if unat (p_offset ph + p_filesz ph) > length f then Inl Segment_out_of_range
      else if unat (p_offset ph) + unat (p_filesz ph) > length f \<or> p_filesz ph > p_memsz ph then Inl Undefined
      else Inr \<lparr>seg_vaddr = p_vaddr ph, seg_memsz = p_memsz ph, seg_flags = p_flags ph,
                seg_mem = take (unat (p_filesz ph)) (drop (unat (p_offset ph)) f) @
                          replicate (unat (p_memsz ph) - unat (p_filesz ph)) 0\<rparr>)"

abbreviation (input) PT_LOAD :: u32 where "PT_LOAD \<equiv> 1"

fun load_segments :: "u8 list \<Rightarrow> nat \<Rightarrow> nat \<Rightarrow> elf_error + SegmentInfo list" where
  "load_segments f at 0 = Inr []"
| "load_segments f at (Suc n) =
     (case phdr_at f at of
        None \<Rightarrow> Inl Undefined
      | Some ph \<Rightarrow>
          (if p_type ph \<noteq> PT_LOAD then load_segments f (at + 32) n
           else (case load_segment f ph of
                   Inl e \<Rightarrow> Inl e
                 | Inr info \<Rightarrow>
                     (case load_segments f (at + 32) n of Inl e \<Rightarrow> Inl e | Inr rest \<Rightarrow> Inr (info # rest)))))"

definition load_elf32 :: "u8 list \<Rightarrow> elf_error + LoadedELF" where
  "load_elf32 f =
     (if length f < 52 then Inl Too_small
      else if take 4 f \<noteq> [0x7F, 0x45, 0x4C, 0x46] then Inl Not_elf
      else if f ! 4 \<noteq> 1 then Inl Not_elf32
      else if f ! 5 \<noteq> 1 then Inl Not_little_endian
      else (case (word_at f 24, word_at f 28, half_at f 44) of
              (Some e_entry, Some e_phoff, Some e_phnum) \<Rightarrow>
                (if e_phoff = 0 \<or> e_phnum = 0 then Inl No_program_headers
                 else (case load_segments f (unat e_phoff) (unat e_phnum) of
                         Inl e \<Rightarrow> Inl e
                       | Inr segs \<Rightarrow> Inr \<lparr>elf_entry = e_entry, elf_segments = segs\<rparr>))
            | _ \<Rightarrow> Inl Undefined))"

subsection \<open>Filling the memory\<close>

text \<open>The copy loop, written out in \<^verbatim>\<open>load_to_ram\<close> and again for the segments of an ELF file: it keeps the
  current segment of the memory and changes it when the address leaves it.\<close>

fun copy_loop :: "u32 \<Rightarrow> u32 \<Rightarrow> u8 list \<Rightarrow> RAM \<Rightarrow> RAM option" where
  "copy_loop base addr [] r = Some r"
| "copy_loop base addr (b # bs) r =
     (let base_tmp = find_seg (ram_SIZE r) addr;
          r1 = (if base \<noteq> base_tmp then build_seg base_tmp r else r)
      in do { mem \<leftarrow> seg_table r1 base_tmp;
              mem' \<leftarrow> vset mem (unat (addr - base_tmp)) b;
              copy_loop base_tmp (addr + 1) bs (r1\<lparr>seg_table := (seg_table r1)(base_tmp \<mapsto> mem')\<rparr>) })"

definition place :: "u32 \<Rightarrow> u8 list \<Rightarrow> RAM \<Rightarrow> RAM option" where
  "place addr bs r = (let base = find_seg (ram_SIZE r) addr in copy_loop base addr bs (build_seg base r))"

text \<open>A file that cannot be opened is reported and leaves the memory as it is.\<close>

definition load_to_ram :: "u8 list option \<Rightarrow> u32 \<Rightarrow> RAM \<Rightarrow> RAM option" where
  "load_to_ram file offset r = (case file of None \<Rightarrow> Some r | Some buf \<Rightarrow> place offset buf r)"

definition place_segment :: "SegmentInfo \<Rightarrow> RAM \<Rightarrow> RAM option" where
  "place_segment seg r =
     (if length (seg_mem seg) < unat (seg_memsz seg) then None
      else place (seg_vaddr seg) (take (unat (seg_memsz seg)) (seg_mem seg)) r)"

fun place_segments :: "SegmentInfo list \<Rightarrow> RAM \<Rightarrow> RAM option" where
  "place_segments [] r = Some r"
| "place_segments (seg # segs) r = do { r1 \<leftarrow> place_segment seg r; place_segments segs r1 }"

text \<open>\<^verbatim>\<open>init\<close> of the two modes: the memory with its images, and for an architecture test the entry point
  and the address of the test device, which is that of the second segment.\<close>

definition linux_init :: "u8 list option \<Rightarrow> u8 list option \<Rightarrow> u8 list option \<Rightarrow> RAM \<Rightarrow> RAM option" where
  "linux_init sbi dtb linux r =
     do { r1 \<leftarrow> load_to_ram sbi 0x80000000 r;
          r2 \<leftarrow> load_to_ram dtb 0x80100000 r1;
          load_to_ram linux 0x80400000 r2 }"

definition archtest_init :: "u8 list \<Rightarrow> RAM \<Rightarrow> elf_error + (u32 \<times> u32 \<times> RAM)" where
  "archtest_init file r =
     (case load_elf32 file of
        Inl e \<Rightarrow> Inl e
      | Inr elf \<Rightarrow>
          (if length (elf_segments elf) < 2 then Inl Undefined
           else (case place_segments (elf_segments elf) r of
                   None \<Rightarrow> Inl Undefined
                 | Some r' \<Rightarrow> Inr (elf_entry elf, seg_vaddr (elf_segments elf ! 1), r'))))"

subsection \<open>The signature\<close>

definition dump_word :: "u32 \<Rightarrow> RAM \<Rightarrow> u32 option" where
  "dump_word addr r =
     (let base = find_seg (ram_SIZE r) addr
      in do { mem \<leftarrow> seg_table r base;
              (data, _) \<leftarrow> load_loop (fetch_byte mem base) addr 4 0 ();
              Some data })"

text \<open>The loop does not end when \<open>sig_end\<close> lies within four bytes of the end of the address space.\<close>

partial_function (option) dump_signature :: "u32 \<Rightarrow> u32 \<Rightarrow> RAM \<Rightarrow> u32 list option" where
  [code]: "dump_signature addr sig_end r =
     (if addr < sig_end
      then do { w \<leftarrow> dump_word addr r;
                ws \<leftarrow> dump_signature (addr + 4) sig_end r;
                Some (w # ws) }
      else Some [])"

subsection \<open>Filling the memory writes the image and nothing else\<close>

definition with_image :: "u32 \<Rightarrow> u8 list \<Rightarrow> (u32 \<Rightarrow> u8) \<Rightarrow> u32 \<Rightarrow> u8" where
  "with_image addr bs m x = (if unat (x - addr) < length bs then bs ! unat (x - addr) else m x)"

lemma poke_ok:
  fixes x :: u8
  assumes "ram_ok r" and "b = find_seg (ram_SIZE r) a" and "seg_table r b = Some m"
  defines "r' \<equiv> r\<lparr>seg_table := (seg_table r)(b \<mapsto> m[unat (a - b) := x])\<rparr>"
  shows "ram_ok r'" and "ram_byte r' = (ram_byte r)(a := x)" and "unat (a - b) < length m"
proof -
  obtain v where v: "reservation r b = Some v"
    using assms(1,3) unfolding ram_ok_def by (metis domD domI)
  have eq: "r' = r\<lparr>seg_table := (seg_table r)(b \<mapsto> m[unat (a - b) := x]),
      reservation := (reservation r)(b \<mapsto> v[unat (a - b) := v ! unat (a - b)])\<rparr>"
    using v by (simp add: r'_def map_upd_triv)
  show "ram_ok r'" and "ram_byte r' = (ram_byte r)(a := x)"
    unfolding eq using ram_slot_update [OF assms(1-3) v, where x = x and y = "v ! unat (a - b)"] by blast+
  show "unat (a - b) < length m"
    using ram_ok_offset [OF assms(1), of a] assms by (simp add: ram_ok_def)
qed

lemma with_image_Cons:
  assumes "length bs < 2 ^ 32"
  shows "with_image (addr + 1) bs (m(addr := b)) = with_image addr (b # bs) m"
proof
  fix x
  show "with_image (addr + 1) bs (m(addr := b)) x = with_image addr (b # bs) m x"
  proof (cases "x = addr")
    case True
    then show ?thesis
      using assms offset_last by (simp add: with_image_def)
  next
    case False
    then show ?thesis
      using offset_Suc [OF False] by (simp add: with_image_def)
  qed
qed

lemma copy_loop_ok:
  assumes "ram_ok r" and "base \<in> dom (seg_table r)" and "length bs \<le> 2 ^ 32"
  shows "\<exists>r'. copy_loop base addr bs r = Some r' \<and> ram_ok r' \<and> ram_SIZE r' = ram_SIZE r \<and>
    ram_byte r' = with_image addr bs (ram_byte r) \<and> dom (seg_table r) \<subseteq> dom (seg_table r') \<and>
    (\<forall>i < length bs. find_seg (ram_SIZE r) (addr + of_nat i) \<in> dom (seg_table r'))"
  using assms
proof (induction bs arbitrary: base addr r)
  case Nil
  then show ?case
    by (simp add: with_image_def fun_eq_iff)
next
  case (Cons b bs)
  define t where "t = find_seg (ram_SIZE r) addr"
  define r1 where "r1 = (if base \<noteq> t then build_seg t r else r)"
  have ok1: "ram_ok r1" "ram_byte r1 = ram_byte r" "ram_SIZE r1 = ram_SIZE r" "t \<in> dom (seg_table r1)"
    "dom (seg_table r) \<subseteq> dom (seg_table r1)"
    using Cons.prems(1,2) build_seg_abs [OF Cons.prems(1), of t] by (auto simp: r1_def build_seg_def)
  obtain m where m: "seg_table r1 t = Some m"
    using ok1(4) by blast
  define r2 where "r2 = r1\<lparr>seg_table := (seg_table r1)(t \<mapsto> m[unat (addr - t) := b])\<rparr>"
  have t1: "t = find_seg (ram_SIZE r1) addr"
    by (simp add: t_def ok1)
  note p = poke_ok(1,2) [OF ok1(1) t1 m, where x = b, folded r2_def] poke_ok(3) [OF ok1(1) t1 m]
  have d2: "dom (seg_table r2) = dom (seg_table r1)" "ram_SIZE r2 = ram_SIZE r"
    using m ok1(3) by (auto simp: r2_def)
  obtain r' where r': "copy_loop t (addr + 1) bs r2 = Some r'" "ram_ok r'" "ram_SIZE r' = ram_SIZE r"
    "ram_byte r' = with_image (addr + 1) bs (ram_byte r2)" "dom (seg_table r2) \<subseteq> dom (seg_table r')"
    "\<forall>i < length bs. find_seg (ram_SIZE r) (addr + 1 + of_nat i) \<in> dom (seg_table r')"
    using Cons.IH [OF p(1), of t "addr + 1"] Cons.prems(3) ok1(4) d2 by auto
  have "copy_loop base addr (b # bs) r = copy_loop t (addr + 1) bs r2"
    using m p(3) by (simp add: Let_def t_def [symmetric] r1_def [symmetric] r2_def)
  moreover have "ram_byte r' = with_image addr (b # bs) (ram_byte r)"
    using r'(4) p(2) ok1(2) with_image_Cons [of bs addr] Cons.prems(3) by simp
  moreover have "find_seg (ram_SIZE r) (addr + of_nat i) \<in> dom (seg_table r')" if "i < length (b # bs)" for i
    using that r'(5,6) ok1(4) d2(1) by (cases i) (auto simp: t_def [symmetric] algebra_simps)
  ultimately show ?case
    using r' d2 ok1(5) by auto
qed

lemma place_ok:
  assumes "ram_ok r" and "length bs \<le> 2 ^ 32"
  shows "\<exists>r'. place addr bs r = Some r' \<and> ram_ok r' \<and> ram_SIZE r' = ram_SIZE r \<and>
    ram_byte r' = with_image addr bs (ram_byte r) \<and>
    (\<forall>i < length bs. find_seg (ram_SIZE r) (addr + of_nat i) \<in> dom (seg_table r'))"
  using copy_loop_ok [OF build_seg_abs(1) [OF assms(1)] build_seg_abs(4) [OF assms(1)] assms(2),
      of "find_seg (ram_SIZE r) addr" addr] build_seg_abs(2) [OF assms(1)]
  by (auto simp: place_def Let_def)

subsection \<open>Reading the memory back\<close>

fun words_of :: "u8 list \<Rightarrow> u32 list" where
  "words_of (a # b # c # d # bs) =
     (ucast a OR push_bit 8 (ucast b) OR push_bit 16 (ucast c) OR push_bit 24 (ucast d)) # words_of bs"
| "words_of _ = []"

lemma dump_word_fetch:
  assumes "seg_table r (find_seg (ram_SIZE r) a) \<noteq> None"
  shows "dump_word a r = map_option fst (ram_fetch a r)"
proof -
  have "seg_table (iselect a r) = seg_table r" and "iseg_base (iselect a r) = find_seg (ram_SIZE r) a"
    using assms by (auto simp: iselect_def build_seg_def Let_def)
  then show ?thesis
    by (simp add: dump_word_def ram_fetch_def Let_def map_option_case split: Option.bind_split prod.split)
qed

lemma dump_word_ok:
  assumes "ram_ok r" and "4 \<le> ram_SIZE r" and "a AND 3 = 0" and "find_seg (ram_SIZE r) a \<in> dom (seg_table r)"
  shows "dump_word a r = Some (le_word (ram_byte r) a 4)"
proof -
  obtain r' where "ram_fetch a r = Some (le_word (ram_byte r) a 4, r')"
    using ram_fetch_ok [OF assms(1) aligned_fetch_room [OF assms(1-3)]] by blast
  then show ?thesis
    using dump_word_fetch [of r a] assms(4) by (simp add: domIff)
qed

lemma aligned_next:
  fixes a :: u32
  assumes "a AND 3 = 0"
  shows "(a + 4) AND 3 = 0"
proof -
  have low: "w AND 3 = take_bit 2 w" for w :: u32
    by (simp add: take_bit_eq_mask mask_eq_exp_minus_1)
  have "a = push_bit 2 (drop_bit 2 a)"
    using assms bits_ident [of 2 a] by (simp only: low add_0_right)
  then have "a + 4 = push_bit 2 (drop_bit 2 a + 1)"
    by (simp add: push_bit_eq_mult algebra_simps)
  then show ?thesis
    by (simp only: low) (simp add: take_bit_push_bit)
qed

lemma dump_signature_ok:
  assumes "ram_ok r" and "4 \<le> ram_SIZE r" and "a AND 3 = 0" and "length bs = 4 * k" and "unat a + 4 * k < 2 ^ 32"
    and "\<forall>i < length bs. ram_byte r (a + of_nat i) = bs ! i \<and> find_seg (ram_SIZE r) (a + of_nat i) \<in> dom (seg_table r)"
  shows "dump_signature a (a + of_nat (4 * k)) r = Some (words_of bs)"
  using assms(3-)
proof (induction k arbitrary: a bs)
  case 0
  then show ?case
    by (subst dump_signature.simps) simp
next
  case (Suc k)
  obtain b0 b1 b2 b3 rest where bs: "bs = b0 # b1 # b2 # b3 # rest"
    using Suc.prems(2) by (cases bs rule: words_of.cases) auto
  have un: "unat (a + of_nat (4 * Suc k)) = unat a + 4 * Suc k" and un4: "unat (a + 4) = unat a + 4"
    using Suc.prems(3) by (simp_all add: unat_word_ariths unat_of_nat take_bit_nat_eq_self)
  then have lt: "a < a + of_nat (4 * Suc k)"
    by (simp add: word_less_nat_alt)
  have al: "(a + 4) AND 3 = 0"
    using Suc.prems(1) by (rule aligned_next)
  have byte: "ram_byte r a = b0" "ram_byte r (a + 1) = b1" "ram_byte r (a + 2) = b2" "ram_byte r (a + 3) = b3"
    using Suc.prems(4) [rule_format, of 0] Suc.prems(4) [rule_format, of 1] Suc.prems(4) [rule_format, of 2]
      Suc.prems(4) [rule_format, of 3] by (simp_all add: bs)
  have "dump_word a r = Some (le_word (ram_byte r) a 4)"
    using dump_word_ok [OF assms(1,2) Suc.prems(1)] Suc.prems(4) [rule_format, of 0] by (simp add: bs)
  moreover have "le_word (ram_byte r) a 4 = hd (words_of bs)"
    by (simp add: bs byte numeral_eq_Suc or.assoc)
  moreover have "dump_signature (a + 4) (a + 4 + of_nat (4 * k)) r = Some (words_of rest)"
  proof (rule Suc.IH [OF al])
    show "\<forall>i < length rest. ram_byte r (a + 4 + of_nat i) = rest ! i \<and>
        find_seg (ram_SIZE r) (a + 4 + of_nat i) \<in> dom (seg_table r)"
    proof (intro allI impI)
      fix i assume "i < length rest"
      then show "ram_byte r (a + 4 + of_nat i) = rest ! i \<and>
          find_seg (ram_SIZE r) (a + 4 + of_nat i) \<in> dom (seg_table r)"
        using Suc.prems(4) [rule_format, of "i + 4"] by (simp add: bs numeral_eq_Suc algebra_simps)
    qed
  qed (use Suc.prems(2,3) un4 in \<open>simp_all add: bs\<close>)
  ultimately show ?case
    using lt by (subst dump_signature.simps) (simp add: bs algebra_simps)
qed

subsection \<open>Properties\<close>

lemma with_image_at:
  assumes "i < length bs" and "length bs \<le> 2 ^ 32"
  shows "with_image a bs m (a + of_nat i) = bs ! i"
proof -
  have "unat (of_nat i :: u32) = i"
    using assms by (simp add: unat_of_nat take_bit_nat_eq_self)
  then show ?thesis
    using assms(1) by (simp add: with_image_def)
qed

text \<open>
  C36. What is loaded is what is dumped. Loading a file of whole words at an aligned address always
  succeeds, creates the segments it needs, puts exactly its bytes at exactly its addresses and
  leaves every other byte of the memory alone; and the signature of that address range is the file,
  read as little-endian words. The loop that dumps it ends.
\<close>

theorem loaded_image_signature:
  assumes "ram_ok r" and "4 \<le> ram_SIZE r" and "off AND 3 = 0" and "length bs = 4 * k" and "unat off + 4 * k < 2 ^ 32"
  shows "\<exists>r'. load_to_ram (Some bs) off r = Some r' \<and> ram_ok r' \<and>
    (\<forall>x. ram_byte r' x = (if unat (x - off) < length bs then bs ! unat (x - off) else ram_byte r x)) \<and>
    dump_signature off (off + of_nat (4 * k)) r' = Some (words_of bs)"
proof -
  have len: "length bs \<le> 2 ^ 32"
    using assms(4,5) by simp
  obtain r' where r': "place off bs r = Some r'" "ram_ok r'" "ram_SIZE r' = ram_SIZE r"
    "ram_byte r' = with_image off bs (ram_byte r)"
    "\<forall>i < length bs. find_seg (ram_SIZE r) (off + of_nat i) \<in> dom (seg_table r')"
    using place_ok [OF assms(1) len] by blast
  have "dump_signature off (off + of_nat (4 * k)) r' = Some (words_of bs)"
    using assms(2-5) r' with_image_at [OF _ len] by (intro dump_signature_ok) simp_all
  then show ?thesis
    using r' by (auto simp: load_to_ram_def with_image_def)
qed

theorem loaded_image_signature_witness:
  "let r = RAM_ctor (2 ^ 22); bs = [1, 2, 3, 4, 5, 6, 7, 8]
   in ram_ok r \<and> 4 \<le> ram_SIZE r \<and> (0x803FFFFC :: u32) AND 3 = 0 \<and> length bs = 4 * 2 \<and>
      map_option (dump_signature 0x803FFFFC (0x803FFFFC + of_nat (4 * 2))) (load_to_ram (Some bs) 0x803FFFFC r) =
        Some (Some [0x04030201, 0x08070605])"
proof -
  define r where "r = RAM_ctor (2 ^ 22)"
  define bs :: "u8 list" where "bs = [1, 2, 3, 4, 5, 6, 7, 8]"
  have h: "ram_ok r" "4 \<le> ram_SIZE r" "(0x803FFFFC :: u32) AND 3 = 0" "length bs = 4 * 2"
    "unat (0x803FFFFC :: u32) + 4 * 2 < 2 ^ 32"
    using ram_ok_ctor [of 22] by (simp_all add: r_def bs_def RAM_ctor_def)
  have w: "words_of bs = [0x04030201, 0x08070605]"
    by (simp add: bs_def)
  show ?thesis
    unfolding Let_def r_def [symmetric] bs_def [symmetric]
    using h(1-4) loaded_image_signature [OF h] unfolding w by auto
qed

subsubsection \<open>Well-formed files\<close>

definition elf_phoff :: "u8 list \<Rightarrow> nat" where
  "elf_phoff f = (case word_at f 28 of None \<Rightarrow> 0 | Some w \<Rightarrow> unat w)"

definition elf_phnum :: "u8 list \<Rightarrow> nat" where
  "elf_phnum f = (case half_at f 44 of None \<Rightarrow> 0 | Some w \<Rightarrow> unat w)"

text \<open>The loadable headers of a file, in order.\<close>

definition elf_loads :: "u8 list \<Rightarrow> Elf32_Phdr list" where
  "elf_loads f =
     filter (\<lambda>ph. p_type ph = PT_LOAD)
       (List.map_filter (\<lambda>i. phdr_at f (elf_phoff f + 32 * i)) [0..<elf_phnum f])"

definition segment_fits :: "u8 list \<Rightarrow> Elf32_Phdr \<Rightarrow> bool" where
  "segment_fits f ph \<longleftrightarrow>
     unat (p_offset ph) + unat (p_filesz ph) \<le> length f \<and> unat (p_offset ph) + unat (p_filesz ph) < 2 ^ 32 \<and>
     p_filesz ph \<le> p_memsz ph"

definition elf_wf :: "u8 list \<Rightarrow> bool" where
  "elf_wf f \<longleftrightarrow>
     52 \<le> length f \<and> take 6 f = [0x7F, 0x45, 0x4C, 0x46, 1, 1] \<and> 0 < elf_phoff f \<and> 0 < elf_phnum f \<and>
     elf_phoff f + 32 * elf_phnum f \<le> length f \<and> list_all (segment_fits f) (elf_loads f)"

text \<open>The bytes of a segment: the part in the file, then zeros up to its size in memory.\<close>

definition segment_bytes :: "u8 list \<Rightarrow> Elf32_Phdr \<Rightarrow> u8 list" where
  "segment_bytes f ph =
     take (unat (p_filesz ph)) (drop (unat (p_offset ph)) f) @ replicate (unat (p_memsz ph) - unat (p_filesz ph)) 0"

definition segment_of :: "u8 list \<Rightarrow> Elf32_Phdr \<Rightarrow> SegmentInfo" where
  "segment_of f ph =
     \<lparr>seg_vaddr = p_vaddr ph, seg_memsz = p_memsz ph, seg_flags = p_flags ph, seg_mem = segment_bytes f ph\<rparr>"

lemma load_segment_fits:
  assumes "segment_fits f ph"
  shows "load_segment f ph = Inr (segment_of f ph)"
proof -
  have "unat (p_offset ph + p_filesz ph) = unat (p_offset ph) + unat (p_filesz ph)"
    using assms by (simp add: segment_fits_def unat_word_ariths)
  then show ?thesis
    using assms by (simp add: segment_fits_def load_segment_def segment_of_def segment_bytes_def not_less)
qed

lemma phdr_at_Some:
  assumes "i + 32 \<le> length f"
  obtains ph where "phdr_at f i = Some ph"
  using assms by (simp add: phdr_at_def word_at_def)

lemma load_segments_wf:
  assumes "a + 32 * n \<le> length f"
    and "list_all (segment_fits f) (filter (\<lambda>ph. p_type ph = PT_LOAD)
      (List.map_filter (\<lambda>i. phdr_at f (a + 32 * i)) [0..<n]))"
  shows "load_segments f a n = Inr (map (segment_of f) (filter (\<lambda>ph. p_type ph = PT_LOAD)
      (List.map_filter (\<lambda>i. phdr_at f (a + 32 * i)) [0..<n])))"
  using assms
proof (induction n arbitrary: a)
  case (Suc n)
  obtain ph where ph: "phdr_at f a = Some ph"
    using phdr_at_Some [of a f] Suc.prems(1) by auto
  have "[0..<Suc n] = 0 # map Suc [0..<n]"
    by (simp add: upt_conv_Cons map_Suc_upt del: upt_Suc)
  then have split: "List.map_filter (\<lambda>i. phdr_at f (a + 32 * i)) [0..<Suc n] =
      ph # List.map_filter (\<lambda>i. phdr_at f (a + 32 + 32 * i)) [0..<n]"
    using ph by (simp add: List.map_filter_def filter_map comp_def algebra_simps)
  show ?case
    using Suc.IH [of "a + 32"] Suc.prems unfolding split
    by (simp add: ph load_segment_fits split: if_splits)
qed (simp add: map_filter_simps)

lemma load_elf32_wf:
  assumes "elf_wf f"
  shows "\<exists>e. word_at f 24 = Some e \<and>
    load_elf32 f = Inr \<lparr>elf_entry = e, elf_segments = map (segment_of f) (elf_loads f)\<rparr>"
proof -
  have six: "take 6 f = [0x7F, 0x45, 0x4C, 0x46, 1, 1]" and len: "52 \<le> length f"
    using assms by (simp_all add: elf_wf_def)
  have "take 4 (take 6 f) = [0x7F, 0x45, 0x4C, 0x46]" and "take 6 f ! 4 = 1" and "take 6 f ! 5 = 1"
    unfolding six by simp_all
  then have id: "take 4 f = [0x7F, 0x45, 0x4C, 0x46]" "f ! 4 = 1" "f ! 5 = 1"
    by simp_all
  obtain e where e: "word_at f 24 = Some e"
    using len by (simp add: word_at_def)
  obtain po n where on: "word_at f 28 = Some po" "half_at f 44 = Some n"
    using len by (simp add: word_at_def half_at_def)
  then have "elf_phoff f = unat po" "elf_phnum f = unat n"
    by (simp_all add: elf_phoff_def elf_phnum_def)
  then have "po \<noteq> 0" "n \<noteq> 0" "load_segments f (unat po) (unat n) = Inr (map (segment_of f) (elf_loads f))"
    using assms load_segments_wf [of "unat po" "unat n" f] by (auto simp: elf_wf_def elf_loads_def)
  then show ?thesis
    using len id e on by (simp add: load_elf32_def)
qed

lemma place_segments_wf:
  assumes "ram_ok r" and "list_all (segment_fits f) phs"
  shows "\<exists>r'. place_segments (map (segment_of f) phs) r = Some r' \<and> ram_ok r' \<and> ram_SIZE r' = ram_SIZE r \<and>
    ram_byte r' = fold (\<lambda>ph. with_image (p_vaddr ph) (segment_bytes f ph)) phs (ram_byte r)"
  using assms
proof (induction phs arbitrary: r)
  case (Cons ph phs)
  have "unat (p_filesz ph) \<le> unat (p_memsz ph)"
    using Cons.prems(2) by (simp add: segment_fits_def word_le_nat_alt)
  then have len: "length (segment_bytes f ph) = unat (p_memsz ph)"
    using Cons.prems(2) by (auto simp: segment_bytes_def segment_fits_def min_def)
  moreover have "unat (p_memsz ph) \<le> 2 ^ 32"
    using unsigned_less [of "p_memsz ph", where 'a = nat] by simp
  ultimately obtain r1 where "place (p_vaddr ph) (segment_bytes f ph) r = Some r1" "ram_ok r1" "ram_SIZE r1 = ram_SIZE r"
    "ram_byte r1 = with_image (p_vaddr ph) (segment_bytes f ph) (ram_byte r)"
    using place_ok [OF Cons.prems(1)] by metis
  then show ?case
    using Cons.IH [of r1] Cons.prems(2) len by (auto simp: place_segment_def segment_of_def)
qed simp

text \<open>
  A well-formed test program is in place when the processor starts. For every ELF file whose
  headers and segments lie within it and whose segments are no smaller in memory than in the file,
  with at least two loadable segments, the architecture-test mode starts: the processor begins at
  the entry point of the file, the test device sits at the second segment, and the memory holds
  every loadable segment at its address, its file part followed by zeros, later segments over
  earlier ones, and is otherwise as it was.
\<close>

theorem archtest_program_in_place:
  assumes "elf_wf file" and "2 \<le> length (elf_loads file)" and "ram_ok r"
  shows "\<exists>entry r'. word_at file 24 = Some entry \<and>
    archtest_init file r = Inr (entry, p_vaddr (elf_loads file ! 1), r') \<and> ram_ok r' \<and>
    ram_byte r' = fold (\<lambda>ph. with_image (p_vaddr ph) (segment_bytes file ph)) (elf_loads file) (ram_byte r)"
proof -
  obtain e where e: "word_at file 24 = Some e"
    "load_elf32 file = Inr \<lparr>elf_entry = e, elf_segments = map (segment_of file) (elf_loads file)\<rparr>"
    using load_elf32_wf [OF assms(1)] by blast
  have "list_all (segment_fits file) (elf_loads file)"
    using assms(1) by (simp add: elf_wf_def)
  then obtain r' where "place_segments (map (segment_of file) (elf_loads file)) r = Some r'" "ram_ok r'"
    "ram_byte r' = fold (\<lambda>ph. with_image (p_vaddr ph) (segment_bytes file ph)) (elf_loads file) (ram_byte r)"
    using place_segments_wf [OF assms(3)] by blast
  then show ?thesis
    using e assms(2) by (auto simp: archtest_init_def segment_of_def)
qed

text \<open>A file with two segments: one jump instruction with four bytes of zeros after it, and one word
  that is not in the file.\<close>

definition small_elf :: "u8 list" where
  "small_elf =
     [127, 69, 76, 70, 1, 1, 0, 0, 0, 0, 0, 0, 0, 0, 0, 0, 2, 0, 243, 0, 1, 0, 0, 0, 0, 0, 0, 128, 52, 0, 0, 0, 0, 0, 0, 0, 0, 0, 0, 0, 52, 0, 32, 0, 2, 0, 0, 0, 0, 0, 0, 0] @
     [1, 0, 0, 0, 116, 0, 0, 0, 0, 0, 0, 128, 0, 0, 0, 0, 4, 0, 0, 0, 8, 0, 0, 0, 5, 0, 0, 0, 0, 0, 0, 0] @
     [1, 0, 0, 0, 120, 0, 0, 0, 0, 16, 0, 128, 0, 0, 0, 0, 0, 0, 0, 0, 4, 0, 0, 0, 6, 0, 0, 0, 0, 0, 0, 0] @
     [111, 0, 0, 0]"

lemma small_elf_headers:
  "length small_elf = 120" "take 6 small_elf = [0x7F, 0x45, 0x4C, 0x46, 1, 1]"
  "word_at small_elf 24 = Some 0x80000000" "word_at small_elf 28 = Some 52" "half_at small_elf 44 = Some 2"
  "phdr_at small_elf 52 = Some \<lparr>p_type = 1, p_offset = 116, p_vaddr = 0x80000000, p_filesz = 4, p_memsz = 8, p_flags = 5\<rparr>"
  "phdr_at small_elf 84 = Some \<lparr>p_type = 1, p_offset = 120, p_vaddr = 0x80001000, p_filesz = 0, p_memsz = 4, p_flags = 6\<rparr>"
  by (simp_all add: small_elf_def phdr_at_def word_at_def half_at_def)

lemma small_elf_eq:
  "elf_loads small_elf =
     [\<lparr>p_type = 1, p_offset = 116, p_vaddr = 0x80000000, p_filesz = 4, p_memsz = 8, p_flags = 5\<rparr>,
      \<lparr>p_type = 1, p_offset = 120, p_vaddr = 0x80001000, p_filesz = 0, p_memsz = 4, p_flags = 6\<rparr>]"
  by (simp add: elf_loads_def elf_phoff_def elf_phnum_def small_elf_headers upt_rec List.map_filter_def)

lemma small_elf_wf: "elf_wf small_elf"
  by (simp add: elf_wf_def small_elf_eq segment_fits_def elf_phoff_def elf_phnum_def small_elf_headers)

theorem archtest_program_in_place_witness:
  "elf_wf small_elf \<and> 2 \<le> length (elf_loads small_elf) \<and> ram_ok (RAM_ctor (2 ^ 22)) \<and>
   (\<exists>r'. archtest_init small_elf (RAM_ctor (2 ^ 22)) = Inr (0x80000000, 0x80001000, r') \<and> ram_byte r' 0x80000000 = 0x6F)"
proof -
  have h: "elf_wf small_elf" "2 \<le> length (elf_loads small_elf)" "ram_ok (RAM_ctor (2 ^ 22))"
    using small_elf_wf ram_ok_ctor [of 22] by (simp_all add: small_elf_eq)
  obtain entry r' where r': "word_at small_elf 24 = Some entry"
    "archtest_init small_elf (RAM_ctor (2 ^ 22)) = Inr (entry, p_vaddr (elf_loads small_elf ! 1), r')"
    "ram_byte r' = fold (\<lambda>ph. with_image (p_vaddr ph) (segment_bytes small_elf ph)) (elf_loads small_elf)
      (ram_byte (RAM_ctor (2 ^ 22)))"
    using archtest_program_in_place [OF h] by blast
  have "drop 116 small_elf = [0x6F, 0, 0, 0]"
    by (simp add: small_elf_def)
  then have "ram_byte r' 0x80000000 = 0x6F"
    unfolding r'(3) by (simp add: small_elf_eq with_image_def segment_bytes_def)
  then show ?thesis
    using h r'(1,2) by (simp add: small_elf_headers small_elf_eq)
qed

end
