(* ===== verification/Options.thy ===== *)
theory Options
  imports Loader Test_Bench Memory
begin

unbundle bit_operations_syntax

text \<open>
  The command line of \<^verbatim>\<open>src/src/utils.hpp\<close> and \<^verbatim>\<open>sc_main\<close> of \<^verbatim>\<open>src/src/main.cpp\<close>: from the options to the memory and
  the entry address the simulation starts with. What \<^verbatim>\<open>getopt_long\<close> makes of the command line is a
  parameter, the list of option characters with their arguments; so are the contents of the files,
  \<open>None\<close> for a file that cannot be opened.
\<close>

subsection \<open>Numbers\<close>

text \<open>The exceptions of \<^verbatim>\<open>std::stoi\<close> and \<^verbatim>\<open>std::stoul\<close>, those of the loader, and reads outside a vector.\<close>

datatype main_error = Invalid_argument | Out_of_range | No_file | Bad_elf elf_error | No_memory

definition signed_text :: "string \<Rightarrow> bool \<times> string" where
  "signed_text s =
     (let s1 = dropWhile is_space s
      in case s1 of
           [] \<Rightarrow> (False, [])
         | c # cs \<Rightarrow> if c = CHR ''-'' then (True, cs) else if c = CHR ''+'' then (False, cs) else (False, s1))"

text \<open>\<^verbatim>\<open>std::stoi\<close> in base ten, with a 32-bit \<^verbatim>\<open>int\<close>.\<close>

definition stoi :: "string \<Rightarrow> main_error + int" where
  "stoi s =
     (let (neg, s1) = signed_text s; ds = takeWhile is_digit s1; n = int (digits_val ds); v = (if neg then - n else n)
      in if ds = [] then Inl Invalid_argument
         else if - (2 ^ 31) \<le> v \<and> v < 2 ^ 31 then Inr v else Inl Out_of_range)"

definition xdigit_val :: "char \<Rightarrow> nat option" where
  "xdigit_val c =
     (let n = (of_char c :: nat)
      in if 48 \<le> n \<and> n \<le> 57 then Some (n - 48)
         else if 65 \<le> n \<and> n \<le> 70 then Some (n - 55)
         else if 97 \<le> n \<and> n \<le> 102 then Some (n - 87)
         else None)"

definition is_xdigit :: "char \<Rightarrow> bool" where
  "is_xdigit c \<longleftrightarrow> xdigit_val c \<noteq> None"

definition xdigits_val :: "string \<Rightarrow> nat" where
  "xdigits_val ds = foldl (\<lambda>v c. 16 * v + (case xdigit_val c of Some d \<Rightarrow> d | None \<Rightarrow> 0)) 0 ds"

text \<open>\<^verbatim>\<open>std::stoul\<close> in base sixteen, with a 64-bit \<^verbatim>\<open>unsigned long\<close>: the prefix \<^verbatim>\<open>0x\<close> is skipped if a digit follows it.\<close>

definition skip_prefix :: "string \<Rightarrow> string" where
  "skip_prefix s =
     (case s of
        z # x # d # cs \<Rightarrow> if z = CHR ''0'' \<and> (x = CHR ''x'' \<or> x = CHR ''X'') \<and> is_xdigit d then d # cs else s
      | _ \<Rightarrow> s)"

definition stoul16 :: "string \<Rightarrow> main_error + u64" where
  "stoul16 s =
     (let (neg, s1) = signed_text s; ds = takeWhile is_xdigit (skip_prefix s1); n = xdigits_val ds
      in if ds = [] then Inl Invalid_argument
         else if n \<ge> 2 ^ 64 then Inl Out_of_range
         else Inr (if neg then - of_nat n else of_nat n))"

subsection \<open>The options\<close>

record Config =
  cfg_mode :: string
  cfg_elf_path :: string
  cfg_linux_path :: string
  cfg_dtb_path :: string
  cfg_sbi_path :: string
  cfg_sig_path :: string
  cfg_max_time :: int
  cfg_sig_start :: u32
  cfg_sig_end :: u32

definition Config_init :: Config where
  "Config_init =
     \<lparr>cfg_mode = ''linux'', cfg_elf_path = [], cfg_linux_path = [], cfg_dtb_path = [], cfg_sbi_path = [], cfg_sig_path = [],
      cfg_max_time = 0, cfg_sig_start = 0, cfg_sig_end = 0\<rparr>"

text \<open>One turn of the option loop.\<close>

definition set_option :: "char \<times> string \<Rightarrow> Config \<Rightarrow> main_error + Config" where
  "set_option a cfg =
     (let (opt, optarg) = a
      in if opt = CHR ''m'' then Inr (cfg\<lparr>cfg_mode := optarg\<rparr>)
         else if opt = CHR ''l'' then Inr (cfg\<lparr>cfg_linux_path := optarg\<rparr>)
         else if opt = CHR ''d'' then Inr (cfg\<lparr>cfg_dtb_path := optarg\<rparr>)
         else if opt = CHR ''s'' then Inr (cfg\<lparr>cfg_sbi_path := optarg\<rparr>)
         else if opt = CHR ''e'' then Inr (cfg\<lparr>cfg_elf_path := optarg\<rparr>)
         else if opt = CHR ''g'' then Inr (cfg\<lparr>cfg_sig_path := optarg\<rparr>)
         else if opt = CHR ''t'' then map_sum id (\<lambda>v. cfg\<lparr>cfg_max_time := v\<rparr>) (stoi optarg)
         else if opt = CHR ''b'' then map_sum id (\<lambda>v. cfg\<lparr>cfg_sig_start := ucast v\<rparr>) (stoul16 optarg)
         else if opt = CHR ''f'' then map_sum id (\<lambda>v. cfg\<lparr>cfg_sig_end := ucast v\<rparr>) (stoul16 optarg)
         else Inr cfg)"

fun option_loop :: "(char \<times> string) list \<Rightarrow> Config \<Rightarrow> main_error + Config" where
  "option_loop [] cfg = Inr cfg"
| "option_loop (a # as) cfg = (case set_option a cfg of Inl e \<Rightarrow> Inl e | Inr cfg' \<Rightarrow> option_loop as cfg')"

definition parse_args :: "(char \<times> string) list \<Rightarrow> main_error + Config" where
  "parse_args as = option_loop as Config_init"

subsection \<open>The two modes\<close>

text \<open>What a mode hands to the simulation: the bench, the entry address, the memory with its images, and the
  time limit in nanoseconds, if there is one.\<close>

record runner =
  run_linux :: bool
  run_entry :: u32
  run_memory :: MEMORY
  run_limit :: "int option"

definition time_limit :: "Config \<Rightarrow> int option" where
  "time_limit cfg = (if cfg_max_time cfg \<le> 0 then None else Some (cfg_max_time cfg))"

definition LinuxMode :: "u8 list \<Rightarrow> (string \<Rightarrow> u8 list option) \<Rightarrow> Config \<Rightarrow> main_error + runner" where
  "LinuxMode uart files cfg =
     (let m = Testbench_memory uart
      in case linux_init (files (cfg_sbi_path cfg)) (files (cfg_dtb_path cfg)) (files (cfg_linux_path cfg)) (mem_ram m) of
           None \<Rightarrow> Inl No_memory
         | Some r \<Rightarrow> Inr \<lparr>run_linux = True, run_entry = 0x80000000, run_memory = m\<lparr>mem_ram := r\<rparr>, run_limit = time_limit cfg\<rparr>)"

definition ArchTestMode :: "u8 list \<Rightarrow> (string \<Rightarrow> u8 list option) \<Rightarrow> Config \<Rightarrow> main_error + runner" where
  "ArchTestMode uart files cfg =
     (case files (cfg_elf_path cfg) of
        None \<Rightarrow> Inl No_file
      | Some file \<Rightarrow>
          (case archtest_init file (RAM_ctor (2 ^ 22)) of
             Inl e \<Rightarrow> Inl (Bad_elf e)
           | Inr (entry, tohost, r) \<Rightarrow>
               Inr \<lparr>run_linux = False, run_entry = entry, run_memory = (Testbench_RVARCHTEST_memory uart tohost)\<lparr>mem_ram := r\<rparr>,
                    run_limit = time_limit cfg\<rparr>))"

text \<open>After the simulation the architecture-test mode writes the signature, if a file is named and it can be
  opened for writing.\<close>

definition ArchTest_signature :: "Config \<Rightarrow> bool \<Rightarrow> RAM \<Rightarrow> u32 list option" where
  "ArchTest_signature cfg writable r =
     (if cfg_sig_path cfg = [] \<or> \<not> writable then Some [] else dump_signature (cfg_sig_start cfg) (cfg_sig_end cfg) r)"

text \<open>\<^verbatim>\<open>sc_main\<close>: the simulation to start, if any; in Linux mode the child of the fork runs the console instead.
  Every exception makes the exit code 1.\<close>

definition sc_main :: "(char \<times> string) list \<Rightarrow> bool \<Rightarrow> u8 list \<Rightarrow> (string \<Rightarrow> u8 list option) \<Rightarrow> main_error + runner option" where
  "sc_main args child uart files =
     (case parse_args args of
        Inl e \<Rightarrow> Inl e
      | Inr cfg \<Rightarrow>
          (if cfg_mode cfg = ''linux'' then (if child then Inr None else map_sum id Some (LinuxMode uart files cfg))
           else if cfg_mode cfg = ''arch-test'' \<or> cfg_mode cfg = ''riscv-tests'' then map_sum id Some (ArchTestMode uart files cfg)
           else Inr None))"

definition exit_code :: "main_error + 'a \<Rightarrow> int option" where
  "exit_code r =
     (case r of
        Inl e \<Rightarrow> if e = No_memory \<or> e = Bad_elf Undefined then None else Some 1
      | Inr _ \<Rightarrow> Some 0)"

subsection \<open>The last occurrence of an option counts\<close>

text \<open>The configuration as a function of the text given for each option.\<close>

definition option_defaults :: "char \<Rightarrow> string" where
  "option_defaults c = (if c = CHR ''m'' then ''linux'' else if c \<in> {CHR ''t'', CHR ''b'', CHR ''f''} then ''0'' else [])"

definition config_of :: "(char \<Rightarrow> string) \<Rightarrow> Config" where
  "config_of D =
     \<lparr>cfg_mode = D (CHR ''m''), cfg_elf_path = D (CHR ''e''), cfg_linux_path = D (CHR ''l''), cfg_dtb_path = D (CHR ''d''),
      cfg_sbi_path = D (CHR ''s''), cfg_sig_path = D (CHR ''g''), cfg_max_time = projr (stoi (D (CHR ''t''))),
      cfg_sig_start = ucast (projr (stoul16 (D (CHR ''b'')))), cfg_sig_end = ucast (projr (stoul16 (D (CHR ''f''))))\<rparr>"

definition option_fault :: "char \<times> string \<Rightarrow> main_error option" where
  "option_fault a =
     (case a of (c, x) \<Rightarrow>
        if c = CHR ''t'' then (case stoi x of Inl e \<Rightarrow> Some e | Inr _ \<Rightarrow> None)
        else if c = CHR ''b'' \<or> c = CHR ''f'' then (case stoul16 x of Inl e \<Rightarrow> Some e | Inr _ \<Rightarrow> None)
        else None)"

definition last_args :: "(char \<times> string) list \<Rightarrow> (char \<Rightarrow> string) \<Rightarrow> char \<Rightarrow> string" where
  "last_args args D c = (case map_of (rev args) c of Some x \<Rightarrow> x | None \<Rightarrow> D c)"

lemma set_option_config:
  "set_option (c, x) (config_of D) = (case option_fault (c, x) of Some e \<Rightarrow> Inl e | None \<Rightarrow> Inr (config_of (D(c := x))))"
  by (auto simp: set_option_def option_fault_def config_of_def split: sum.split)

lemma last_args_simps: "last_args [] D = D" "last_args ((c, x) # as) D = last_args as (D(c := x))"
  by (auto simp: last_args_def fun_eq_iff map_add_def split: option.split)

lemma option_loop_config:
  "option_loop args (config_of D) =
     (case List.map_filter option_fault args of e # _ \<Rightarrow> Inl e | [] \<Rightarrow> Inr (config_of (last_args args D)))"
proof (induction args arbitrary: D)
  case (Cons a args)
  then show ?case
    by (cases a) (simp add: set_option_config last_args_simps List.map_filter_simps split: option.split list.split)
qed (simp add: last_args_simps List.map_filter_simps)

lemma config_init: "Config_init = config_of option_defaults"
  by (simp add: Config_init_def config_of_def option_defaults_def stoi_def stoul16_def signed_text_def is_space_def is_digit_def
      is_xdigit_def xdigit_val_def skip_prefix_def digits_val_def xdigits_val_def)

lemma parse_args_errors: "parse_args args = Inl e \<Longrightarrow> e = Invalid_argument \<or> e = Out_of_range"
proof -
  have one: "set_option a cfg = Inl e \<Longrightarrow> e = Invalid_argument \<or> e = Out_of_range" for a cfg
    by (cases a) (auto simp: set_option_def stoi_def stoul16_def Let_def split: if_splits prod.splits)
  have "option_loop args cfg = Inl e \<Longrightarrow> e = Invalid_argument \<or> e = Out_of_range" for cfg
    by (induction args arbitrary: cfg) (auto dest: one split: sum.splits)
  then show "parse_args args = Inl e \<Longrightarrow> e = Invalid_argument \<or> e = Out_of_range"
    by (simp add: parse_args_def)
qed

text \<open>
  C37. Options are read as they are given. If some argument of \<^verbatim>\<open>--max_time\<close>, \<^verbatim>\<open>--start\<close> or \<^verbatim>\<open>--end\<close> is no number or
  does not fit, parsing stops with the exception of the first such argument; otherwise every
  setting is that of the last occurrence of its option, or its default, and options the program does
  not know change nothing.
\<close>

theorem parse_args_last:
  "parse_args args =
     (case List.map_filter option_fault args of
        e # _ \<Rightarrow> Inl e
      | [] \<Rightarrow> Inr (config_of (\<lambda>c. case map_of (rev args) c of Some x \<Rightarrow> x | None \<Rightarrow> option_defaults c)))"
  unfolding parse_args_def config_init by (rule option_loop_config [unfolded last_args_def])

subsection \<open>Numbers read back\<close>

definition hex_digit :: "nat \<Rightarrow> char" where
  "hex_digit d = char_of (if d < 10 then 48 + d else 87 + d)"

fun hex :: "nat \<Rightarrow> string" where
  "hex n = (if n < 16 then [hex_digit n] else hex (n div 16) @ [hex_digit (n mod 16)])"

declare hex.simps [simp del]

lemma xdigit_val_hex: "d < 16 \<Longrightarrow> xdigit_val (hex_digit d) = Some d"
  by (auto simp: xdigit_val_def hex_digit_def take_bit_eq_mod Let_def)

lemma is_xdigit_hex: "c \<in> set (hex n) \<Longrightarrow> is_xdigit c"
  by (induction n rule: hex.induct) (subst (asm) (2) hex.simps, auto simp: is_xdigit_def xdigit_val_hex split: if_splits)

lemma hex_not_Nil [simp]: "hex n \<noteq> []"
  by (subst hex.simps) simp

lemma xdigits_val_hex: "xdigits_val (hex n) = n"
proof (induction n rule: hex.induct)
  case (1 n)
  show ?case
  proof (cases "n < 16")
    case True
    then show ?thesis
      by (subst hex.simps) (simp add: xdigits_val_def xdigit_val_hex)
  next
    case False
    then have "xdigits_val (hex n) = 16 * xdigits_val (hex (n div 16)) + n mod 16"
      by (subst hex.simps) (simp add: xdigits_val_def xdigit_val_hex)
    then show ?thesis
      using 1 [OF False] by simp
  qed
qed

lemma stoi_dec: "n < 2 ^ 31 \<Longrightarrow> stoi (dec n) = Inr (int n)"
proof -
  assume n: "n < 2 ^ 31"
  have h: "is_digit (hd (dec n))"
    using is_digit_dec [of "hd (dec n)" n] by simp
  then have "signed_text (dec n) = (False, dec n)"
    using not_digit by (cases "dec n") (auto simp: signed_text_def)
  moreover have ds: "takeWhile is_digit (dec n) = dec n"
    by (simp add: is_digit_dec)
  ultimately show ?thesis
    using n unfolding stoi_def Let_def by (simp add: ds digits_val_dec del: takeWhile_eq_all_conv)
qed

lemma stoul16_hex: "n < 2 ^ 64 \<Longrightarrow> stoul16 (''0x'' @ hex n) = Inr (of_nat n)"
proof -
  assume n: "n < 2 ^ 64"
  have "signed_text (''0x'' @ hex n) = (False, ''0x'' @ hex n)"
    by (simp add: signed_text_def is_space_def)
  moreover have "skip_prefix (''0x'' @ hex n) = hex n"
    using is_xdigit_hex [of "hd (hex n)" n] by (cases "hex n") (auto simp: skip_prefix_def dest: arg_cong)
  moreover have ds: "takeWhile is_xdigit (hex n) = hex n"
    by (simp add: is_xdigit_hex)
  ultimately show ?thesis
    using n unfolding stoul16_def Let_def by (simp add: ds xdigits_val_hex del: takeWhile_eq_all_conv)
qed

text \<open>
  Numbers on the command line mean what they say: a time limit written in decimal and the bounds of
  the signature written in hexadecimal after \<^verbatim>\<open>0x\<close> come out of the parser as these numbers, whatever else
  is on the command line before and as long as no later option overrides them; the simulation runs for
  that many nanoseconds, or without limit for zero.
\<close>

theorem command_line_numbers:
  assumes "n < 2 ^ 31" and "a < 2 ^ 32" and "b < 2 ^ 32" and "parse_args args = Inr cfg"
  shows "let cfg' = cfg\<lparr>cfg_max_time := int n, cfg_sig_start := of_nat a, cfg_sig_end := of_nat b\<rparr>
     in parse_args (args @ [(CHR ''t'', dec n), (CHR ''b'', ''0x'' @ hex a), (CHR ''f'', ''0x'' @ hex b)]) = Inr cfg' \<and>
        time_limit cfg' = (if n = 0 then None else Some (int n))"
proof -
  have app: "option_loop (as @ bs) c = (case option_loop as c of Inl e \<Rightarrow> Inl e | Inr c' \<Rightarrow> option_loop bs c')" for as bs c
    by (induction as arbitrary: c) (auto split: sum.split)
  have narrow: "ucast (of_nat k :: u64) = (of_nat k :: u32)" for k
    by (rule bit_word_eqI) (simp add: bit_simps)
  have "a < 2 ^ 64" "b < 2 ^ 64"
    using assms(2,3) by simp_all
  then show ?thesis
    using assms stoi_dec [OF assms(1)] stoul16_hex [of a] stoul16_hex [of b]
    by (simp add: parse_args_def app set_option_def narrow time_limit_def Let_def)
qed

theorem command_line_numbers_witness:
  "\<exists>cfg. parse_args ([(CHR ''m'', ''arch-test'')] @ [(CHR ''t'', dec 500), (CHR ''b'', ''0x'' @ hex 0x80001000), (CHR ''f'', ''0x'' @ hex 0x80001010)]) =
     Inr cfg \<and> time_limit cfg = Some 500 \<and> cfg_sig_start cfg = 0x80001000 \<and> cfg_mode cfg = ''arch-test''"
proof -
  have "parse_args [(CHR ''m'', ''arch-test'')] = Inr (Config_init\<lparr>cfg_mode := ''arch-test''\<rparr>)"
    by (simp add: parse_args_def set_option_def)
  note c = command_line_numbers [OF _ _ _ this, where n = 500 and a = "0x80001000" and b = "0x80001010"]
  show ?thesis
    using c by (simp add: Let_def)
qed

end
