(* ===== verification/Cpu.thy ===== *)
theory Cpu
  imports Exec_Inv Fetch Decode_Stage Mext Mmu Test_Bench
begin

unbundle bit_operations_syntax

text \<open>
  The processor of \<^verbatim>\<open>src/src/cpu.hpp\<close>: the seven modules and the signals that connect them, and
  the machine that a test bench of \<^verbatim>\<open>src/src/tb.hpp\<close> builds from the processor, the memory and
  the devices.

  One clock cycle is, in the order of simulated time: \<^verbatim>\<open>EXEC::exec_comb\<close> at the falling edge; the
  instruction buffer's \<^verbatim>\<open>fifo_state_comb\<close> one nanosecond later; every clocked process at the
  rising edge; the memory's \<^verbatim>\<open>inst_fetch\<close> and \<^verbatim>\<open>mem_access\<close> in the delta cycle after it, if their
  request changed; and the two answers of the MMU one nanosecond later. The state of the model is
  the one between the last of these and the next falling edge.

  At the rising edge the simulation kernel runs the processes one after another in an order of its
  choice. A signal keeps its old value until all of them have run; a plain member changes at once.
  So \<open>cpu_process i s p t\<close> reads signals from the state \<open>s\<close> before the edge, and plain members
  that another module writes (the privilege and the list of configured PMP entries, which
  \<^verbatim>\<open>exec_seq\<close> writes and the MMU reads, and the TLB, which both ports of the MMU write) from the
  state \<open>t\<close> that the processes before it have left.
\<close>

subsection \<open>The signals\<close>

record CPU =
  cpu_exec :: EXEC
  cpu_mext :: MEXT
  cpu_fetch_pc :: u32
  cpu_dmmu :: DMMU
  cpu_immu :: IMMU
  cpu_fetch :: FETCH
  cpu_decode :: DECODE
  cpu_regs :: regs
  cpu_if_id_accept :: bool
  cpu_dmmu_to_ex :: MMU_RSP

text \<open>The ports of the processor, the devices that the execute stage reads through pointers, and
  the contents of the uninitialised entries that a failed TLB lookup returns.\<close>

record CPU_IN =
  ci_rst :: bool
  ci_mem_to_dmmu :: MEM_OUT
  ci_mem_to_immu :: MEM_OUT
  ci_clint :: CLINT_DEV
  ci_plic :: "PLIC_DEV option"
  ci_djunk :: TLBEntry
  ci_ijunk :: TLBEntry

definition CPU_ctor :: "u32 \<Rightarrow> TLBEntry \<Rightarrow> bool \<Rightarrow> FETCH \<Rightarrow> CPU" where
  "CPU_ctor entry tjunk ijunk fjunk =
     \<lparr>cpu_exec = EXEC_ctor tjunk entry, cpu_mext = \<lparr>mx_result = 0, mx_rsp_ack = False\<rparr>,
      cpu_fetch_pc = 0, cpu_dmmu = DMMU_ctor, cpu_immu = IMMU_ctor ijunk,
      cpu_fetch = fjunk\<lparr>if_id_inst := 0, if_id_pc := 0, if_id_fault := 0, if_id_flush := False,
        if_id_tval := 0\<rparr>,
      cpu_decode = \<lparr>id_ex_port = ID_EX_ctor, id_ex_pc = 0, id_ex_flush = False\<rparr>,
      cpu_regs = RegFile_ctor, cpu_if_id_accept = False, cpu_dmmu_to_ex = MMU_RSP_ctor\<rparr>"

subsection \<open>The bindings of the modules\<close>

abbreviation cpu_id_ex :: "CPU \<Rightarrow> ID_EX" where
  "cpu_id_ex s \<equiv> id_ex_port (cpu_decode s)"

definition exec_ports :: "CPU_IN \<Rightarrow> CPU \<Rightarrow> EXEC_IN" where
  "exec_ports i s =
     \<lparr>xi_rst = ci_rst i, xi_id_ex = cpu_id_ex s, xi_mext_rsp_ack = mx_rsp_ack (cpu_mext s),
      xi_mext_result = mx_result (cpu_mext s), xi_dmmu_to_ex = cpu_dmmu_to_ex s,
      xi_clint = ci_clint i, xi_plic = ci_plic i\<rparr>"

text \<open>The execute stage as the MMU sees it: its signals are those of \<open>x\<close>, its plain members
  those of \<open>y\<close>.\<close>

definition seen_exec :: "EXEC \<Rightarrow> EXEC \<Rightarrow> EXEC" where
  "seen_exec x y = x\<lparr>x_priv := x_priv y, x_pmp := (x_pmp x)\<lparr>pmpentry_id := pmpentry_id (x_pmp y)\<rparr>\<rparr>"

definition dmmu_ports :: "CPU_IN \<Rightarrow> CPU \<Rightarrow> EXEC \<Rightarrow> DMMU_IN" where
  "dmmu_ports i s y =
     \<lparr>dm_rst = ci_rst i, dm_flush = ex_flush (cpu_exec s), dm_req = ex_to_dmmu (cpu_exec s),
      dm_rsp = ci_mem_to_dmmu i, dm_exec = seen_exec (cpu_exec s) y\<rparr>"

definition immu_ports :: "CPU_IN \<Rightarrow> CPU \<Rightarrow> EXEC \<Rightarrow> IMMU_IN" where
  "immu_ports i s y =
     \<lparr>im_rst = ci_rst i, im_flush = ex_flush (cpu_exec s), im_accept = cpu_if_id_accept s,
      im_fetch_pc = cpu_fetch_pc s, im_rsp = ci_mem_to_immu i, im_exec = seen_exec (cpu_exec s) y\<rparr>"

definition fetch_ports :: "CPU_IN \<Rightarrow> CPU \<Rightarrow> FETCH_IN" where
  "fetch_ports i s =
     \<lparr>fi_rst = ci_rst i, fi_stall = ex_stall (cpu_exec s), fi_flush = ex_flush (cpu_exec s),
      fi_immu_flush = immu_flush (cpu_immu s), fi_immu_to_ifetch = immu_to_ifetch (cpu_immu s),
      fi_immu_pc = immu_pc (cpu_immu s)\<rparr>"

definition decode_ports :: "CPU_IN \<Rightarrow> CPU \<Rightarrow> DECODE_IN" where
  "decode_ports i s =
     (let x = cpu_exec s; f = cpu_fetch s
      in \<lparr>di_rst = ci_rst i, di_stall = ex_stall x, di_flush = ex_flush x, di_npc = ex_npc x,
          di_if_id_inst = if_id_inst f, di_if_id_pc = if_id_pc f, di_if_id_fault = if_id_fault f,
          di_if_id_tval = if_id_tval f, di_if_id_flush = if_id_flush f,
          di_ex_write_rd = ex_write_rd x, di_ex_rd_val = ex_rd_val x, di_ex_rd = ex_rd x,
          di_wb_write_rd = wb_write_rd x, di_wb_rd_val = wb_rd_val x, di_wb_rd = wb_rd x,
          di_regs = cpu_regs s\<rparr>)"

subsection \<open>The clock edges\<close>

text \<open>The falling edge, and the handshake of the instruction buffer after it.\<close>

definition cpu_fall :: "CPU_IN \<Rightarrow> CPU \<Rightarrow> CPU" where
  "cpu_fall i s =
     (let s1 = s\<lparr>cpu_exec := exec_comb (exec_ports i s) (cpu_exec s)\<rparr>
      in s1\<lparr>cpu_if_id_accept := fifo_state_comb (fetch_ports i s1) (cpu_fetch s1)\<rparr>)"

datatype process = P_exec_seq | P_writeback_seq | P_mext_seq | P_next_pc_seq | P_dmem_req_seq | P_imem_req_seq
  | P_get_inst_seq | P_inst_decode_seq | P_write_seq

definition set_tlb :: "TLB \<Rightarrow> EXEC \<Rightarrow> EXEC" where
  "set_tlb tlb x = x\<lparr>x_comb := (x_comb x)\<lparr>c_tlb := tlb\<rparr>\<rparr>"

text \<open>One process of the rising edge. Each writes the fields of its own module, from the signals
  before the edge; a register number outside the register file is an error.\<close>

fun cpu_process :: "CPU_IN \<Rightarrow> CPU \<Rightarrow> process \<Rightarrow> CPU \<Rightarrow> CPU option" where
  "cpu_process i s P_exec_seq t =
     (let e = exec_seq (exec_ports i s) (cpu_exec s)
      in Some (t\<lparr>cpu_exec := (cpu_exec t)\<lparr>x_priv := x_priv e, x_pmp := x_pmp e, x_csr := x_csr e,
                   x_val := x_val e\<rparr>\<rparr>))"
| "cpu_process i s P_writeback_seq t =
     (let e = writeback_seq (exec_ports i s) (cpu_exec s)
      in Some (t\<lparr>cpu_exec := (cpu_exec t)\<lparr>wb_write_rd := wb_write_rd e, wb_rd_val := wb_rd_val e, wb_rd := wb_rd e,
                   wb_pc := wb_pc e, wb_type := wb_type e, wb_stall := wb_stall e, ex_pc := ex_pc e\<rparr>\<rparr>))"
| "cpu_process i s P_mext_seq t =
     Some (t\<lparr>cpu_mext := mext_seq (c_mext_req (x_comb (cpu_exec s))) (cpu_id_ex s) (cpu_mext s)\<rparr>)"
| "cpu_process i s P_next_pc_seq t =
     (let x = cpu_exec s
      in Some (t\<lparr>cpu_fetch_pc := next_pc_seq (ci_rst i) (ex_flush x) (ex_branch_taken x) (cpu_if_id_accept s)
                                   (ex_npc x) (cpu_fetch_pc s)\<rparr>))"
| "cpu_process i s P_dmem_req_seq t =
     (let (d, tlb) = dmem_req_seq (ci_djunk i) (dmmu_ports i s (cpu_exec t)) (cpu_dmmu s) (c_tlb (x_comb (cpu_exec t)))
      in Some (t\<lparr>cpu_dmmu := d, cpu_exec := set_tlb tlb (cpu_exec t)\<rparr>))"
| "cpu_process i s P_imem_req_seq t =
     (let (d, tlb) = imem_req_seq (ci_ijunk i) (immu_ports i s (cpu_exec t)) (cpu_immu s) (c_tlb (x_comb (cpu_exec t)))
      in Some (t\<lparr>cpu_immu := d, cpu_exec := set_tlb tlb (cpu_exec t)\<rparr>))"
| "cpu_process i s P_get_inst_seq t = Some (t\<lparr>cpu_fetch := get_inst_seq (fetch_ports i s) (cpu_fetch s)\<rparr>)"
| "cpu_process i s P_inst_decode_seq t =
     Some (t\<lparr>cpu_decode := inst_decode_seq (decode_ports i s) (cpu_decode s)\<rparr>)"
| "cpu_process i s P_write_seq t =
     (let x = cpu_exec s
      in map_option (\<lambda>rf. t\<lparr>cpu_regs := rf\<rparr>) (write_seq (wb_write_rd x) (wb_rd x) (wb_rd_val x) (cpu_regs s)))"

text \<open>The processes of an edge, one after another.\<close>

primrec run_processes :: "('p \<Rightarrow> 's \<Rightarrow> 's option) \<Rightarrow> 'p list \<Rightarrow> 's \<Rightarrow> 's option" where
  "run_processes step [] t = Some t"
| "run_processes step (p # ps) t = do { t1 \<leftarrow> step p t; run_processes step ps t1 }"

text \<open>The answers of the MMU, one nanosecond after the rising edge.\<close>

definition cpu_settle :: "CPU_IN \<Rightarrow> CPU \<Rightarrow> CPU" where
  "cpu_settle i s =
     s\<lparr>cpu_dmmu_to_ex := dmem_rsp_comb (ex_to_dmmu (cpu_exec s)) (ci_mem_to_dmmu i) (cpu_dmmu s),
       cpu_immu := imem_rsp_comb (ci_mem_to_immu i) (cpu_immu s)\<rparr>"

text \<open>The start of the simulation. The method processes run once on the initial signals, with the
  reset signal still low, and at the first rising edge, under reset; the threads skip that edge.\<close>

definition method_processes :: "process list" where
  "method_processes = [P_writeback_seq, P_mext_seq, P_next_pc_seq, P_get_inst_seq, P_inst_decode_seq]"

definition cpu_power_on :: "CPU_IN \<Rightarrow> CPU \<Rightarrow> CPU option" where
  "cpu_power_on i s =
     (let i0 = i\<lparr>ci_rst := False\<rparr>; i1 = i\<lparr>ci_rst := True\<rparr>
      in do { t \<leftarrow> run_processes (cpu_process i0 s) method_processes s;
              let u = t\<lparr>cpu_exec := exec_comb (exec_ports i0 s) (cpu_exec t)\<rparr>;
              run_processes (cpu_process i1 u) method_processes u })"

subsection \<open>The machine\<close>

text \<open>
  The processor with the memory and the devices of a test bench. \<open>m_dout\<close> and \<open>m_iout\<close> are the
  answers of the memory; its requests \<^verbatim>\<open>din\<close> and \<^verbatim>\<open>iin\<close> are the outputs of the MMU. \<open>m_linux\<close> tells
  \<^verbatim>\<open>Testbench\<close>, which has the PLIC and the platform process, from \<^verbatim>\<open>Testbench_RVARCHTEST\<close>.
\<close>

record MACHINE =
  m_cpu :: CPU
  m_mem :: MEMORY
  m_dout :: MEM_OUT
  m_iout :: MEM_OUT
  m_shared :: SharedState
  m_linux :: bool

datatype machine_process = CPU_process process | P_update_memory | P_platform

text \<open>What a cycle depends on besides the state: the reset signal, what the console process has put
  into the shared memory, the orders in which the kernel runs the processes, and uninitialised
  memory.\<close>

record MACHINE_IN =
  mi_rst :: bool
  mi_shared :: SharedState
  mi_order :: "machine_process list"
  mi_fetch_first :: bool
  mi_djunk :: TLBEntry
  mi_ijunk :: TLBEntry

definition cpu_ports :: "MACHINE_IN \<Rightarrow> MACHINE \<Rightarrow> MEMORY \<Rightarrow> CPU_IN" where
  "cpu_ports i s m =
     \<lparr>ci_rst = mi_rst i, ci_mem_to_dmmu = m_dout s, ci_mem_to_immu = m_iout s, ci_clint = mem_clint m,
      ci_plic = (if m_linux s then Some (mem_plic m) else None), ci_djunk = mi_djunk i, ci_ijunk = mi_ijunk i\<rparr>"

definition platform_process :: "csr_file \<Rightarrow> MACHINE \<Rightarrow> MACHINE" where
  "platform_process csr t =
     (let m = m_mem t
      in if m_linux t
         then (let p = plat_update csr \<lparr>p_shared = m_shared t, p_clint = mem_clint m, p_uart = mem_uart m,
                         p_plic = mem_plic m\<rparr>
               in t\<lparr>m_shared := p_shared p,
                    m_mem := m\<lparr>mem_clint := p_clint p, mem_uart := p_uart p, mem_plic := p_plic p\<rparr>\<rparr>)
         else t\<lparr>m_mem := m\<lparr>mem_clint := archtest_clock (mem_clint m)\<rparr>\<rparr>)"

fun machine_step :: "MACHINE_IN \<Rightarrow> MACHINE \<Rightarrow> machine_process \<Rightarrow> MACHINE \<Rightarrow> MACHINE option" where
  "machine_step i s (CPU_process p) t =
     map_option (\<lambda>c. t\<lparr>m_cpu := c\<rparr>) (cpu_process (cpu_ports i s (m_mem t)) (m_cpu s) p (m_cpu t))"
| "machine_step i s P_update_memory t =
     map_option (\<lambda>m. t\<lparr>m_mem := m\<rparr>) (update_memory (dmmu_to_mem (cpu_dmmu (m_cpu s))) (m_dout s) (m_mem t))"
| "machine_step i s P_platform t = Some (platform_process (x_csr (cpu_exec (m_cpu s))) t)"

text \<open>The delta cycle after the edge: a request that changed is answered.\<close>

definition answer_fetch :: "MACHINE \<Rightarrow> MACHINE \<Rightarrow> MACHINE option" where
  "answer_fetch s t =
     (let iin = immu_to_mem (cpu_immu (m_cpu t))
      in if iin = immu_to_mem (cpu_immu (m_cpu s)) then Some t
         else do { (out, m) \<leftarrow> inst_fetch iin (m_mem t); Some (t\<lparr>m_iout := out, m_mem := m\<rparr>) })"

definition answer_data :: "MACHINE \<Rightarrow> MACHINE \<Rightarrow> MACHINE option" where
  "answer_data s t =
     (let din = dmmu_to_mem (cpu_dmmu (m_cpu t))
      in if din = dmmu_to_mem (cpu_dmmu (m_cpu s)) then Some t
         else do { (out, m) \<leftarrow> mem_access din (m_mem t); Some (t\<lparr>m_dout := out, m_mem := m\<rparr>) })"

definition machine_cycle :: "MACHINE_IN \<Rightarrow> MACHINE \<Rightarrow> MACHINE option" where
  "machine_cycle i s =
     (let f = s\<lparr>m_cpu := cpu_fall (cpu_ports i s (m_mem s)) (m_cpu s), m_shared := mi_shared i\<rparr>
      in do { t \<leftarrow> run_processes (machine_step i f) (mi_order i) f;
              u \<leftarrow> (if mi_fetch_first i then do { t1 \<leftarrow> answer_fetch f t; answer_data f t1 }
                    else do { t1 \<leftarrow> answer_data f t; answer_fetch f t1 });
              Some (u\<lparr>m_cpu := cpu_settle (cpu_ports i u (m_mem u)) (m_cpu u)\<rparr>) })"

definition machine_power_on :: "bool \<Rightarrow> u32 \<Rightarrow> MEMORY \<Rightarrow> SharedState \<Rightarrow> TLBEntry \<Rightarrow> bool \<Rightarrow> FETCH \<Rightarrow> MACHINE option" where
  "machine_power_on linux entry m sh tjunk ijunk fjunk =
     (let i = \<lparr>ci_rst = True, ci_mem_to_dmmu = MEM_OUT_ctor, ci_mem_to_immu = MEM_OUT_ctor, ci_clint = mem_clint m,
               ci_plic = (if linux then Some (mem_plic m) else None), ci_djunk = tjunk, ci_ijunk = tjunk\<rparr>
      in do { c \<leftarrow> cpu_power_on i (CPU_ctor entry tjunk ijunk fjunk);
              (dout, m1) \<leftarrow> mem_access (dmmu_to_mem (cpu_dmmu c)) m;
              (iout, m2) \<leftarrow> inst_fetch (immu_to_mem (cpu_immu c)) m1;
              Some \<lparr>m_cpu = c, m_mem = m2, m_dout = dout, m_iout = iout, m_shared = sh, m_linux = linux\<rparr> })"

text \<open>The orders the kernel may choose: every process once.\<close>

definition all_processes :: "machine_process list" where
  "all_processes = map CPU_process [P_exec_seq, P_writeback_seq, P_mext_seq, P_next_pc_seq, P_dmem_req_seq,
     P_imem_req_seq, P_get_inst_seq, P_inst_decode_seq, P_write_seq] @ [P_update_memory, P_platform]"

definition schedule :: "machine_process list \<Rightarrow> bool" where
  "schedule ps \<longleftrightarrow> distinct ps \<and> set ps = set all_processes"

end
