(* ===== verification/Cpu_Inv.thy ===== *)
theory Cpu_Inv
  imports Cpu Mmu_Safety
begin

unbundle bit_operations_syntax

text \<open>
  The machine never leaves the defined behaviour of its code: every access to the register file, to
  a memory segment or to the instruction store is in range, whatever the program, the console and
  the order in which the processes of a clock edge run.
\<close>

subsection \<open>Processes in any order\<close>

lemma run_processes_invariant:
  assumes "\<And>p t. p \<in> set ps \<Longrightarrow> P t \<Longrightarrow> \<exists>u. step p t = Some u \<and> P u" and "P t"
  shows "\<exists>u. run_processes step ps t = Some u \<and> P u"
  using assms
proof (induction ps arbitrary: t)
  case (Cons p ps)
  obtain t1 where t1: "step p t = Some t1" "P t1"
    using Cons.prems by (meson list.set_intros(1))
  then show ?case
    using Cons.IH [OF _ t1(2)] Cons.prems(1) by simp
qed simp

text \<open>A field that only process \<open>p\<close> writes has, after the edge, what \<open>p\<close> wrote.\<close>

lemma run_processes_keep:
  assumes "run_processes step ps t = Some u" and "\<And>q t u. q \<in> set ps \<Longrightarrow> step q t = Some u \<Longrightarrow> f u = f t"
  shows "f u = f t"
  using assms
proof (induction ps arbitrary: t)
  case (Cons p ps)
  then obtain t1 where t1: "step p t = Some t1" "run_processes step ps t1 = Some u"
    by (auto simp: bind_eq_Some_conv)
  then have "f u = f t1"
    using Cons.IH [of t1] Cons.prems(2) by (meson list.set_intros(2))
  then show ?case
    using Cons.prems(2) [OF _ t1(1)] by simp
qed simp

lemma run_processes_field:
  assumes "run_processes step ps t = Some u" and "p \<in> set ps"
    and own: "\<And>t u. step p t = Some u \<Longrightarrow> P (f u)"
    and other: "\<And>q t u. q \<noteq> p \<Longrightarrow> step q t = Some u \<Longrightarrow> f u = f t"
  shows "P (f u)"
  using assms(1,2)
proof (induction ps arbitrary: t)
  case (Cons q ps)
  then obtain t1 where t1: "step q t = Some t1" "run_processes step ps t1 = Some u"
    by (auto simp: bind_eq_Some_conv)
  show ?case
  proof (cases "p \<in> set ps")
    case True
    then show ?thesis
      using Cons.IH t1(2) by blast
  next
    case False
    then have "f u = f t1"
      using run_processes_keep [OF t1(2), where f = f] other by metis
    moreover have "q = p"
      using False Cons.prems(2) by simp
    ultimately show ?thesis
      using own t1(1) by simp
  qed
qed simp

lemma run_guarded:
  assumes "run_processes step ps t = Some u" and "I t" and "\<And>q t u. I t \<Longrightarrow> step q t = Some u \<Longrightarrow> I u"
  shows "run_processes (\<lambda>q t. if I t then step q t else None) ps t = Some u"
  using assms by (induction ps arbitrary: t) (auto simp: bind_eq_Some_conv)

subsection \<open>The memory is total\<close>

text \<open>A byte memory whose accesses always succeed: so do the word loops of the memory module.\<close>

locale total_memory =
  fixes ok :: "'s \<Rightarrow> bool" and rd :: "u32 \<Rightarrow> 's \<Rightarrow> (u8 \<times> 's) option" and wr :: "u32 \<Rightarrow> u8 \<Rightarrow> 's \<Rightarrow> 's option"
  assumes rd_total: "ok s \<Longrightarrow> \<exists>b s'. rd a s = Some (b, s') \<and> ok s'"
    and wr_total: "ok s \<Longrightarrow> \<exists>s'. wr a v s = Some s' \<and> ok s'"
begin

lemma load_loop_total: "ok s \<Longrightarrow> \<exists>w s'. load_loop rd a n acc s = Some (w, s') \<and> ok s'"
proof (induction n arbitrary: acc s)
  case (Suc n)
  obtain b s1 where "rd (a + of_nat n) s = Some (b, s1)" "ok s1"
    using rd_total [OF Suc.prems] by blast
  then show ?case
    using Suc.IH by simp
qed simp

lemma store_bytes_total: "ok s \<Longrightarrow> \<exists>s'. store_bytes wr a n w s = Some s' \<and> ok s'"
proof (induction n arbitrary: a w s)
  case (Suc n)
  obtain s1 where "wr a (ucast w) s = Some s1" "ok s1"
    using wr_total [OF Suc.prems] by blast
  then show ?case
    using Suc.IH by simp
qed simp

end

definition ram_safe :: "RAM \<Rightarrow> bool" where
  "ram_safe r \<longleftrightarrow> ram_ok r \<and> 4 \<le> ram_SIZE r"

definition mem_safe :: "MEMORY \<Rightarrow> bool" where
  "mem_safe m \<longleftrightarrow> ram_safe (mem_ram m)"

lemma ram_safe_range: "ram_ok r' \<Longrightarrow> ram_range r' = ram_range r \<Longrightarrow> ram_safe r \<Longrightarrow> ram_safe r'"
  by (simp add: ram_safe_def ram_range_def)

interpretation ram_acc: total_memory ram_safe ram_read ram_write
proof
  fix r a v assume r: "ram_safe r"
  then have ok: "ram_ok r"
    by (simp add: ram_safe_def)
  show "\<exists>b r'. ram_read a r = Some (b, r') \<and> ram_safe r'"
    using ram_read_ok [OF ok, of a] ram_read_range ram_safe_range r by blast
  show "\<exists>r'. ram_write a v r = Some r' \<and> ram_safe r'"
    using ram_write_ok [OF ok, of a v] ram_write_range ram_safe_range r by blast
qed

lemma dev_total:
  assumes "mem_safe m"
  shows "\<exists>b m'. dev_read d a m = Some (b, m') \<and> mem_safe m'" and "\<exists>m'. dev_write d a v m = Some m' \<and> mem_safe m'"
proof -
  have "ram_safe (mem_ram m)"
    using assms by (simp add: mem_safe_def)
  then show "\<exists>b m'. dev_read d a m = Some (b, m') \<and> mem_safe m'" "\<exists>m'. dev_write d a v m = Some m' \<and> mem_safe m'"
    using ram_acc.rd_total [of "mem_ram m" a] ram_acc.wr_total [of "mem_ram m" a v]
    by (cases d; force simp: mem_safe_def rvtest_write_def split: prod.split)+
qed

lemma bus_total:
  shows "mem_safe m \<Longrightarrow> \<exists>b m'. bus_read ds a m = Some (b, m') \<and> mem_safe m'"
    and "mem_safe m \<Longrightarrow> \<exists>m'. bus_write ds a v m = Some m' \<and> mem_safe m'"
proof (induction ds arbitrary: m)
  case (Cons d ds)
  {
    case 1
    obtain b m1 where "dev_read d a m = Some (b, m1)" "mem_safe m1"
      using dev_total(1) [OF 1] by blast
    then show ?case
      using Cons.IH(1) [OF 1] Cons.IH(1) [of m1] by auto
  next
    case 2
    then show ?case
      using Cons.IH(2) dev_total(2) by simp
  }
qed simp_all

interpretation bus_acc: total_memory mem_safe mem_load_byte mem_store_byte
  by unfold_locales (simp_all add: mem_load_byte_def mem_store_byte_def bus_total)

lemma ram_ops_total:
  assumes "ram_safe r"
  shows "\<exists>b r'. amo_sc a r = Some (b, r') \<and> ram_safe r'" and "n \<le> 2 ^ 32 \<Longrightarrow> \<exists>r'. lr_loop a n r = Some r' \<and> ram_safe r'"
    and "a AND 3 = 0 \<Longrightarrow> \<exists>w r'. ram_fetch a r = Some (w, r') \<and> ram_safe r'"
proof -
  have ok: "ram_ok r" "4 \<le> ram_SIZE r"
    using assms by (simp_all add: ram_safe_def)
  show "\<exists>b r'. amo_sc a r = Some (b, r') \<and> ram_safe r'"
    using amo_sc_ok [OF ok(1), of a] amo_sc_range ram_safe_range assms by blast
  show "\<exists>r'. lr_loop a n r = Some r' \<and> ram_safe r'" if "n \<le> 2 ^ 32"
    using lr_loop_ok [OF ok(1) that, of a] ram_safe_range assms by blast
  show "\<exists>w r'. ram_fetch a r = Some (w, r') \<and> ram_safe r'" if "a AND 3 = 0"
    using ram_fetch_ok [OF ok(1) aligned_fetch_room [OF ok that]] ram_fetch_range ram_safe_range assms by blast
qed

lemma inst_fetch_total:
  assumes "mem_safe m" and "imem_req_ack r \<longrightarrow> imem_addr r AND 3 = 0"
  shows "\<exists>out m'. inst_fetch r m = Some (out, m') \<and> mem_safe m'"
proof -
  have "\<exists>w r'. ram_fetch (imem_addr r) (mem_ram m) = Some (w, r') \<and> ram_safe r'" if "imem_req_ack r"
    using ram_ops_total(3) assms that by (simp add: mem_safe_def)
  then show ?thesis
    using assms(1) by (auto simp: inst_fetch_def mem_safe_def)
qed

lemma mem_access_total:
  assumes "mem_safe m"
  shows "\<exists>out m'. mem_access d m = Some (out, m') \<and> mem_safe m'"
proof -
  obtain w m1 where m1: "load_loop mem_load_byte (dmem_addr d) (unat (dmem_size d)) 0 m = Some (w, m1)" "mem_safe m1"
    using bus_acc.load_loop_total [OF assms] by blast
  have r: "ram_safe (mem_ram m)"
    using assms by (simp add: mem_safe_def)
  obtain v r1 where r1: "load_loop ram_read (dmem_addr d) (unat (dmem_size d)) 0 (mem_ram m) = Some (v, r1)" "ram_safe r1"
    using ram_acc.load_loop_total [OF r] by blast
  obtain b r2 where r2: "amo_sc (dmem_addr d) (mem_ram m) = Some (b, r2)" "ram_safe r2"
    using ram_ops_total(1) [OF r] by blast
  show ?thesis
    using assms m1 r1 r2 by (simp add: mem_access_def mem_access_amo_def mem_safe_def)
qed

lemma update_memory_total:
  assumes "mem_safe m"
  shows "\<exists>m'. update_memory d out m = Some m' \<and> mem_safe m'"
proof -
  have r: "ram_safe (mem_ram m)" and n: "unat (dmem_size d) \<le> 2 ^ 32"
    using assms unsigned_less [of "dmem_size d", where 'a = nat] by (simp_all add: mem_safe_def)
  have "\<exists>r'. update_amo d v (mem_ram m) = Some r' \<and> ram_safe r'" for v
    using ram_acc.store_bytes_total [OF r] ram_ops_total(2) [OF r n] r by (simp add: update_amo_def)
  then show ?thesis
    using bus_acc.store_bytes_total [OF assms] assms by (force simp: update_memory_def mem_safe_def)
qed

subsection \<open>The instruction port asks for whole words\<close>

lemma aligned_add: "x AND 3 = 0 \<Longrightarrow> y AND 3 = 0 \<Longrightarrow> (x + y) AND 3 = 0" for x y :: u32
  by (simp add: and_3_iff unat_add_mod_4 mod_add_eq [symmetric])

lemma aligned_parts:
  "push_bit 12 x AND 3 = 0" "(x AND NOT 3) AND 3 = 0" "(x AND 0x3FFFFC) AND 3 = 0" "x * 4 AND 3 = 0" for x :: u32
proof -
  have three: "(3 :: u32) = mask 2"
    by (simp add: mask_eq_exp_minus_1)
  have "x * 4 = push_bit 2 x"
    by (simp add: push_bit_eq_mult)
  then show "push_bit 12 x AND 3 = 0" "(x AND NOT 3) AND 3 = 0" "x * 4 AND 3 = 0"
    unfolding three by (auto intro!: bit_word_eqI simp: bit_simps)
  have "(0x3FFFFC :: u32) AND 3 = 0"
    by simp
  then show "(x AND 0x3FFFFC) AND 3 = 0"
    by (simp only: and.assoc and_zero_eq)
qed

lemma aligned_and: "x AND 3 = 0 \<Longrightarrow> (x AND y) AND 3 = 0" "(y AND - 4) AND 3 = 0" for x y :: u32
proof -
  show "(x AND y) AND 3 = 0" if "x AND 3 = 0"
    using that unfolding and.assoc and.commute [of y] unfolding and.assoc [symmetric] by simp
  show "(y AND - 4) AND 3 = 0"
    using aligned_parts(2) [of y] by simp
qed

definition word_request :: "IMEM_IN \<Rightarrow> bool" where
  "word_request r \<longleftrightarrow> (imem_req_ack r \<longrightarrow> imem_addr r AND 3 = 0)"

definition immu_aligned :: "IMMU \<Rightarrow> bool" where
  "immu_aligned s \<longleftrightarrow> word_request (immu_to_mem s)"

lemma word_request_sent:
  "word_request (i_mmu_mem (i_no_req s))" "a AND 3 = 0 \<Longrightarrow> word_request (i_mmu_mem (i_send a s))"
  by (simp_all add: word_request_def i_no_req_def i_send_def)

lemma imem_start_aligned: "word_request (i_mmu_mem (fst (imem_start junk i s tlb)))"
  by (simp add: imem_start_def Let_def case_prod_beta word_request_sent aligned_parts aligned_add
      aligned_and)

lemma imem_level_aligned:
  "word_request (i_mmu_mem (fst (imem_level1 i s tlb)))" "word_request (i_mmu_mem (fst (imem_level0 i s tlb)))"
  by (simp_all add: imem_level1_def imem_level0_def Let_def word_request_sent aligned_parts aligned_add
      aligned_and)

lemma imem_step_aligned: "word_request (i_mmu_mem (fst (imem_step junk i s tlb)))"
  by (simp add: imem_step_def imem_start_aligned imem_level_aligned word_request_sent)

lemma imem_req_seq_aligned: "immu_aligned (fst (imem_req_seq junk i s tlb))"
  using imem_step_aligned [of junk i s tlb]
  by (simp add: imem_req_seq_def imem_check_def immu_aligned_def word_request_def IMEM_IN_ctor_def Let_def
      case_prod_beta)

lemma immu_aligned_settle: "immu_aligned (imem_rsp_comb r s) = immu_aligned s"
  by (simp add: imem_rsp_comb_def immu_aligned_def Let_def)

lemma length_dmem_req_seq: "length (snd (dmem_req_seq junk i s tlb)) = length tlb"
proof -
  have "length (snd (dmem_idle junk i s tlb)) = length tlb"
    by (simp add: dmem_idle_def Let_def case_prod_beta)
  moreover have "length (snd (dmem_level1 i s tlb)) = length tlb" "length (snd (dmem_level0 i s tlb)) = length tlb"
    by (simp_all add: dmem_level1_def dmem_level0_def Let_def)
  ultimately show ?thesis
    by (simp add: dmem_req_seq_def dmem_step_def case_prod_beta)
qed

lemma length_imem_req_seq: "length (snd (imem_req_seq junk i s tlb)) = length tlb"
proof -
  have "length (fst (snd (imem_start junk i s tlb))) = length tlb"
    by (simp add: imem_start_def Let_def case_prod_beta)
  moreover have "length (fst (snd (imem_level1 i s tlb))) = length tlb"
    "length (fst (snd (imem_level0 i s tlb))) = length tlb"
    by (simp_all add: imem_level1_def imem_level0_def Let_def)
  ultimately show ?thesis
    by (simp add: imem_req_seq_def imem_step_def Let_def case_prod_beta)
qed

subsection \<open>The invariant of the machine\<close>

definition cpu_ok :: "CPU \<Rightarrow> bool" where
  "cpu_ok c \<longleftrightarrow> exec_ok (cpu_exec c) \<and> regs_ok (cpu_regs c) \<and> in_range (cpu_id_ex c) \<and> wb_rd (cpu_exec c) < 32 \<and>
     immu_aligned (cpu_immu c)"

definition machine_ok :: "MACHINE \<Rightarrow> bool" where
  "machine_ok s \<longleftrightarrow> cpu_ok (m_cpu s) \<and> mem_safe (m_mem s)"

lemma exec_comb_wb [simp]:
  "wb_rd (exec_comb i s) = wb_rd s" "wb_write_rd (exec_comb i s) = wb_write_rd s"
  "wb_rd_val (exec_comb i s) = wb_rd_val s" "wb_pc (exec_comb i s) = wb_pc s" "wb_type (exec_comb i s) = wb_type s"
  by (simp_all add: exec_comb_def exec_outputs_def Let_def)

lemma ex_rd_comb: "ex_rd (exec_comb i s) = ie_rd (xi_id_ex i)"
  by (simp add: exec_comb_def exec_outputs_def Let_def)

lemma cpu_fall_simps [simp]:
  "cpu_exec (cpu_fall i c) = exec_comb (exec_ports i c) (cpu_exec c)" "cpu_mext (cpu_fall i c) = cpu_mext c"
  "cpu_fetch_pc (cpu_fall i c) = cpu_fetch_pc c" "cpu_dmmu (cpu_fall i c) = cpu_dmmu c"
  "cpu_immu (cpu_fall i c) = cpu_immu c" "cpu_fetch (cpu_fall i c) = cpu_fetch c"
  "cpu_decode (cpu_fall i c) = cpu_decode c" "cpu_regs (cpu_fall i c) = cpu_regs c"
  "cpu_dmmu_to_ex (cpu_fall i c) = cpu_dmmu_to_ex c"
  by (simp_all add: cpu_fall_def Let_def)

lemma xi_id_ex_ports [simp]: "xi_id_ex (exec_ports i c) = cpu_id_ex c" "xi_rst (exec_ports i c) = ci_rst i"
  by (simp_all add: exec_ports_def)

lemma cpu_ok_fall: "cpu_ok c \<Longrightarrow> cpu_ok (cpu_fall i c)"
  by (simp add: cpu_ok_def exec_ok_comb)

text \<open>Every process of the rising edge succeeds and keeps the invariant.\<close>

lemma exec_ok_parts:
  assumes "exec_ok e" and "exec_ok x"
  shows "exec_ok (x\<lparr>x_priv := x_priv e, x_pmp := x_pmp e, x_csr := x_csr e, x_val := v\<rparr>)"
  using assms by (simp add: exec_ok_def)

lemma cpu_process_ok:
  assumes s: "cpu_ok s" "ex_rd (cpu_exec s) < 32" and t: "cpu_ok t"
    and exec: "p = P_exec_seq \<Longrightarrow> exec_ok (exec_seq (exec_ports j s) (cpu_exec s))"
  shows "\<exists>u. cpu_process j s p t = Some u \<and> cpu_ok u"
proof -
  note ok = s(1) [unfolded cpu_ok_def] t [unfolded cpu_ok_def]
  show ?thesis
  proof (cases p)
    case P_exec_seq
    then show ?thesis
      using exec ok(2) by (simp add: Let_def cpu_ok_def exec_ok_parts)
  next
    case P_writeback_seq
    have "wb_rd (writeback_seq (exec_ports j s) (cpu_exec s)) < 32"
      using s(2) by (simp add: writeback_seq_def)
    then show ?thesis
      using P_writeback_seq ok(2) by (simp add: Let_def cpu_ok_def exec_ok_def)
  next
    case P_inst_decode_seq
    have "in_range (id_ex_port (inst_decode_seq (decode_ports j s) (cpu_decode s)))"
      using ok(1) in_range_tmp by (simp add: inst_decode_seq_def Let_def)
    then show ?thesis
      using P_inst_decode_seq ok(2) by (simp add: cpu_ok_def)
  next
    case P_write_seq
    have "regs_ok (cpu_regs s)" "wb_rd (cpu_exec s) < 32"
      using ok(1) by simp_all
    then obtain rf where "write_seq (wb_write_rd (cpu_exec s)) (wb_rd (cpu_exec s)) (wb_rd_val (cpu_exec s)) (cpu_regs s) = Some rf"
      "regs_ok rf"
      using rf.put_ok by blast
    then show ?thesis
      using P_write_seq ok(2) by (simp add: cpu_ok_def Let_def)
  next
    case P_dmem_req_seq
    then show ?thesis
      using ok(2) by (simp add: cpu_ok_def exec_ok_def set_tlb_def case_prod_beta length_dmem_req_seq Let_def)
  next
    case P_imem_req_seq
    then show ?thesis
      using ok(2)
      by (simp add: cpu_ok_def exec_ok_def set_tlb_def case_prod_beta length_imem_req_seq imem_req_seq_aligned Let_def)
  qed (use ok(2) in \<open>simp_all add: cpu_ok_def Let_def\<close>)
qed

lemma fall_ready:
  assumes "cpu_ok c"
  shows "cpu_ok (cpu_fall i c)" and "ex_rd (cpu_exec (cpu_fall i c)) < 32"
    and "exec_ok (exec_seq (exec_ports j (cpu_fall i c)) (cpu_exec (cpu_fall i c)))"
proof -
  show "cpu_ok (cpu_fall i c)"
    using assms by (rule cpu_ok_fall)
  show "ex_rd (cpu_exec (cpu_fall i c)) < 32"
    using assms by (simp add: cpu_ok_def in_range_def ex_rd_comb)
  show "exec_ok (exec_seq (exec_ports j (cpu_fall i c)) (cpu_exec (cpu_fall i c)))"
    using assms exec_ok_seq [of "cpu_exec c" "exec_ports j (cpu_fall i c)" "exec_ports i c"] by (simp add: cpu_ok_def)
qed

lemma machine_step_ok:
  assumes "machine_ok s0" and "s = s0\<lparr>m_cpu := cpu_fall j (m_cpu s0), m_shared := sh\<rparr>" and "machine_ok t"
  shows "\<exists>u. machine_step i s p t = Some u \<and> machine_ok u"
proof (cases p)
  case (CPU_process q)
  have "\<exists>c. cpu_process (cpu_ports i s (m_mem t)) (m_cpu s) q (m_cpu t) = Some c \<and> cpu_ok c"
    using assms fall_ready [of "m_cpu s0"] by (intro cpu_process_ok) (simp_all add: machine_ok_def)
  then show ?thesis
    using assms(3) CPU_process by (auto simp: machine_ok_def)
next
  case P_update_memory
  then show ?thesis
    using assms(3) update_memory_total by (force simp: machine_ok_def)
next
  case P_platform
  then show ?thesis
    using assms(3) by (simp add: platform_process_def machine_ok_def mem_safe_def Let_def)
qed

lemma answer_ok:
  assumes "machine_ok t"
  shows "\<exists>u. answer_fetch s t = Some u \<and> machine_ok u" and "\<exists>u. answer_data s t = Some u \<and> machine_ok u"
proof -
  have "\<exists>out m. inst_fetch (immu_to_mem (cpu_immu (m_cpu t))) (m_mem t) = Some (out, m) \<and> mem_safe m"
    using assms inst_fetch_total
    by (simp add: machine_ok_def cpu_ok_def immu_aligned_def word_request_def)
  then show "\<exists>u. answer_fetch s t = Some u \<and> machine_ok u"
    using assms by (auto simp: answer_fetch_def machine_ok_def Let_def)
  have "\<exists>out m. mem_access (dmmu_to_mem (cpu_dmmu (m_cpu t))) (m_mem t) = Some (out, m) \<and> mem_safe m"
    using assms mem_access_total by (simp add: machine_ok_def)
  then show "\<exists>u. answer_data s t = Some u \<and> machine_ok u"
    using assms by (auto simp: answer_data_def machine_ok_def Let_def)
qed

lemma machine_ok_settle: "machine_ok (u\<lparr>m_cpu := cpu_settle j (m_cpu u)\<rparr>) = machine_ok u"
  by (simp add: machine_ok_def cpu_settle_def cpu_ok_def immu_aligned_settle)

lemma machine_cycle_ok:
  assumes "machine_ok s"
  shows "\<exists>t. machine_cycle i s = Some t \<and> machine_ok t"
proof -
  define f where "f = s\<lparr>m_cpu := cpu_fall (cpu_ports i s (m_mem s)) (m_cpu s), m_shared := mi_shared i\<rparr>"
  have "machine_ok f"
    using assms by (simp add: f_def machine_ok_def cpu_ok_fall)
  then obtain t where t: "run_processes (machine_step i f) (mi_order i) f = Some t" "machine_ok t"
    using run_processes_invariant [of "mi_order i" machine_ok "machine_step i f" f]
      machine_step_ok [OF assms f_def] by blast
  obtain u where "(if mi_fetch_first i then do { t1 \<leftarrow> answer_fetch f t; answer_data f t1 }
      else do { t1 \<leftarrow> answer_data f t; answer_fetch f t1 }) = Some u" "machine_ok u"
    using answer_ok [OF t(2), of f] answer_ok by (cases "mi_fetch_first i") force+
  then show ?thesis
    unfolding machine_cycle_def Let_def f_def [symmetric] using t(1) machine_ok_settle by simp
qed

text \<open>The start of the simulation.\<close>

lemma cpu_ok_ctor: "cpu_ok (CPU_ctor entry tj ij fj)" "ex_rd (cpu_exec (CPU_ctor entry tj ij fj)) < 32"
proof -
  have "wb_rd (EXEC_ctor tj entry) < 32" "immu_aligned (IMMU_ctor ij)" "in_range ID_EX_ctor"
    by (simp_all add: EXEC_ctor_def immu_aligned_def IMMU_ctor_def word_request_def IMEM_IN_ctor_def in_range_def
        ID_EX_ctor_def)
  then show "cpu_ok (CPU_ctor entry tj ij fj)"
    by (simp add: cpu_ok_def CPU_ctor_def exec_ok_ctor regs_ok_ctor)
  show "ex_rd (cpu_exec (CPU_ctor entry tj ij fj)) < 32"
    by (simp add: CPU_ctor_def EXEC_ctor_def)
qed

lemma methods_ok:
  assumes "cpu_ok s" and "ex_rd (cpu_exec s) < 32"
  shows "\<exists>t. run_processes (cpu_process j s) method_processes s = Some t \<and> cpu_ok t"
  using assms by (intro run_processes_invariant cpu_process_ok) (auto simp: method_processes_def)

lemma cpu_power_on_ok: "\<exists>c. cpu_power_on i (CPU_ctor entry tj ij fj) = Some c \<and> cpu_ok c"
proof -
  let ?s = "CPU_ctor entry tj ij fj" and ?i = "i\<lparr>ci_rst := False\<rparr>"
  obtain t where t: "run_processes (cpu_process ?i ?s) method_processes ?s = Some t" "cpu_ok t"
    using methods_ok [OF cpu_ok_ctor] by blast
  let ?u = "t\<lparr>cpu_exec := exec_comb (exec_ports ?i ?s) (cpu_exec t)\<rparr>"
  have "cpu_ok ?u" "ex_rd (cpu_exec ?u) < 32"
    using t(2) by (simp_all add: cpu_ok_def exec_ok_comb ex_rd_comb) (simp add: CPU_ctor_def ID_EX_ctor_def)
  then show ?thesis
    using t(1) methods_ok by (simp add: cpu_power_on_def Let_def)
qed

lemma machine_power_on_ok:
  assumes "mem_safe m"
  shows "\<exists>s. machine_power_on linux entry m sh tj ij fj = Some s \<and> machine_ok s"
proof -
  define i where "i = \<lparr>ci_rst = True, ci_mem_to_dmmu = MEM_OUT_ctor, ci_mem_to_immu = MEM_OUT_ctor, ci_clint = mem_clint m,
      ci_plic = (if linux then Some (mem_plic m) else None), ci_djunk = tj, ci_ijunk = tj\<rparr>"
  obtain c where c: "cpu_power_on i (CPU_ctor entry tj ij fj) = Some c" "cpu_ok c"
    using cpu_power_on_ok by blast
  obtain dout m1 where m1: "mem_access (dmmu_to_mem (cpu_dmmu c)) m = Some (dout, m1)" "mem_safe m1"
    using mem_access_total [OF assms] by blast
  have "imem_req_ack (immu_to_mem (cpu_immu c)) \<longrightarrow> imem_addr (immu_to_mem (cpu_immu c)) AND 3 = 0"
    using c(2) by (simp add: cpu_ok_def immu_aligned_def word_request_def)
  then obtain iout m2 where "inst_fetch (immu_to_mem (cpu_immu c)) m1 = Some (iout, m2)" "mem_safe m2"
    using inst_fetch_total [OF m1(2)] by blast
  then show ?thesis
    using c m1 by (simp add: machine_power_on_def i_def [symmetric] machine_ok_def)
qed

primrec machine_run :: "MACHINE_IN list \<Rightarrow> MACHINE \<Rightarrow> MACHINE option" where
  "machine_run [] s = Some s"
| "machine_run (i # is) s = do { t \<leftarrow> machine_cycle i s; machine_run is t }"

lemma machine_run_append: "machine_run (is @ js) s = do { t \<leftarrow> machine_run is s; machine_run js t }"
  by (induction "is" arbitrary: s) (auto split: bind_split)

lemma machine_run_total: "machine_ok s \<Longrightarrow> \<exists>t. machine_run is s = Some t \<and> machine_ok t"
proof (induction "is" arbitrary: s)
  case (Cons i "is")
  then show ?case
    using machine_cycle_ok [OF Cons.prems, of i] by auto
qed simp

text \<open>
  C5. The whole machine is free of undefined accesses: from power-on with any program and any
  contents of uninitialised memory, for any sequence of clock cycles, whatever the reset signal, the
  console input and the order in which the kernel runs the processes of an edge, the simulation goes
  on: no process indexes outside the register file, the CSR file or a memory segment. In every state
  reached the execute stage keeps its invariant, register 0 is zero, the instruction to execute
  names existing registers, and the instruction port asks for aligned words.
\<close>

theorem machine_never_stuck:
  assumes "mem_safe m"
  shows "\<exists>s t. machine_power_on linux entry m sh tj ij fj = Some s \<and> machine_run is s = Some t \<and> machine_ok t"
proof -
  obtain s where "machine_power_on linux entry m sh tj ij fj = Some s" "machine_ok s"
    using machine_power_on_ok [OF assms] by blast
  then show ?thesis
    using machine_run_total [of s "is"] by blast
qed

lemma mem_safe_benches: "mem_safe (Testbench_memory us)" "mem_safe (Testbench_RVARCHTEST_memory us a)"
proof -
  have "ram_ok (RAM_ctor (2 ^ 22))" "ram_SIZE (RAM_ctor (2 ^ 22)) = 2 ^ 22"
    using ram_ok_ctor [of 22] by (simp_all add: RAM_ctor_def build_seg_def)
  then show "mem_safe (Testbench_memory us)" "mem_safe (Testbench_RVARCHTEST_memory us a)"
    by (simp_all add: mem_safe_def ram_safe_def Testbench_memory_def Testbench_RVARCHTEST_memory_def)
qed

definition example_entry :: TLBEntry where
  "example_entry = \<lparr>te_vpn = 0, te_asid = 0, te_pte = 0, te_valid = False, te_is_megapage = False\<rparr>"

definition example_buffer :: FETCH where
  "example_buffer = \<lparr>buffer = 5, buffer_page_fault = 0, buffer_access_fault = 0, buffer_idx = 7, buffer_addr = 0,
     if_id_inst = 0, if_id_pc = 0, if_id_fault = 0, if_id_flush = False, if_id_tval = 0\<rparr>"

definition example_cycle :: "bool \<Rightarrow> MACHINE_IN" where
  "example_cycle rst = \<lparr>mi_rst = rst, mi_shared = setup_shared_memory, mi_order = all_processes, mi_fetch_first = True,
     mi_djunk = example_entry, mi_ijunk = example_entry\<rparr>"

theorem machine_never_stuck_witness:
  "\<exists>s t. machine_power_on True 0x80000000 (Testbench_memory []) setup_shared_memory example_entry False example_buffer =
       Some s \<and>
     machine_run [example_cycle True, example_cycle True, example_cycle False] s = Some t \<and> machine_ok t"
  by (rule machine_never_stuck [OF mem_safe_benches(1)])

end
