(* ===== verification/Cpu_Order.thy ===== *)
theory Cpu_Order
  imports Cpu_Inv
begin

unbundle bit_operations_syntax

text \<open>
  The pipeline as a whole: what one clock cycle of the machine does to each module, the states the
  machine can reach, and the hand-shakes between the stages that hold in all of them. The
  instruction in the execute stage is always the one the program counter names; the memory and the
  multiplier only ever answer the instruction that asked.
\<close>

subsection \<open>One cycle, module by module\<close>

text \<open>A process leaves the fields of the other modules alone.\<close>

lemma machine_step_CPU:
  "machine_step i s (CPU_process p) t = Some u \<longleftrightarrow>
     (\<exists>c. cpu_process (cpu_ports i s (m_mem t)) (m_cpu s) p (m_cpu t) = Some c \<and> u = t\<lparr>m_cpu := c\<rparr>)"
  by auto

lemma machine_step_other:
  assumes "machine_step i s q t = Some u" and "\<And>p. q \<noteq> CPU_process p"
  shows "m_cpu u = m_cpu t"
  using assms by (cases q) (auto simp: platform_process_def Let_def)

lemma cpu_process_frame:
  assumes "cpu_process j s p t = Some u"
  shows "p \<noteq> P_mext_seq \<Longrightarrow> cpu_mext u = cpu_mext t" "p \<noteq> P_next_pc_seq \<Longrightarrow> cpu_fetch_pc u = cpu_fetch_pc t"
    "p \<noteq> P_dmem_req_seq \<Longrightarrow> cpu_dmmu u = cpu_dmmu t" "p \<noteq> P_imem_req_seq \<Longrightarrow> cpu_immu u = cpu_immu t"
    "p \<noteq> P_get_inst_seq \<Longrightarrow> cpu_fetch u = cpu_fetch t" "p \<noteq> P_inst_decode_seq \<Longrightarrow> cpu_decode u = cpu_decode t"
    "p \<noteq> P_write_seq \<Longrightarrow> cpu_regs u = cpu_regs t"
    "cpu_if_id_accept u = cpu_if_id_accept t" "cpu_dmmu_to_ex u = cpu_dmmu_to_ex t"
  using assms by (cases p; auto simp: Let_def case_prod_beta)+

text \<open>The execute stage is written by four processes; \<open>wb_part\<close> is what \<^verbatim>\<open>writeback_seq\<close> writes,
  \<open>seq_part\<close> what \<^verbatim>\<open>exec_seq\<close> writes besides the counters and the time, and \<open>comb_part\<close> what only the falling edge writes.\<close>

definition wb_part :: "EXEC \<Rightarrow> bool \<times> u32 \<times> u8 \<times> bool \<times> u32" where
  "wb_part x = (wb_write_rd x, wb_rd_val x, wb_rd x, wb_stall x, ex_pc x)"

definition seq_part :: "EXEC \<Rightarrow> u32 \<times> PMP \<times> csr_file" where
  "seq_part x = (x_priv x, x_pmp x, \<lambda>a. if a \<in> set volatile_csrs then 0 else x_csr x a)"

definition comb_part :: "EXEC \<Rightarrow> bool \<times> DMEM_IN \<times> u32" where
  "comb_part x = (c_mext_req (x_comb x), ex_to_dmmu x, x_entry x)"

lemmas exec_parts = wb_part_def seq_part_def comb_part_def

lemma cpu_process_exec_frame:
  assumes "cpu_process j s p t = Some u"
  shows "p \<noteq> P_writeback_seq \<Longrightarrow> wb_part (cpu_exec u) = wb_part (cpu_exec t)"
    "p \<noteq> P_exec_seq \<Longrightarrow> seq_part (cpu_exec u) = seq_part (cpu_exec t)"
    "comb_part (cpu_exec u) = comb_part (cpu_exec t)"
  using assms by (cases p; auto simp: Let_def case_prod_beta exec_parts set_tlb_def)+

text \<open>What a process writes it writes from the signals before the edge, whatever ran before it.\<close>

lemma machine_field:
  assumes "run_processes (machine_step i s) ps s0 = Some u" and "schedule ps"
    and own: "\<And>m t c. cpu_process (cpu_ports i s m) (m_cpu s) p t = Some c \<Longrightarrow> P (f c)"
    and other: "\<And>m q t c. q \<noteq> p \<Longrightarrow> cpu_process (cpu_ports i s m) (m_cpu s) q t = Some c \<Longrightarrow> f c = f t"
  shows "P (f (m_cpu u))"
proof (rule run_processes_field [OF assms(1), where f = "\<lambda>u. f (m_cpu u)" and p = "CPU_process p"])
  show "CPU_process p \<in> set ps"
    using assms(2) by (cases p) (simp_all add: schedule_def all_processes_def)
next
  fix t u assume "machine_step i s (CPU_process p) t = Some u"
  then show "P (f (m_cpu u))"
    using own by (auto simp: machine_step_CPU)
next
  fix q t u assume q: "q \<noteq> CPU_process p" "machine_step i s q t = Some u"
  show "f (m_cpu u) = f (m_cpu t)"
  proof (cases q)
    case (CPU_process r)
    then show ?thesis
      using q other by (auto simp: machine_step_CPU)
  qed (use q machine_step_other [OF q(2)] in auto)
qed

lemma machine_kept_field:
  assumes "run_processes (machine_step i s) ps s0 = Some u"
    and "\<And>m q t c. cpu_process (cpu_ports i s m) (m_cpu s) q t = Some c \<Longrightarrow> f c = f t"
  shows "f (m_cpu u) = f (m_cpu s0)"
proof (rule run_processes_keep [OF assms(1), where f = "\<lambda>u. f (m_cpu u)"])
  fix q t u assume q: "machine_step i s q t = Some u"
  then show "f (m_cpu u) = f (m_cpu t)"
    using assms(2) machine_step_other [OF q] by (cases q) (auto simp: machine_step_CPU)
qed

text \<open>The state after the falling edge of a cycle.\<close>

definition fallen :: "MACHINE_IN \<Rightarrow> MACHINE \<Rightarrow> CPU" where
  "fallen i s = cpu_fall (cpu_ports i s (m_mem s)) (m_cpu s)"

definition cycle_exec_in :: "MACHINE_IN \<Rightarrow> MACHINE \<Rightarrow> EXEC_IN" where
  "cycle_exec_in i s = exec_ports (cpu_ports i s (m_mem s)) (m_cpu s)"

text \<open>The execute stage before the edge, with the outputs of the falling edge.\<close>

abbreviation stage :: "MACHINE_IN \<Rightarrow> MACHINE \<Rightarrow> EXEC" where
  "stage i s \<equiv> exec_comb (cycle_exec_in i s) (cpu_exec (m_cpu s))"

lemma fallen_simps [simp]:
  "cpu_exec (fallen i s) = stage i s" "cpu_mext (fallen i s) = cpu_mext (m_cpu s)"
  "cpu_fetch_pc (fallen i s) = cpu_fetch_pc (m_cpu s)" "cpu_dmmu (fallen i s) = cpu_dmmu (m_cpu s)"
  "cpu_immu (fallen i s) = cpu_immu (m_cpu s)" "cpu_fetch (fallen i s) = cpu_fetch (m_cpu s)"
  "cpu_decode (fallen i s) = cpu_decode (m_cpu s)" "cpu_regs (fallen i s) = cpu_regs (m_cpu s)"
  by (simp_all add: fallen_def cycle_exec_in_def)

definition decode_in :: "MACHINE_IN \<Rightarrow> MACHINE \<Rightarrow> DECODE_IN" where
  "decode_in i s = decode_ports (cpu_ports i s (m_mem s)) (fallen i s)"

definition fetch_in :: "MACHINE_IN \<Rightarrow> MACHINE \<Rightarrow> FETCH_IN" where
  "fetch_in i s = fetch_ports (cpu_ports i s (m_mem s)) (fallen i s)"

definition dmmu_in :: "MACHINE_IN \<Rightarrow> MACHINE \<Rightarrow> EXEC \<Rightarrow> DMMU_IN" where
  "dmmu_in i s y = dmmu_ports (cpu_ports i s (m_mem s)) (fallen i s) y"

definition immu_in :: "MACHINE_IN \<Rightarrow> MACHINE \<Rightarrow> EXEC \<Rightarrow> IMMU_IN" where
  "immu_in i s y = immu_ports (cpu_ports i s (m_mem s)) (fallen i s) y"

lemma answer_frame:
  "answer_fetch s t = Some u \<Longrightarrow> m_cpu u = m_cpu t \<and> m_dout u = m_dout t"
  "answer_data s t = Some u \<Longrightarrow> m_cpu u = m_cpu t \<and> m_iout u = m_iout t"
  by (auto simp: answer_fetch_def answer_data_def Let_def bind_eq_Some_conv split: if_splits)

definition data_answered :: "MACHINE \<Rightarrow> MACHINE \<Rightarrow> bool" where
  "data_answered s t \<longleftrightarrow>
     dmmu_to_mem (cpu_dmmu (m_cpu t)) = dmmu_to_mem (cpu_dmmu (m_cpu s)) \<and> m_dout t = m_dout s \<or>
     (\<exists>m m'. mem_access (dmmu_to_mem (cpu_dmmu (m_cpu t))) m = Some (m_dout t, m'))"

lemma answer_data_answered: "answer_data s t = Some u \<Longrightarrow> m_dout t = m_dout s \<Longrightarrow> data_answered s u"
  by (auto simp: answer_data_def data_answered_def Let_def bind_eq_Some_conv split: if_splits)

lemma machine_step_outs: "machine_step i s p t = Some u \<Longrightarrow> m_dout u = m_dout t \<and> m_iout u = m_iout t"
  by (cases p) (auto simp: platform_process_def Let_def)

text \<open>The phases of a cycle: the falling edge \<open>f\<close>, the rising edge \<open>e\<close>, the memory's answers \<open>u\<close> and
  the answers of the MMU.\<close>

lemma cycle_split:
  assumes "machine_cycle i s = Some t"
  obtains f e u where "f = s\<lparr>m_cpu := fallen i s, m_shared := mi_shared i\<rparr>"
    and "run_processes (machine_step i f) (mi_order i) f = Some e"
    and "(\<exists>t1. answer_fetch f e = Some t1 \<and> answer_data f t1 = Some u) \<or>
         (\<exists>t1. answer_data f e = Some t1 \<and> answer_fetch f t1 = Some u)"
    and "t = u\<lparr>m_cpu := cpu_settle (cpu_ports i u (m_mem u)) (m_cpu u)\<rparr>"
proof -
  define f where "f = s\<lparr>m_cpu := fallen i s, m_shared := mi_shared i\<rparr>"
  show thesis
    using assms that [OF f_def] unfolding machine_cycle_def Let_def fallen_def [symmetric] f_def [symmetric]
    by (auto simp: bind_eq_Some_conv split: if_splits)
qed

lemma cycle_edge:
  assumes "machine_cycle i s = Some t"
  obtains f e where "f = s\<lparr>m_cpu := fallen i s, m_shared := mi_shared i\<rparr>"
    and "run_processes (machine_step i f) (mi_order i) f = Some e"
    and "m_cpu t = (m_cpu e)\<lparr>cpu_dmmu_to_ex := dmem_rsp_comb (ex_to_dmmu (cpu_exec (m_cpu e))) (m_dout t) (cpu_dmmu (m_cpu e)),
           cpu_immu := imem_rsp_comb (m_iout t) (cpu_immu (m_cpu e))\<rparr>"
    and "data_answered s t"
proof -
  obtain f e u where f_def: "f = s\<lparr>m_cpu := fallen i s, m_shared := mi_shared i\<rparr>"
    and e: "run_processes (machine_step i f) (mi_order i) f = Some e"
    and u: "(\<exists>t1. answer_fetch f e = Some t1 \<and> answer_data f t1 = Some u) \<or>
         (\<exists>t1. answer_data f e = Some t1 \<and> answer_fetch f t1 = Some u)"
    and t: "t = u\<lparr>m_cpu := cpu_settle (cpu_ports i u (m_mem u)) (m_cpu u)\<rparr>"
    using cycle_split [OF assms] .
  have out: "m_dout e = m_dout f"
    using run_processes_keep [OF e, where f = m_dout] machine_step_outs by blast
  have "m_cpu u = m_cpu e \<and> data_answered f u"
    using u
  proof (elim disjE exE conjE)
    fix t1 assume t1: "answer_fetch f e = Some t1" "answer_data f t1 = Some u"
    then have "data_answered f u"
      using answer_frame(1) out by (intro answer_data_answered [OF t1(2)]) simp
    then show ?thesis
      using answer_frame t1 by metis
  next
    fix t1 assume t1: "answer_data f e = Some t1" "answer_fetch f t1 = Some u"
    then have "data_answered f t1"
      using out by (intro answer_data_answered [OF t1(1)])
    then show ?thesis
      using answer_frame(1) [OF t1(2)] answer_frame(2) [OF t1(1)] by (simp add: data_answered_def)
  qed
  then have u: "m_cpu u = m_cpu e" and "data_answered f u"
    by simp_all
  then have du: "data_answered s u"
    by (simp add: data_answered_def f_def)
  have "data_answered s t"
    using du by (simp add: t data_answered_def cpu_settle_def)
  then show ?thesis
    using that [OF f_def e] u t by (simp add: cpu_settle_def cpu_ports_def)
qed

lemma exec_seq_ports:
  assumes "cpu_process (cpu_ports i f m) (fallen i s) P_exec_seq t = Some c"
  shows "seq_part (cpu_exec c) = seq_part (exec_seq (cycle_exec_in i s) (stage i s))"
proof -
  let ?j = "exec_ports (cpu_ports i f m) (fallen i s)" and ?x = "stage i s"
  have "seq_core ?j ?x = seq_core (cycle_exec_in i s) ?x"
    by (simp add: seq_core_def cycle_exec_in_def Let_def)
  then have "seq_part (exec_seq ?j ?x) = seq_part (exec_seq (cycle_exec_in i s) ?x)"
    using exec_seq_core by (simp add: seq_part_def cong: if_cong)
  moreover have "seq_part (cpu_exec c) = seq_part (exec_seq ?j ?x)"
    using assms by (auto simp: Let_def seq_part_def)
  ultimately show ?thesis
    by simp
qed

lemma cycle_modules:
  assumes cycle: "machine_cycle i s = Some t" and "schedule (mi_order i)"
  shows cycle_decode: "cpu_decode (m_cpu t) = inst_decode_seq (decode_in i s) (cpu_decode (m_cpu s))"
    and cycle_fetch: "cpu_fetch (m_cpu t) = get_inst_seq (fetch_in i s) (cpu_fetch (m_cpu s))"
    and cycle_mext: "cpu_mext (m_cpu t) =
           mext_seq (c_mext_req (x_comb (stage i s))) (cpu_id_ex (m_cpu s)) (cpu_mext (m_cpu s))"
    and cycle_fetch_pc: "cpu_fetch_pc (m_cpu t) = next_pc_seq (mi_rst i) (ex_flush (stage i s)) (ex_branch_taken (stage i s))
           (cpu_if_id_accept (fallen i s)) (ex_npc (stage i s)) (cpu_fetch_pc (m_cpu s))"
    and cycle_regs: "write_seq (wb_write_rd (cpu_exec (m_cpu s))) (wb_rd (cpu_exec (m_cpu s)))
           (wb_rd_val (cpu_exec (m_cpu s))) (cpu_regs (m_cpu s)) = Some (cpu_regs (m_cpu t))"
    and cycle_wb: "wb_part (cpu_exec (m_cpu t)) = wb_part (writeback_seq (cycle_exec_in i s) (stage i s))"
    and cycle_comb: "comb_part (cpu_exec (m_cpu t)) = comb_part (stage i s)"
    and cycle_priv: "seq_part (cpu_exec (m_cpu t)) = seq_part (exec_seq (cycle_exec_in i s) (stage i s))"
proof -
  obtain f e where f: "f = s\<lparr>m_cpu := fallen i s, m_shared := mi_shared i\<rparr>"
    and e: "run_processes (machine_step i f) (mi_order i) f = Some e"
    and t: "m_cpu t = (m_cpu e)\<lparr>cpu_dmmu_to_ex := dmem_rsp_comb (ex_to_dmmu (cpu_exec (m_cpu e))) (m_dout t) (cpu_dmmu (m_cpu e)),
           cpu_immu := imem_rsp_comb (m_iout t) (cpu_immu (m_cpu e))\<rparr>"
    using cycle_edge [OF cycle] .
  note field = machine_field [OF e assms(2)] and frame = cpu_process_frame cpu_process_exec_frame
  have in_eq: "decode_ports (cpu_ports i f m) (fallen i s) = decode_in i s"
    "fetch_ports (cpu_ports i f m) (fallen i s) = fetch_in i s" for m
    by (simp_all add: decode_in_def fetch_in_def decode_ports_def fetch_ports_def cpu_ports_def)
  have fm: "m_cpu f = fallen i s"
    by (simp add: f)
  show "cpu_decode (m_cpu t) = inst_decode_seq (decode_in i s) (cpu_decode (m_cpu s))"
    by (simp add: t) (rule field [where f = cpu_decode and p = P_inst_decode_seq]; use frame in \<open>auto simp: fm in_eq\<close>)
  show "cpu_fetch (m_cpu t) = get_inst_seq (fetch_in i s) (cpu_fetch (m_cpu s))"
    by (simp add: t) (rule field [where f = cpu_fetch and p = P_get_inst_seq]; use frame in \<open>auto simp: fm in_eq\<close>)
  show "cpu_mext (m_cpu t) = mext_seq (c_mext_req (x_comb (stage i s))) (cpu_id_ex (m_cpu s)) (cpu_mext (m_cpu s))"
    by (simp add: t del: exec_comb_frame) (rule field [where f = cpu_mext and p = P_mext_seq]; use frame in \<open>auto simp: fm\<close>)
  show "cpu_fetch_pc (m_cpu t) = next_pc_seq (mi_rst i) (ex_flush (stage i s)) (ex_branch_taken (stage i s))
      (cpu_if_id_accept (fallen i s)) (ex_npc (stage i s)) (cpu_fetch_pc (m_cpu s))"
    by (simp add: t) (rule field [where f = cpu_fetch_pc and p = P_next_pc_seq];
        use frame in \<open>auto simp: fm Let_def cpu_ports_def\<close>)
  show "write_seq (wb_write_rd (cpu_exec (m_cpu s))) (wb_rd (cpu_exec (m_cpu s))) (wb_rd_val (cpu_exec (m_cpu s)))
      (cpu_regs (m_cpu s)) = Some (cpu_regs (m_cpu t))"
    by (simp add: t) (rule field [where f = cpu_regs and p = P_write_seq]; use frame in \<open>auto simp: fm Let_def\<close>)
  have "wb_part (cpu_exec (m_cpu e)) = wb_part (writeback_seq (cycle_exec_in i s) (stage i s))"
    by (rule field [where f = "\<lambda>c. wb_part (cpu_exec c)" and p = P_writeback_seq];
        use frame in \<open>auto simp: fm Let_def exec_parts writeback_seq_def cycle_exec_in_def exec_ports_def cpu_ports_def\<close>)
  then show "wb_part (cpu_exec (m_cpu t)) = wb_part (writeback_seq (cycle_exec_in i s) (stage i s))"
    by (simp add: t)
  have "comb_part (cpu_exec (m_cpu e)) = comb_part (cpu_exec (m_cpu f))"
    by (rule machine_kept_field [OF e, where f = "\<lambda>c. comb_part (cpu_exec c)"]) (rule frame)
  then show "comb_part (cpu_exec (m_cpu t)) = comb_part (stage i s)"
    by (simp add: t fm)
  have "seq_part (cpu_exec (m_cpu e)) = seq_part (exec_seq (cycle_exec_in i s) (stage i s))"
    by (rule field [where f = "\<lambda>c. seq_part (cpu_exec c)" and p = P_exec_seq]) (simp add: fm exec_seq_ports, rule frame)
  then show "seq_part (cpu_exec (m_cpu t)) = seq_part (exec_seq (cycle_exec_in i s) (stage i s))"
    by (simp add: t)
qed

lemma cycle_memory:
  assumes cycle: "machine_cycle i s = Some t" and "schedule (mi_order i)"
  shows cycle_dmmu: "\<exists>junk y tlb. cpu_dmmu (m_cpu t) = fst (dmem_req_seq junk (dmmu_in i s y) (cpu_dmmu (m_cpu s)) tlb)"
    and cycle_immu: "\<exists>junk y tlb. cpu_immu (m_cpu t) =
           imem_rsp_comb (m_iout t) (fst (imem_req_seq junk (immu_in i s y) (cpu_immu (m_cpu s)) tlb))"
    and cycle_rsp: "cpu_dmmu_to_ex (m_cpu t) = dmem_rsp_comb (ex_to_dmmu (stage i s)) (m_dout t) (cpu_dmmu (m_cpu t))"
    and cycle_dout: "data_answered s t"
proof -
  obtain f e where f: "f = s\<lparr>m_cpu := fallen i s, m_shared := mi_shared i\<rparr>"
    and e: "run_processes (machine_step i f) (mi_order i) f = Some e"
    and t: "m_cpu t = (m_cpu e)\<lparr>cpu_dmmu_to_ex := dmem_rsp_comb (ex_to_dmmu (cpu_exec (m_cpu e))) (m_dout t) (cpu_dmmu (m_cpu e)),
           cpu_immu := imem_rsp_comb (m_iout t) (cpu_immu (m_cpu e))\<rparr>"
    and "data_answered s t"
    using cycle_edge [OF cycle] .
  then show "data_answered s t"
    by simp
  note field = machine_field [OF e assms(2)] and frame = cpu_process_frame
  have in_eq: "dmmu_ports (cpu_ports i f m) (fallen i s) y = dmmu_in i s y"
    "immu_ports (cpu_ports i f m) (fallen i s) y = immu_in i s y" for m y
    by (simp_all add: dmmu_in_def immu_in_def dmmu_ports_def immu_ports_def cpu_ports_def f)
  have fm: "m_cpu f = fallen i s"
    by (simp add: f)
  have "\<exists>junk y tlb. cpu_dmmu (m_cpu e) = fst (dmem_req_seq junk (dmmu_in i s y) (cpu_dmmu (m_cpu s)) tlb)"
  proof (rule field [where f = cpu_dmmu and p = P_dmem_req_seq])
    fix m t c assume "cpu_process (cpu_ports i f m) (m_cpu f) P_dmem_req_seq t = Some c"
    then have "cpu_dmmu c = fst (dmem_req_seq (mi_djunk i) (dmmu_in i s (cpu_exec t)) (cpu_dmmu (m_cpu s)) (c_tlb (x_comb (cpu_exec t))))"
      by (auto simp: fm case_prod_beta in_eq Let_def) (simp add: cpu_ports_def)
    then show "\<exists>junk y tlb. cpu_dmmu c = fst (dmem_req_seq junk (dmmu_in i s y) (cpu_dmmu (m_cpu s)) tlb)"
      by blast
  qed (rule frame)
  then show "\<exists>junk y tlb. cpu_dmmu (m_cpu t) = fst (dmem_req_seq junk (dmmu_in i s y) (cpu_dmmu (m_cpu s)) tlb)"
    by (simp add: t)
  have "\<exists>junk y tlb. cpu_immu (m_cpu e) = fst (imem_req_seq junk (immu_in i s y) (cpu_immu (m_cpu s)) tlb)"
  proof (rule field [where f = cpu_immu and p = P_imem_req_seq])
    fix m t c assume "cpu_process (cpu_ports i f m) (m_cpu f) P_imem_req_seq t = Some c"
    then have "cpu_immu c = fst (imem_req_seq (mi_ijunk i) (immu_in i s (cpu_exec t)) (cpu_immu (m_cpu s)) (c_tlb (x_comb (cpu_exec t))))"
      by (auto simp: fm case_prod_beta in_eq Let_def) (simp add: cpu_ports_def)
    then show "\<exists>junk y tlb. cpu_immu c = fst (imem_req_seq junk (immu_in i s y) (cpu_immu (m_cpu s)) tlb)"
      by blast
  qed (rule frame)
  then show "\<exists>junk y tlb. cpu_immu (m_cpu t) =
      imem_rsp_comb (m_iout t) (fst (imem_req_seq junk (immu_in i s y) (cpu_immu (m_cpu s)) tlb))"
    by (simp add: t) metis
  have "comb_part (cpu_exec (m_cpu t)) = comb_part (stage i s)"
    by (rule cycle_modules [OF assms])
  then show "cpu_dmmu_to_ex (m_cpu t) = dmem_rsp_comb (ex_to_dmmu (stage i s)) (m_dout t) (cpu_dmmu (m_cpu t))"
    by (simp add: t comb_part_def)
qed

subsection \<open>What the execute stage asks for\<close>

definition rsp_ok :: "MMU_RSP \<Rightarrow> bool" where
  "rsp_ok r \<longleftrightarrow> (mmu_rsp_fault r \<noteq> 0 \<longrightarrow> mmu_rsp_ack r)"

lemma rsp_ok_dmem: "rsp_ok (dmem_rsp_comb req rsp s)"
  by (auto simp: rsp_ok_def dmem_rsp_comb_def MMU_RSP_ctor_def Let_def)

text \<open>A stage that stalls does nothing else; only a multiplication or division, a memory access and
  WFI stall.\<close>

definition idle_comb :: "COMB \<Rightarrow> bool" where
  "idle_comb c \<longleftrightarrow> \<not> c_on_trap c \<and> \<not> c_flush c \<and> \<not> c_csr_sret c \<and> \<not> c_csr_mret c"

definition stall_types :: "InstrType list" where
  "stall_types = I_WFI # mext_types @ mem_types"

lemma ex_parts_stall:
  assumes "idle_comb c" and "\<not> c_stall c"
  shows "c_stall (ex_mext i s c) \<longrightarrow> idle_comb (ex_mext i s c)"
    "rsp_ok (xi_dmmu_to_ex i) \<Longrightarrow> c_stall (ex_mem i s c) \<longrightarrow> idle_comb (ex_mem i s c)"
    "\<not> c_stall (ex_jump d tg c)" "\<not> c_stall (ex_branch d tk c)"
    "c_stall (ex_system i s c) \<longrightarrow> idle_comb (ex_system i s c) \<and> ie_type (xi_id_ex i) = I_WFI"
    "\<not> c_stall (ex_csr i s c)"
  using assms
  by (simp_all add: idle_comb_def ex_mext_def ex_mem_def rsp_ok_def ex_jump_def ex_branch_def go_to_def ex_system_def
      raise_illegal_def ex_csr_def csr_read_def counter_read_def Let_def) blast

lemma ex_instr_stall:
  assumes "idle_comb c" and "\<not> c_stall c" and "rsp_ok (xi_dmmu_to_ex i)" and "c_stall (ex_instr i s c)"
  shows "idle_comb (ex_instr i s c) \<and> ie_type (xi_id_ex i) \<in> set stall_types"
proof -
  note parts = ex_parts_stall [OF assms(1,2)]
  show ?thesis
    using assms(2,4) parts(1,3,4,5,6) parts(2) [OF assms(3)]
    by (auto simp: ex_instr_def stall_types_def Let_def split: if_splits option.splits)
qed

lemma dispatch_stall:
  assumes "c_stall (exec_dispatch i s (comb_init i s))" and "rsp_ok (xi_dmmu_to_ex i)"
  shows "idle_comb (exec_dispatch i s (comb_init i s)) \<and> executes i s \<and> ie_type (xi_id_ex i) \<in> set stall_types"
proof -
  have "\<not> c_stall (comb_init i s)"
    by (simp add: comb_init_def Let_def)
  then have ex: "executes i s"
    using assms(1) by (auto simp: exec_dispatch_def executes_def Let_def split: if_splits option.splits)
  then have "c_stall (ex_instr i s (comb_exec i s))"
    using assms(1) by (simp add: dispatch_executes)
  moreover have "idle_comb (comb_exec i s)" "\<not> c_stall (comb_exec i s)"
    by (simp_all add: idle_comb_def)
  ultimately have "idle_comb (ex_instr i s (comb_exec i s)) \<and> ie_type (xi_id_ex i) \<in> set stall_types"
    using ex_instr_stall assms(2) by blast
  then show ?thesis
    using ex by (simp add: dispatch_executes)
qed

lemma stage_stall:
  assumes "ex_stall (exec_comb i s)" and "rsp_ok (xi_dmmu_to_ex i)"
  shows "executes i s" and "ie_type (xi_id_ex i) \<in> set stall_types" and "\<not> ex_flush (exec_comb i s)"
    and "ex_npc (exec_comb i s) = ex_pc s" and "\<not> ex_write_rd (exec_comb i s)"
  using dispatch_stall [OF _ assms(2), of s] assms(1)
  by (simp_all add: exec_comb_def exec_outputs_def idle_comb_def Let_def)

lemma req_parts:
  "c_req (ex_mext i s c) = c_req c" "c_req (ex_jump d tg c) = c_req c" "c_req (ex_branch d tk c) = c_req c"
  "c_req (ex_system i s c) = c_req c" "c_req (ex_csr i s c) = c_req c"
  "c_mext_req (ex_mem i s c) = c_mext_req c" "c_mext_req (ex_jump d tg c) = c_mext_req c"
  "c_mext_req (ex_branch d tk c) = c_mext_req c" "c_mext_req (ex_system i s c) = c_mext_req c"
  "c_mext_req (ex_csr i s c) = c_mext_req c"
  by (simp_all add: ex_mext_def ex_mem_def ex_jump_def ex_branch_def go_to_def ex_system_def raise_illegal_def ex_csr_def
      csr_read_def counter_read_def Let_def)

text \<open>Only a memory instruction in its first cycle asks the MMU, only a multiplication or division
  in its first cycle asks the multiplier.\<close>

lemma dispatch_not_executes:
  assumes "\<not> executes i s"
  shows "dmem_req_ack (c_req (exec_dispatch i s (comb_init i s))) = False"
    and "c_mext_req (exec_dispatch i s (comb_init i s)) = c_mext_req (x_comb s)"
  using assms by (auto simp: exec_dispatch_def executes_def comb_init_def DMEM_IN_ctor_def Let_def split: option.split)

lemma stage_request:
  assumes "dmem_req_ack (ex_to_dmmu (exec_comb i s))"
  shows "executes i s \<and> ie_type (xi_id_ex i) \<in> set mem_types \<and> \<not> wb_stall s"
proof -
  have "dmem_req_ack (c_req (exec_dispatch i s (comb_init i s)))"
    using assms by (simp add: exec_comb_def exec_outputs_def Let_def)
  moreover from this have ex: "executes i s"
    using dispatch_not_executes(1) [of i s] by blast
  ultimately have req: "dmem_req_ack (c_req (ex_instr i s (comb_exec i s)))"
    by (simp add: dispatch_executes)
  then have "ie_type (xi_id_ex i) \<in> set mem_types"
    by (auto simp: ex_instr_def req_parts Let_def split: if_splits option.splits)
  then show ?thesis
    using ex req by (simp add: ex_instr_groups ex_mem_def Let_def)
qed

lemma stage_mext_request:
  "c_mext_req (x_comb (exec_comb i s)) =
     (if executes i s \<and> ie_type (xi_id_ex i) \<in> set mext_types then \<not> wb_stall s else c_mext_req (x_comb s))"
proof (cases "executes i s")
  case True
  then show ?thesis
    by (simp add: dispatch_executes ex_instr_groups ex_mext_def)
      (simp add: ex_instr_def req_parts Let_def split: option.split)
qed (simp add: dispatch_not_executes)

lemma stage_groups:
  assumes "executes i s"
  shows "ie_type (xi_id_ex i) \<in> set mem_types \<Longrightarrow>
      ex_stall (exec_comb i s) = (\<not> mmu_rsp_ack (xi_dmmu_to_ex i)) \<and>
      ex_flush (exec_comb i s) = (mmu_rsp_fault (xi_dmmu_to_ex i) \<noteq> 0)"
    and "ie_type (xi_id_ex i) \<in> set mext_types \<Longrightarrow>
      ex_stall (exec_comb i s) = (\<not> xi_mext_rsp_ack i) \<and> \<not> ex_flush (exec_comb i s)"
  using assms by (simp_all add: exec_comb_executes ex_instr_groups exec_outputs_def ex_mem_def ex_mext_def Let_def)

lemma stage_reset:
  assumes "xi_rst i"
  shows "\<not> ex_stall (exec_comb i s)" "\<not> ex_flush (exec_comb i s)" "ex_npc (exec_comb i s) = x_entry s"
    "ex_write_rd (exec_comb i s) = ie_writes_rd (xi_id_ex i)"
  using assms by (simp_all add: exec_comb_def exec_outputs_def exec_dispatch_def comb_init_def Let_def)

subsection \<open>What the data port answers\<close>

definition quiet_dmmu :: "DMMU \<Rightarrow> bool" where
  "quiet_dmmu d \<longleftrightarrow> d_state d = 0 \<and> \<not> d_page_fault d \<and> \<not> d_pmp_fault d \<and> \<not> d_misaligned_fault d \<and>
     \<not> dmem_req_ack (dmmu_to_mem d)"

lemma quiet_check:
  assumes "\<not> dmem_req_ack (d_mmu_mem d)" and "d_state d = 0" and "\<not> d_page_fault d"
  shows "quiet_dmmu (dmem_check x d)"
  using assms by (simp add: quiet_dmmu_def dmem_check_def Let_def)

lemma dmmu_quiet:
  assumes "dm_rst j \<or> dm_flush j \<or> d_state d = 0 \<and> \<not> dmem_req_ack (dm_req j) \<or> d_state d = 3 \<and> mem_rsp_ack (dm_rsp j)"
  shows "quiet_dmmu (fst (dmem_req_seq junk j d tlb))"
proof -
  have "\<not> dmem_req_ack (d_mmu_mem d') \<and> d_state d' = 0 \<and> \<not> d_page_fault d'"
    if "d' = fst (dmem_step junk j d tlb)" for d'
    using assms that by (auto simp: dmem_step_def dmem_reset_def dmem_idle_def no_req_def Let_def)
  then show ?thesis
    by (simp add: dmem_req_seq_def case_prod_beta quiet_check)
qed

lemma quiet_answer:
  "quiet_dmmu d \<Longrightarrow> \<not> mmu_rsp_ack (dmem_rsp_comb req MEM_OUT_ctor d)"
  by (simp add: quiet_dmmu_def dmem_rsp_comb_def MMU_RSP_ctor_def MEM_OUT_ctor_def Let_def)

lemma answer_without_fault:
  assumes "mmu_rsp_ack (dmem_rsp_comb req rsp d)" and "mmu_rsp_fault (dmem_rsp_comb req rsp d) = 0"
  shows "d_state d = 3 \<and> mem_rsp_ack rsp"
  using assms by (auto simp: dmem_rsp_comb_def MMU_RSP_ctor_def Let_def split: if_splits)

subsection \<open>What the decoder hands on\<close>

definition reads_ok :: "(u8 \<Rightarrow> u32) \<Rightarrow> u32 \<Rightarrow> ID_EX \<Rightarrow> bool" where
  "reads_ok f pc d \<longleftrightarrow> ie_rs1_val d = f (ie_rs1 d) \<and> ie_rs2_val d = f (ie_rs2 d) \<and> ie_pc d = pc"

lemma reads_ok_groups:
  assumes "reads_ok f pc d"
  shows "reads_ok f pc (dec_op_imm w d)" "reads_ok f pc (dec_op w d)" "reads_ok f pc (dec_load w d)"
    "reads_ok f pc (dec_store w d)" "reads_ok f pc (dec_jal w d)" "reads_ok f pc (dec_jalr w d)"
    "reads_ok f pc (dec_branch w d)" "reads_ok f pc (dec_csr w d)" "reads_ok f pc (dec_fence w d)"
    "reads_ok f pc (dec_amo w d)" "reads_ok f pc (dec_system w d)"
  using assms
  by (simp_all add: reads_ok_def dec_op_imm_def dec_op_def dec_load_def dec_store_def dec_jal_def
      dec_jalr_def dec_branch_def dec_csr_def dec_fence_def dec_amo_def dec_system_def Let_def)

lemma reads_ok_decode: "reads_ok (operand i) (di_if_id_pc i) (decode i w)"
proof -
  have "reads_ok (operand i) (di_if_id_pc i) (dec_common i w)"
    by (simp add: reads_ok_def dec_common_def Let_def)
  then show ?thesis
    using reads_ok_groups [of "operand i" "di_if_id_pc i" "dec_common i w"]
    by (simp add: decode_def Let_def) (simp add: reads_ok_def)
qed

lemma decompress_pc:
  assumes "ie_pc d = pc"
  shows "ie_pc (decompress_q0 w d) = pc" "ie_pc (decompress_q1 w d) = pc" "ie_pc (decompress_q2 w d) = pc"
  using assms
  by (simp_all add: decompress_q0_def decompress_q1_def decompress_q2_def decompress_alu_def decompress_jump_def
      illegal_def Let_def)

lemma reads_ok_decompress: "reads_ok (operand i) (di_if_id_pc i) (decompress i w)"
  using decompress_pc [of "ID_EX_ctor\<lparr>ie_inst := w, ie_is_compressed := True, ie_pc := di_if_id_pc i\<rparr>" "di_if_id_pc i" w]
  by (simp add: decompress_def reads_ok_def Let_def)

definition empty_slot :: ID_EX where
  "empty_slot = ID_EX_ctor\<lparr>ie_flush := True\<rparr>"

lemma id_ex_tmp_cases:
  assumes "\<not> di_stall i"
  shows "id_ex_tmp i = empty_slot \<or>
     \<not> di_rst i \<and> \<not> di_flush i \<and> di_npc i = di_if_id_pc i \<and> \<not> ie_flush (id_ex_tmp i) \<and>
     reads_ok (operand i) (di_npc i) (id_ex_tmp i)"
proof -
  have "reads_ok f pc d \<Longrightarrow> reads_ok f pc ((decode_fault i d)\<lparr>ie_flush := False\<rparr>)" for f pc d
    by (simp add: decode_fault_def reads_ok_def Let_def)
  then show ?thesis
    using assms reads_ok_decode [of i] reads_ok_decompress [of i]
    by (auto simp: id_ex_tmp_def empty_slot_def Let_def)
qed

subsection \<open>The hand-shakes of the pipeline\<close>

text \<open>The register file once the instruction in write-back has been written: the registers as the
  program sees them when the instruction in the execute stage starts.\<close>

definition arch_regs :: "CPU \<Rightarrow> regs" where
  "arch_regs c =
     (let x = cpu_exec c
      in if wb_write_rd x \<and> wb_rd x \<noteq> 0 then (cpu_regs c)[unat (wb_rd x) := wb_rd_val x] else cpu_regs c)"

text \<open>The instruction is one of the given types and waits for an answer.\<close>

definition waits :: "InstrType list \<Rightarrow> CPU \<Rightarrow> bool" where
  "waits ts c \<longleftrightarrow> wb_stall (cpu_exec c) \<and> \<not> ie_flush (cpu_id_ex c) \<and> \<not> ie_on_trap (cpu_id_ex c) \<and>
     ie_type (cpu_id_ex c) \<in> set ts"

definition pc_ok :: "CPU \<Rightarrow> bool" where
  "pc_ok c \<longleftrightarrow> cpu_id_ex c = empty_slot \<or>
     \<not> ie_flush (cpu_id_ex c) \<and> reads_ok (\<lambda>r. arch_regs c ! unat r) (ex_pc (cpu_exec c)) (cpu_id_ex c)"

definition data_ok :: "MACHINE \<Rightarrow> bool" where
  "data_ok s \<longleftrightarrow>
     (let c = m_cpu s
      in (\<exists>req. cpu_dmmu_to_ex c = dmem_rsp_comb req (m_dout s) (cpu_dmmu c)) \<and>
         (\<not> dmem_req_ack (dmmu_to_mem (cpu_dmmu c)) \<longrightarrow> m_dout s = MEM_OUT_ctor) \<and>
         (d_state (cpu_dmmu c) \<noteq> 0 \<or> mmu_rsp_ack (cpu_dmmu_to_ex c) \<longrightarrow> waits mem_types c))"

definition mext_ok :: "CPU \<Rightarrow> bool" where
  "mext_ok c \<longleftrightarrow>
     (c_mext_req (x_comb (cpu_exec c)) \<longrightarrow> waits mext_types c) \<and>
     (mx_rsp_ack (cpu_mext c) \<longrightarrow> waits mext_types c \<and>
        mext_result (ie_type (cpu_id_ex c)) (ie_rs1_val (cpu_id_ex c)) (ie_rs2_val (cpu_id_ex c)) = Some (mx_result (cpu_mext c)))"

definition pipeline_ok :: "MACHINE \<Rightarrow> bool" where
  "pipeline_ok s \<longleftrightarrow> machine_ok s \<and> pc_ok (m_cpu s) \<and> data_ok s \<and> mext_ok (m_cpu s)"

text \<open>The states of the machine: under reset after power-on, then running.\<close>

inductive reachable :: "bool \<Rightarrow> MACHINE \<Rightarrow> bool" where
  power_on: "mem_safe m \<Longrightarrow> machine_power_on linux entry m sh tj ij fj = Some s \<Longrightarrow> reachable True s"
| cycle: "reachable r s \<Longrightarrow> (mi_rst i \<Longrightarrow> r) \<Longrightarrow> schedule (mi_order i) \<Longrightarrow> machine_cycle i s = Some t \<Longrightarrow>
    reachable (mi_rst i) t"

lemma cycle_exec_in_simps [simp]:
  "xi_id_ex (cycle_exec_in i s) = cpu_id_ex (m_cpu s)" "xi_rst (cycle_exec_in i s) = mi_rst i"
  "xi_dmmu_to_ex (cycle_exec_in i s) = cpu_dmmu_to_ex (m_cpu s)"
  "xi_mext_rsp_ack (cycle_exec_in i s) = mx_rsp_ack (cpu_mext (m_cpu s))"
  "xi_mext_result (cycle_exec_in i s) = mx_result (cpu_mext (m_cpu s))"
  by (simp_all add: cycle_exec_in_def exec_ports_def cpu_ports_def)

lemma waits_executes:
  assumes "waits ts (m_cpu s)" and "I_WFI \<notin> set ts" and "\<not> mi_rst i"
  shows "executes (cycle_exec_in i s) (cpu_exec (m_cpu s))"
  using assms by (auto simp: waits_def executes_def)

lemma not_wfi [simp]: "I_WFI \<notin> set mem_types" "I_WFI \<notin> set mext_types"
  by (simp_all add: type_groups)

lemma data_ok_rsp: "data_ok s \<Longrightarrow> rsp_ok (cpu_dmmu_to_ex (m_cpu s))"
  using rsp_ok_dmem by (auto simp: data_ok_def Let_def)

lemma decode_in_simps [simp]:
  "di_stall (decode_in i s) = ex_stall (stage i s)" "di_flush (decode_in i s) = ex_flush (stage i s)"
  "di_rst (decode_in i s) = mi_rst i" "di_npc (decode_in i s) = ex_npc (stage i s)"
  by (simp_all add: decode_in_def decode_ports_def cpu_ports_def Let_def del: exec_comb_frame)

lemma dmmu_in_simps [simp]:
  "dm_rst (dmmu_in i s y) = mi_rst i" "dm_flush (dmmu_in i s y) = ex_flush (stage i s)"
  "dm_req (dmmu_in i s y) = ex_to_dmmu (stage i s)" "dm_rsp (dmmu_in i s y) = m_dout s"
  by (simp_all add: dmmu_in_def dmmu_ports_def cpu_ports_def del: exec_comb_frame)

text \<open>A stalled stage keeps its instruction.\<close>

lemma cycle_stalled:
  assumes "machine_cycle i s = Some t" and "schedule (mi_order i)" and "ex_stall (stage i s)"
    and "rsp_ok (cpu_dmmu_to_ex (m_cpu s))"
  shows "cpu_id_ex (m_cpu t) = cpu_id_ex (m_cpu s)" and "wb_stall (cpu_exec (m_cpu t))"
    and "ex_pc (cpu_exec (m_cpu t)) = ex_pc (cpu_exec (m_cpu s))" and "\<not> wb_write_rd (cpu_exec (m_cpu t))"
    and "\<not> mi_rst i"
proof -
  have rsp: "rsp_ok (xi_dmmu_to_ex (cycle_exec_in i s))"
    using assms(4) by simp
  note st = stage_stall [OF assms(3) rsp]
  show rst: "\<not> mi_rst i"
    using st(1) by (simp add: executes_def)
  show "cpu_id_ex (m_cpu t) = cpu_id_ex (m_cpu s)"
    using assms(3) by (simp add: cycle_decode [OF assms(1,2)] inst_decode_seq_def Let_def del: exec_comb_frame)
  show "wb_stall (cpu_exec (m_cpu t))" "ex_pc (cpu_exec (m_cpu t)) = ex_pc (cpu_exec (m_cpu s))"
    "\<not> wb_write_rd (cpu_exec (m_cpu t))"
    using cycle_wb [OF assms(1,2)] st(4,5) assms(3) rst
    by (simp_all add: wb_part_def writeback_seq_def del: exec_comb_frame)
qed

text \<open>The data port answers only the memory instruction that waits for it.\<close>

lemma mem_stall_waits:
  assumes "machine_cycle i s = Some t" "schedule (mi_order i)" and "data_ok s" and "executes (cycle_exec_in i s) (cpu_exec (m_cpu s))"
    and "ie_type (cpu_id_ex (m_cpu s)) \<in> set mem_types" and "\<not> mmu_rsp_ack (cpu_dmmu_to_ex (m_cpu s))"
  shows "waits mem_types (m_cpu t)"
proof -
  have "ex_stall (stage i s)"
    using stage_groups(1) [OF assms(4)] assms(5,6) by simp
  then show ?thesis
    using cycle_stalled [OF assms(1,2) _ data_ok_rsp [OF assms(3)]] assms(4,5) by (simp add: waits_def executes_def)
qed

lemma port_quiet_or_waits:
  assumes cycle: "machine_cycle i s = Some t" "schedule (mi_order i)" and ok: "data_ok s"
  shows "quiet_dmmu (cpu_dmmu (m_cpu t)) \<or> waits mem_types (m_cpu t)"
proof -
  let ?x = "cpu_exec (m_cpu s)" and ?d = "cpu_dmmu (m_cpu s)" and ?r = "cpu_dmmu_to_ex (m_cpu s)"
  obtain junk y tlb where d: "cpu_dmmu (m_cpu t) = fst (dmem_req_seq junk (dmmu_in i s y) ?d tlb)"
    using cycle_dmmu [OF cycle] by blast
  note quiet = dmmu_quiet [of "dmmu_in i s y" ?d junk tlb, folded d]
  consider "mi_rst i \<or> ex_flush (stage i s) \<or> d_state ?d = 0 \<and> \<not> dmem_req_ack (ex_to_dmmu (stage i s))"
    | "d_state ?d = 0" "dmem_req_ack (ex_to_dmmu (stage i s))"
    | "d_state ?d \<noteq> 0" "\<not> mi_rst i" "\<not> ex_flush (stage i s)"
    by blast
  then show ?thesis
  proof cases
    case 1
    then show ?thesis
      using quiet by auto
  next
    case 2
    then have "executes (cycle_exec_in i s) ?x \<and> ie_type (cpu_id_ex (m_cpu s)) \<in> set mem_types \<and> \<not> wb_stall ?x"
      using stage_request [of "cycle_exec_in i s" ?x] by simp
    moreover from this have "\<not> mmu_rsp_ack ?r"
      using ok by (auto simp: data_ok_def waits_def Let_def)
    ultimately show ?thesis
      using mem_stall_waits [OF cycle ok] by simp
  next
    case 3
    then have w: "waits mem_types (m_cpu s)"
      using ok by (simp add: data_ok_def Let_def)
    then have ex: "executes (cycle_exec_in i s) ?x" "ie_type (cpu_id_ex (m_cpu s)) \<in> set mem_types"
      using waits_executes [OF w] 3 by (simp_all add: waits_def)
    have "d_state ?d = 3 \<and> mem_rsp_ack (m_dout s)" if "mmu_rsp_ack ?r"
      using stage_groups(1) [OF ex(1)] ex(2) 3 ok that answer_without_fault by (auto simp: data_ok_def Let_def)
    then show ?thesis
      using quiet mem_stall_waits [OF cycle ok ex] by auto
  qed
qed

lemma data_ok_cycle:
  assumes cycle: "machine_cycle i s = Some t" "schedule (mi_order i)" and ok: "data_ok s"
  shows "data_ok t"
proof -
  have dout: "m_dout t = MEM_OUT_ctor" if "\<not> dmem_req_ack (dmmu_to_mem (cpu_dmmu (m_cpu t)))"
    using that cycle_dout [OF cycle] ok by (auto simp: data_answered_def data_ok_def mem_access_def Let_def)
  have "d_state (cpu_dmmu (m_cpu t)) \<noteq> 0 \<or> mmu_rsp_ack (cpu_dmmu_to_ex (m_cpu t)) \<longrightarrow> waits mem_types (m_cpu t)"
    using port_quiet_or_waits [OF assms] dout quiet_answer cycle_rsp [OF cycle] by (auto simp: quiet_dmmu_def)
  then show ?thesis
    using dout cycle_rsp [OF cycle] by (auto simp: data_ok_def Let_def)
qed

text \<open>The multiplier answers only the instruction that waits for it, with its product or quotient.\<close>

lemma mext_ok_cycle:
  assumes cycle: "machine_cycle i s = Some t" "schedule (mi_order i)" and ok: "mext_ok (m_cpu s)" "data_ok s"
    and rst: "mi_rst i \<Longrightarrow> cpu_id_ex (m_cpu s) = empty_slot"
  shows "mext_ok (m_cpu t)"
proof -
  let ?i = "cycle_exec_in i s" and ?x = "cpu_exec (m_cpu s)" and ?d = "cpu_id_ex (m_cpu s)"
  have req: "c_mext_req (x_comb (cpu_exec (m_cpu t))) = c_mext_req (x_comb (stage i s))"
    using cycle_comb [OF cycle] by (simp add: comb_part_def del: exec_comb_frame)
  have step: "waits mext_types (m_cpu t) \<and> ?d = cpu_id_ex (m_cpu t)" if "c_mext_req (x_comb (stage i s))"
  proof -
    have "executes ?i ?x \<and> ie_type ?d \<in> set mext_types" if w: "waits mext_types (m_cpu s)"
    proof -
      have "\<not> mi_rst i"
        using w rst by (auto simp: waits_def empty_slot_def)
      then show ?thesis
        using waits_executes [OF w] w by (simp add: waits_def)
    qed
    moreover have "executes ?i ?x \<and> ie_type ?d \<in> set mext_types \<or> waits mext_types (m_cpu s)"
      using that ok(1) unfolding stage_mext_request mext_ok_def by (simp split: if_splits)
    ultimately have ex: "executes ?i ?x" "ie_type ?d \<in> set mext_types"
      by blast+
    have "\<not> wb_stall ?x"
      using that ex unfolding stage_mext_request by simp
    then have "\<not> mx_rsp_ack (cpu_mext (m_cpu s))"
      using ok(1) by (auto simp: mext_ok_def waits_def)
    then have "ex_stall (stage i s)"
      using stage_groups(2) [OF ex(1)] ex(2) by simp
    then show ?thesis
      using cycle_stalled [OF cycle _ data_ok_rsp [OF ok(2)]] ex by (simp add: waits_def executes_def)
  qed
  have "mx_rsp_ack (cpu_mext (m_cpu t)) \<Longrightarrow> c_mext_req (x_comb (stage i s)) \<and>
      mext_result (ie_type ?d) (ie_rs1_val ?d) (ie_rs2_val ?d) = Some (mx_result (cpu_mext (m_cpu t)))"
    unfolding cycle_mext [OF cycle] by (auto simp: mext_seq_def simp del: exec_comb_frame split: if_splits option.splits)
  then show ?thesis
    using step req unfolding mext_ok_def by metis
qed

text \<open>The registers: what the write-back stage holds is written, and what the execute stage puts
  out comes to write-back.\<close>

lemma cycle_regs_arch:
  assumes "machine_cycle i s = Some t" and "schedule (mi_order i)"
  shows "cpu_regs (m_cpu t) = arch_regs (m_cpu s)"
  using cycle_regs [OF assms] by (auto simp: write_seq_def vset_def arch_regs_def Let_def split: if_splits)

lemma cycle_arch:
  assumes "machine_cycle i s = Some t" and "schedule (mi_order i)" and "\<not> mi_rst i"
  shows "arch_regs (m_cpu t) =
     (if ex_write_rd (stage i s) \<and> ex_rd (stage i s) \<noteq> 0
      then (arch_regs (m_cpu s))[unat (ex_rd (stage i s)) := ex_rd_val (stage i s)] else arch_regs (m_cpu s))"
  using cycle_wb [OF assms(1,2)] assms(3)
  by (simp add: arch_regs_def [of "m_cpu t"] cycle_regs_arch [OF assms(1,2)] wb_part_def writeback_seq_def Let_def)

lemma machine_ok_bounds:
  assumes "machine_ok s"
  shows "length (cpu_regs (m_cpu s)) = 32" "unat (wb_rd (cpu_exec (m_cpu s))) < 32"
    "unat (ie_rd (cpu_id_ex (m_cpu s))) < 32" "cpu_regs (m_cpu s) ! 0 = 0"
  using assms by (simp_all add: machine_ok_def cpu_ok_def regs_ok_def in_range_def word_less_nat_alt)

lemma operand_arch:
  assumes "machine_cycle i s = Some t" and "schedule (mi_order i)" and "\<not> mi_rst i" and "machine_ok s"
  shows "operand (decode_in i s) r = arch_regs (m_cpu t) ! unat r"
proof -
  note b = machine_ok_bounds [OF assms(4)]
  have in_eq: "di_ex_write_rd (decode_in i s) = ex_write_rd (stage i s)" "di_ex_rd (decode_in i s) = ie_rd (cpu_id_ex (m_cpu s))"
    "di_ex_rd_val (decode_in i s) = ex_rd_val (stage i s)" "di_wb_write_rd (decode_in i s) = wb_write_rd (cpu_exec (m_cpu s))"
    "di_wb_rd (decode_in i s) = wb_rd (cpu_exec (m_cpu s))" "di_wb_rd_val (decode_in i s) = wb_rd_val (cpu_exec (m_cpu s))"
    "di_regs (decode_in i s) = cpu_regs (m_cpu s)"
    by (simp_all add: decode_in_def decode_ports_def ex_rd_comb Let_def)
  show ?thesis
    unfolding cycle_arch [OF assms(1-3)] operand_def in_eq using b(1-3)
    by (auto simp: ex_rd_comb arch_regs_def Let_def nth_list_update unat_eq_zero simp flip: word_unat_eq_iff)
qed

text \<open>The instruction in the execute stage is the one the program counter names, and its operands are
  the registers as the program sees them.\<close>

lemma pc_ok_cycle:
  assumes cycle: "machine_cycle i s = Some t" "schedule (mi_order i)" and ok: "machine_ok s" "data_ok s" "pc_ok (m_cpu s)"
  shows "pc_ok (m_cpu t)"
proof (cases "ex_stall (stage i s)")
  case True
  note st = cycle_stalled [OF cycle True data_ok_rsp [OF ok(2)]]
  have "arch_regs (m_cpu t) = arch_regs (m_cpu s)"
    using st(4) cycle_regs_arch [OF cycle] by (simp add: arch_regs_def [of "m_cpu t"] Let_def)
  then show ?thesis
    using ok(3) st(1,3) by (simp add: pc_ok_def)
next
  case False
  have d: "cpu_id_ex (m_cpu t) = id_ex_tmp (decode_in i s)"
    using False by (simp add: cycle_decode [OF cycle] inst_decode_seq_def Let_def del: exec_comb_frame)
  have "\<not> di_stall (decode_in i s)"
    using False by simp
  then consider "cpu_id_ex (m_cpu t) = empty_slot" |
    "\<not> mi_rst i" "\<not> ie_flush (cpu_id_ex (m_cpu t))"
    "reads_ok (operand (decode_in i s)) (ex_npc (stage i s)) (cpu_id_ex (m_cpu t))"
    using id_ex_tmp_cases [of "decode_in i s"] unfolding d by auto
  then show ?thesis
  proof cases
    case 2
    have "ex_pc (cpu_exec (m_cpu t)) = ex_npc (stage i s)"
      using cycle_wb [OF cycle] 2(1) by (simp add: wb_part_def writeback_seq_def)
    moreover have "operand (decode_in i s) = (\<lambda>r. arch_regs (m_cpu t) ! unat r)"
      using operand_arch [OF cycle 2(1) ok(1)] by blast
    ultimately show ?thesis
      using 2(2,3) by (simp add: pc_ok_def)
  qed (simp add: pc_ok_def)
qed

subsection \<open>Every reachable state\<close>

lemma power_on_state:
  assumes "cpu_power_on i (CPU_ctor entry tj ij fj) = Some c"
  shows "cpu_id_ex c = empty_slot" "\<not> c_mext_req (x_comb (cpu_exec c))" "\<not> mx_rsp_ack (cpu_mext c)"
    "cpu_dmmu c = DMMU_ctor" "cpu_dmmu_to_ex c = MMU_RSP_ctor"
proof -
  define s where "s = CPU_ctor entry tj ij fj"
  define i0 where "i0 = i\<lparr>ci_rst := False\<rparr>"
  define i1 where "i1 = i\<lparr>ci_rst := True\<rparr>"
  define e where "e = exec_ports i0 s"
  obtain t u where t: "run_processes (cpu_process i0 s) method_processes s = Some t"
    and u: "u = t\<lparr>cpu_exec := exec_comb e (cpu_exec t)\<rparr>"
    and c: "run_processes (cpu_process i1 u) method_processes u = Some c"
    using assms unfolding cpu_power_on_def s_def [symmetric] Let_def i0_def [symmetric] i1_def [symmetric] e_def [symmetric]
    by (auto simp: bind_eq_Some_conv)
  have s: "c_mext_req (x_comb (cpu_exec s)) = False" "cpu_dmmu s = DMMU_ctor" "cpu_dmmu_to_ex s = MMU_RSP_ctor"
    and ty: "ie_type (cpu_id_ex s) = I_NOP"
    by (simp_all add: s_def CPU_ctor_def EXEC_ctor_def COMB_ctor_def ID_EX_ctor_def)
  have tx: "c_mext_req (x_comb (cpu_exec t)) = False" and td: "cpu_dmmu t = DMMU_ctor" "cpu_dmmu_to_ex t = MMU_RSP_ctor"
    using t s by (auto simp: method_processes_def Let_def)
  have "rsp_ok (xi_dmmu_to_ex e)" "ie_type (xi_id_ex e) = I_NOP"
    using s(3) ty by (simp_all add: e_def exec_ports_def rsp_ok_def MMU_RSP_ctor_def)
  then have x: "\<not> ex_stall (cpu_exec u)" "\<not> c_mext_req (x_comb (cpu_exec u))"
    using stage_stall(2) [of e "cpu_exec t"] stage_mext_request [of e "cpu_exec t"] tx
    by (auto simp: u stall_types_def type_groups simp del: exec_comb_frame)
  then show "cpu_id_ex c = empty_slot" "\<not> c_mext_req (x_comb (cpu_exec c))" "\<not> mx_rsp_ack (cpu_mext c)"
    using c by (auto simp: method_processes_def Let_def inst_decode_seq_def id_ex_tmp_def decode_ports_def i1_def
        empty_slot_def mext_seq_def)
  show "cpu_dmmu c = DMMU_ctor" "cpu_dmmu_to_ex c = MMU_RSP_ctor"
    using c td by (auto simp: method_processes_def Let_def u)
qed

lemma pipeline_power_on:
  assumes "mem_safe m" and "machine_power_on linux entry m sh tj ij fj = Some s"
  shows "pipeline_ok s" and "cpu_id_ex (m_cpu s) = empty_slot"
proof -
  obtain i c m1 m2 where c: "cpu_power_on i (CPU_ctor entry tj ij fj) = Some c"
    and d: "mem_access (dmmu_to_mem (cpu_dmmu c)) m = Some (m_dout s, m1)" and s: "m_cpu s = c"
    using assms(2) by (auto simp: machine_power_on_def Let_def bind_eq_Some_conv)
  note p = power_on_state [OF c]
  have "m_dout s = MEM_OUT_ctor"
    using d by (simp add: p DMMU_ctor_def DMEM_IN_ctor_def mem_access_def)
  moreover have "dmem_rsp_comb DMEM_IN_ctor MEM_OUT_ctor DMMU_ctor = MMU_RSP_ctor" "d_state DMMU_ctor = 0"
    "\<not> mmu_rsp_ack MMU_RSP_ctor"
    by (simp_all add: dmem_rsp_comb_def DMMU_ctor_def MMU_RSP_ctor_def MEM_OUT_ctor_def Let_def)
  ultimately have "data_ok s"
    by (auto simp: data_ok_def Let_def s p intro!: exI [of _ DMEM_IN_ctor])
  moreover have "machine_ok s"
    using machine_power_on_ok [OF assms(1)] assms(2) by (metis option.inject)
  ultimately show "pipeline_ok s"
    by (simp add: pipeline_ok_def pc_ok_def mext_ok_def s p)
  show "cpu_id_ex (m_cpu s) = empty_slot"
    by (simp add: s p)
qed

lemma reset_cycle_empty:
  assumes "machine_cycle i s = Some t" and "schedule (mi_order i)" and "mi_rst i"
  shows "cpu_id_ex (m_cpu t) = empty_slot"
proof -
  have "\<not> ex_stall (stage i s)"
    using stage_reset(1) assms(3) by simp
  then show ?thesis
    using assms(3) by (simp add: cycle_decode [OF assms(1,2)] inst_decode_seq_def id_ex_tmp_def empty_slot_def Let_def
        del: exec_comb_frame)
qed

lemma reachable_pipeline:
  "reachable r s \<Longrightarrow> pipeline_ok s \<and> (r \<longrightarrow> cpu_id_ex (m_cpu s) = empty_slot)"
proof (induction rule: reachable.induct)
  case (power_on m linux entry sh tj ij fj s)
  then show ?case
    using pipeline_power_on by blast
next
  case (cycle r s i t)
  then have ok: "machine_ok s" "pc_ok (m_cpu s)" "data_ok s" "mext_ok (m_cpu s)"
    and rst: "mi_rst i \<Longrightarrow> cpu_id_ex (m_cpu s) = empty_slot"
    by (auto simp: pipeline_ok_def)
  have "machine_ok t"
    using machine_cycle_ok [OF ok(1), of i] cycle.hyps(4) by simp
  then show ?case
    using pc_ok_cycle [OF cycle.hyps(4,3) ok(1,3,2)] data_ok_cycle [OF cycle.hyps(4,3) ok(3)]
      mext_ok_cycle [OF cycle.hyps(4,3) ok(4,3) rst] reset_cycle_empty [OF cycle.hyps(4,3)]
    by (simp add: pipeline_ok_def)
qed

end
