(* ===== verification/Cpu_Isa.thy ===== *)
theory Cpu_Isa
  imports Cpu_Order
begin

unbundle bit_operations_syntax

text \<open>
  The pipelined machine implements the sequential instruction set: every clock cycle either leaves
  the program counter and the registers alone, takes a trap, or performs one whole instruction on
  them.
\<close>

subsection \<open>The sequential machine\<close>

text \<open>The state of the sequential machine is the program counter and the register file. An
  instruction carries its type, register numbers and immediate; its operands are read from the
  register file here, so the operand fields of \<open>d\<close> do not matter. \<open>v\<close> is what the instruction gets
  from outside this state: the answer of the memory, or the value of the CSR it reads.\<close>

type_synonym arch = "u32 \<times> regs"

definition with_operands :: "regs \<Rightarrow> u32 \<Rightarrow> ID_EX \<Rightarrow> ID_EX" where
  "with_operands rf pc d =
     d\<lparr>ie_rs1_val := rf ! unat (ie_rs1 d), ie_rs2_val := rf ! unat (ie_rs2 d), ie_pc := pc\<rparr>"

definition load_value :: "InstrType \<Rightarrow> u32 \<Rightarrow> u32" where
  "load_value t v = (if t = I_LB then sign_extend v 8 else if t = I_LH then sign_extend v 16 else v)"

definition isa_step :: "u32 \<Rightarrow> ID_EX \<Rightarrow> arch \<Rightarrow> arch" where
  "isa_step v d0 st =
     (let (pc, rf) = st; d = with_operands rf pc d0; t = ie_type d; a = ie_rs1_val d; b = ie_rs2_val d;
          next = pc + (if ie_is_compressed d then 2 else 4);
          put = (\<lambda>w. if ie_writes_rd d \<and> ie_rd d \<noteq> 0 then rf[unat (ie_rd d) := w] else rf)
      in case alu_spec d of
           Some k \<Rightarrow> (next, put (word_of_int k))
         | None \<Rightarrow>
             if t \<in> set mext_types then (next, put (the (mext_result t a b)))
             else if t \<in> set mem_types then (next, put (load_value t v))
             else if t = I_JAL then (pc + ie_imm d, put next)
             else if t = I_JALR then ((a + ie_imm d) AND NOT 1, put next)
             else (case branch_spec t a b of
                     Some taken \<Rightarrow> (if taken then pc + ie_imm d else next, rf)
                   | None \<Rightarrow> (next, put (if t \<in> set csr_types then v else 0))))"

definition result_in :: "EXEC_IN \<Rightarrow> EXEC \<Rightarrow> u32" where
  "result_in i x =
     (if ie_type (xi_id_ex i) \<in> set csr_types then c_rd_val (csr_read i x (comb_exec i x)) else mmu_rsp_rdata (xi_dmmu_to_ex i))"

definition arch_of :: "CPU \<Rightarrow> arch" where
  "arch_of c = (ex_pc (cpu_exec c), arch_regs c)"

subsection \<open>Branches write no register\<close>

definition branch_quiet :: "ID_EX \<Rightarrow> bool" where
  "branch_quiet d \<longleftrightarrow> (ie_type d \<in> set branch_types \<longrightarrow> \<not> ie_writes_rd d)"

lemma branch_quiet_groups:
  assumes "ie_type d = I_NOP" and "\<not> ie_writes_rd d"
  shows "branch_quiet (dec_op_imm w d)" "branch_quiet (dec_op w d)" "branch_quiet (dec_load w d)"
    "branch_quiet (dec_store w d)" "branch_quiet (dec_jal w d)" "branch_quiet (dec_jalr w d)"
    "branch_quiet (dec_branch w d)" "branch_quiet (dec_csr w d)" "branch_quiet (dec_fence w d)"
    "branch_quiet (dec_amo w d)" "branch_quiet (dec_system w d)"
  using assms
  by (simp_all add: branch_quiet_def branch_types_def dec_op_imm_def dec_op_def op_type_def dec_load_def dec_store_def
      dec_jal_def dec_jalr_def dec_branch_def dec_csr_def dec_fence_def dec_amo_def dec_system_def Let_def)

lemma branch_quiet_decode: "branch_quiet (decode i w)"
proof -
  have "ie_type (dec_common i w) = I_NOP" "\<not> ie_writes_rd (dec_common i w)"
    by (simp_all add: dec_common_def ID_EX_ctor_def Let_def)
  then show ?thesis
    using branch_quiet_groups [of "dec_common i w"]
    by (simp add: decode_def Let_def) (simp add: branch_quiet_def branch_types_def)
qed

lemma branch_quiet_decompress: "branch_quiet (decompress i w)"
proof -
  have "branch_quiet (decompress_q0 w d)" "branch_quiet (decompress_q1 w d)" "branch_quiet (decompress_q2 w d)"
    if "ie_type d = I_NOP" "\<not> ie_writes_rd d" for d
    using that
    by (simp_all add: branch_quiet_def branch_types_def decompress_q0_def decompress_q1_def decompress_q2_def
        decompress_alu_def decompress_jump_def illegal_def Let_def)
  then show ?thesis
    by (simp add: decompress_def ID_EX_ctor_def Let_def branch_quiet_def branch_types_def)
qed

lemma branch_quiet_tmp: "branch_quiet (id_ex_tmp i)"
proof -
  have "branch_quiet d \<Longrightarrow> branch_quiet ((decode_fault i d)\<lparr>ie_flush := False\<rparr>)" for d
    by (simp add: branch_quiet_def decode_fault_def Let_def)
  then show ?thesis
    using branch_quiet_decode branch_quiet_decompress
    by (simp add: id_ex_tmp_def Let_def) (simp add: branch_quiet_def ID_EX_ctor_def branch_types_def)
qed

lemma reachable_branch_quiet: "reachable r s \<Longrightarrow> branch_quiet (cpu_id_ex (m_cpu s))"
proof (induction rule: reachable.induct)
  case (power_on m linux entry sh tj ij fj s)
  then show ?case
    using pipeline_power_on(2) by (simp add: empty_slot_def branch_quiet_def ID_EX_ctor_def branch_types_def)
next
  case (cycle r s i t)
  then show ?case
    using branch_quiet_tmp by (simp add: cycle_decode [OF cycle.hyps(4,3)] inst_decode_seq_def Let_def)
qed

subsection \<open>One instruction\<close>

lemma stage_result:
  assumes "executes i x" and "c = ex_instr i x (comb_exec i x)"
    and "\<not> c_on_trap c" and "\<not> c_stall c" and "\<not> c_csr_sret c" and "\<not> c_csr_mret c"
  shows "ex_npc (exec_comb i x) = c_npc c" "ex_write_rd (exec_comb i x) = ie_writes_rd (xi_id_ex i)"
    "ex_rd_val (exec_comb i x) =
       (if mmu_rsp_ack (xi_dmmu_to_ex i) then load_value (ie_type (xi_id_ex i)) (mmu_rsp_rdata (xi_dmmu_to_ex i))
        else c_rd_val c)"
  using assms(3-6) unfolding assms(2)
  by (simp_all add: exec_comb_executes [OF assms(1)] exec_outputs_def load_value_def Let_def)

lemma trap_or_executes:
  assumes "\<not> xi_rst i" and "\<not> ie_flush (xi_id_ex i)" and "\<not> c_on_trap (x_comb (exec_comb i x))"
  shows "executes i x" and "x_comb (exec_comb i x) = ex_instr i x (comb_exec i x)"
proof -
  show "executes i x"
    using assms by (auto simp: exec_dispatch_def executes_def Let_def split: option.splits if_splits)
  then show "x_comb (exec_comb i x) = ex_instr i x (comb_exec i x)"
    by (simp add: dispatch_executes)
qed

lemma branch_spec_types: "branch_spec t a b = Some taken \<Longrightarrow> t \<in> set branch_types"
  using branch_cond_types by (simp add: branch_cond_spec)

lemma alu_spec_None:
  "ie_type d \<in> set (mext_types @ mem_types @ branch_types @ system_types @ csr_types) \<Longrightarrow> alu_spec d = None"
  using alu_result_None [of d] by (simp add: alu_result_spec)

lemma alu_spec_jump: "ie_type d = I_JAL \<or> ie_type d = I_JALR \<Longrightarrow> alu_spec d = None"
  by (auto simp: alu_spec_def arith_spec_def imm_types_def Let_def)

text \<open>The instructions that the sequential machine leaves out: the returns from traps.\<close>

definition isa_types :: "InstrType \<Rightarrow> bool" where
  "isa_types t \<longleftrightarrow> t \<noteq> I_SRET \<and> t \<noteq> I_MRET"

lemma ex_csr_parts:
  "c_npc (ex_csr i x c) = c_npc c" "c_csr_sret (ex_csr i x c) = c_csr_sret c" "c_csr_mret (ex_csr i x c) = c_csr_mret c"
  by (simp_all add: ex_csr_def csr_read_def counter_read_def Let_def)

lemma ex_csr_value:
  assumes "\<not> c_on_trap (ex_csr i x c)"
  shows "c_rd_val (ex_csr i x c) = c_rd_val (csr_read i x c)"
proof -
  have "ex_csr i x c = csr_read i x (c\<lparr>c_csr_access := True\<rparr>)"
    using assms by (simp add: ex_csr_def Let_def split: if_splits)
  moreover have "c_rd_val (csr_read i x (c\<lparr>c_csr_access := True\<rparr>)) = c_rd_val (csr_read i x c)"
    by (simp add: csr_read_def counter_read_def Let_def)
  ultimately show ?thesis
    by simp
qed

text \<open>Address and result of the instructions that are neither arithmetic nor for the multiplier or the memory.\<close>

lemma jump_result:
  assumes "c = ex_instr i x (comb_exec i x)" and "\<not> c_on_trap c" and "d = xi_id_ex i"
    and "ie_type d = I_JAL \<and> a = ie_pc d + ie_imm d \<or> ie_type d = I_JALR \<and> a = (ie_rs1_val d + ie_imm d) AND NOT 1"
  shows "c_npc c = a" and "c_rd_val c = ie_pc d + (if ie_is_compressed d then 2 else 4)"
proof -
  have "c = ex_jump d a (comb_exec i x)"
    using assms(1,3,4) by (auto simp: ex_instr_jump)
  then show "c_npc c = a" "c_rd_val c = ie_pc d + (if ie_is_compressed d then 2 else 4)"
    using assms(2) by (simp_all add: ex_jump_def go_to_eq split: if_splits)
qed

lemma branch_result:
  assumes "c = ex_instr i x (comb_exec i x)" and "\<not> c_on_trap c" and "d = xi_id_ex i"
    and "branch_spec (ie_type d) (ie_rs1_val d) (ie_rs2_val d) = Some taken"
  shows "c_npc c = (if taken then ie_pc d + ie_imm d else next_seq i x)"
proof -
  have "c = ex_branch d taken (comb_exec i x)"
    using assms(1,3,4) by (simp add: ex_instr_branch branch_cond_spec)
  then show ?thesis
    using assms(2) by (simp add: ex_branch_def go_to_eq split: if_splits)
qed

lemma other_result:
  assumes "c = ex_instr i x (comb_exec i x)" and "\<not> c_on_trap c" and "d = xi_id_ex i" "t = ie_type d" "isa_types t" and "alu_spec d = None"
    and "t \<notin> set mext_types" "t \<notin> set mem_types" "t \<noteq> I_JAL" "t \<noteq> I_JALR" "branch_spec t (ie_rs1_val d) (ie_rs2_val d) = None"
  shows "c_npc c = next_seq i x \<and> c_rd_val c = (if t \<in> set csr_types then result_in i x else 0)"
proof -
  have "c_npc (ex_system i x (comb_exec i x)) = next_seq i x \<and> c_rd_val (ex_system i x (comb_exec i x)) = 0"
    by (simp add: ex_system_def raise_illegal_def Let_def)
  then show ?thesis
    using assms ex_csr_parts(1) [of i x] ex_csr_value [of i x "comb_exec i x"] ex_instr_groups(4) [of i x]
    by (cases "t \<in> set csr_types") (simp_all add: ex_instr_def alu_result_spec branch_cond_spec result_in_def Let_def)
qed

lemma stage_isa:
  assumes ex: "executes i x" and c: "c = ex_instr i x (comb_exec i x)" and "\<not> c_on_trap c" and "\<not> c_stall c"
    and t: "t = ie_type d" "isa_types t" and d: "d = xi_id_ex i" "with_operands rf (ex_pc x) d = d"
    and ack: "mmu_rsp_ack (xi_dmmu_to_ex i) \<longleftrightarrow> t \<in> set mem_types"
    and mext: "t \<in> set mext_types \<Longrightarrow> mext_result t (ie_rs1_val d) (ie_rs2_val d) = Some (xi_mext_result i)"
    and quiet: "branch_quiet d"
  shows "isa_step (result_in i x) d (ex_pc x, rf) =
     (c_npc c, if ie_writes_rd d \<and> ie_rd d \<noteq> 0
        then rf[unat (ie_rd d) := if t \<in> set mem_types then load_value t (mmu_rsp_rdata (xi_dmmu_to_ex i)) else c_rd_val c] else rf)"
proof -
  have pc: "ie_pc d = ex_pc x"
    using d(2) by (metis ID_EX.select_convs(10) ID_EX.surjective with_operands_def ID_EX.update_convs(10))
  have next_eq: "next_seq i x = ex_pc x + (if ie_is_compressed d then 2 else 4)"
    by (simp add: next_seq_def d(1))
  note isa = isa_step_def [of "result_in i x" d "(ex_pc x, rf)", unfolded Let_def prod.case d(2)]
  consider k where "alu_spec d = Some k" | "alu_spec d = None" "t \<in> set mext_types" | "alu_spec d = None" "t \<in> set mem_types"
    | "alu_spec d = None" "t = I_JAL" | "alu_spec d = None" "t = I_JALR" | taken where "alu_spec d = None" "branch_spec t (ie_rs1_val d) (ie_rs2_val d) = Some taken"
    | "alu_spec d = None" "t \<notin> set mext_types" "t \<notin> set mem_types" "t \<noteq> I_JAL" "t \<noteq> I_JALR" "branch_spec t (ie_rs1_val d) (ie_rs2_val d) = None"
    by (cases "alu_spec d"; cases "branch_spec t (ie_rs1_val d) (ie_rs2_val d)") auto
  then show ?thesis
  proof cases
    case 1
    then have "t \<notin> set mem_types"
      using alu_spec_None [of d] t(1) by auto
    then show ?thesis
      using 1 by (simp add: isa c ex_instr_def alu_result_spec d(1) [symmetric] next_eq)
  next
    case 2
    then have "t \<notin> set mem_types"
      by (auto simp: type_groups)
    then show ?thesis
      using 2 mext by (simp add: isa c ex_instr_groups ex_mext_def t(1) d(1) [symmetric] next_eq)
  next
    case 3
    then have "t \<notin> set csr_types" "t \<notin> set mext_types"
      unfolding type_groups list.set by (elim insertE emptyE; simp)+
    then show ?thesis
      using 3 unfolding isa by (simp add: c ex_instr_groups ex_mem_def t(1) d(1) [symmetric] next_eq result_in_def Let_def)
  next
    case 4
    then show ?thesis
      using jump_result [OF c assms(3) d(1), of "ie_pc d + ie_imm d"] t(1) pc by (simp add: isa type_groups)
  next
    case 5
    then show ?thesis
      using jump_result [OF c assms(3) d(1), of "(ie_rs1_val d + ie_imm d) AND NOT 1"] t(1) pc by (simp add: isa type_groups)
  next
    case (6 taken)
    then have "t \<notin> set mext_types" "t \<notin> set mem_types" "t \<noteq> I_JAL" "t \<noteq> I_JALR" "\<not> ie_writes_rd d"
      using not_ext_types [of t] branch_spec_types [OF 6(2)] quiet t(1) by (simp_all add: branch_quiet_def)
    then show ?thesis
      using 6 branch_result [OF c assms(3) d(1)] t(1) pc by (simp add: isa next_eq)
  next
    case 7
    then show ?thesis
      using other_result [OF c assms(3) d(1) t] t(1) by (simp add: isa next_eq)
  qed
qed

lemma return_types:
  assumes "isa_types (ie_type (xi_id_ex i))" and "c = ex_instr i x (comb_exec i x)"
  shows "\<not> c_csr_sret c \<and> \<not> c_csr_mret c"
proof -
  have parts: "c_csr_sret (ex_mext i x b) = c_csr_sret b" "c_csr_mret (ex_mext i x b) = c_csr_mret b"
    "c_csr_sret (ex_mem i x b) = c_csr_sret b" "c_csr_mret (ex_mem i x b) = c_csr_mret b"
    "c_csr_sret (ex_jump d tg b) = c_csr_sret b" "c_csr_mret (ex_jump d tg b) = c_csr_mret b"
    "c_csr_sret (ex_branch d tk b) = c_csr_sret b" "c_csr_mret (ex_branch d tk b) = c_csr_mret b" for b d tg tk
    by (simp_all add: ex_mext_def ex_mem_def ex_jump_def ex_branch_def go_to_def Let_def)
  have "\<not> c_csr_sret (ex_system i x (comb_exec i x))" "\<not> c_csr_mret (ex_system i x (comb_exec i x))"
    using assms(1) by (simp_all add: isa_types_def ex_system_def raise_illegal_def Let_def)
  then show ?thesis
    unfolding assms(2) ex_instr_def Let_def by (simp add: parts ex_csr_parts split: option.split)
qed

lemma stage_return:
  assumes "executes i x" and "c = ex_instr i x (comb_exec i x)" and "\<not> c_on_trap c" and "t = ie_type (xi_id_ex i)"
    and "t = I_SRET \<or> t = I_MRET"
  shows "ex_npc (exec_comb i x) = x_csr x (if t = I_SRET then CSR_SEPC else CSR_MEPC) AND NOT 1"
    and "\<not> ex_write_rd (exec_comb i x)"
proof -
  have "t \<in> set system_types"
    using assms(5) by (auto simp: system_types_def)
  then have "ex_instr i x (comb_exec i x) = ex_system i x (comb_exec i x)"
    using assms(4) by (simp add: ex_instr_groups)
  then show "ex_npc (exec_comb i x) = x_csr x (if t = I_SRET then CSR_SEPC else CSR_MEPC) AND NOT 1"
    "\<not> ex_write_rd (exec_comb i x)"
    using assms(3-5)
    by (auto simp: exec_comb_executes [OF assms(1)] exec_outputs_def assms(2) ex_system_def raise_illegal_def Let_def
        split: if_splits)
qed

lemma stage_trap:
  assumes "c_on_trap (x_comb (exec_comb i x))"
  shows "ex_npc (exec_comb i x) = trap_pc (x_csr x) (x_priv x) (c_cause (x_comb (exec_comb i x)))"
    and "\<not> ex_write_rd (exec_comb i x)"
  using assms by (simp_all add: exec_comb_def exec_outputs_def Let_def)

lemma stage_empty:
  assumes "xi_id_ex i = empty_slot" and "\<not> xi_rst i" and "\<not> c_on_trap (x_comb (exec_comb i x))"
  shows "ex_npc (exec_comb i x) = ex_pc x" and "\<not> ex_write_rd (exec_comb i x)"
proof -
  have "exec_dispatch i x (comb_init i x) = comb_init i x"
    using assms by (auto simp: exec_dispatch_def empty_slot_def Let_def split: option.splits)
  then show "ex_npc (exec_comb i x) = ex_pc x" "\<not> ex_write_rd (exec_comb i x)"
    using assms(1) by (simp_all add: exec_comb_def exec_outputs_def comb_init_def empty_slot_def ID_EX_ctor_def Let_def)
qed

text \<open>What the sequential state becomes in a cycle, in terms of the outputs of the execute stage.\<close>

lemma cycle_arch_of:
  assumes "machine_cycle i s = Some t" and "schedule (mi_order i)" and "\<not> mi_rst i"
  shows "arch_of (m_cpu t) = (ex_npc (stage i s),
     if ex_write_rd (stage i s) \<and> ie_rd (cpu_id_ex (m_cpu s)) \<noteq> 0
     then (arch_regs (m_cpu s))[unat (ie_rd (cpu_id_ex (m_cpu s))) := ex_rd_val (stage i s)] else arch_regs (m_cpu s))"
proof -
  have "ex_pc (cpu_exec (m_cpu t)) = ex_npc (stage i s)"
    using cycle_wb [OF assms(1,2)] assms(3) by (simp add: wb_part_def writeback_seq_def)
  then show ?thesis
    by (simp add: arch_of_def cycle_arch [OF assms] ex_rd_comb)
qed

lemma pipeline_answers:
  assumes "pipeline_ok s" and "executes (cycle_exec_in i s) (cpu_exec (m_cpu s))" and "\<not> ex_stall (stage i s)"
    and "t = ie_type (cpu_id_ex (m_cpu s))"
  shows "mmu_rsp_ack (cpu_dmmu_to_ex (m_cpu s)) \<longleftrightarrow> t \<in> set mem_types"
    and "t \<in> set mext_types \<Longrightarrow>
      mext_result t (ie_rs1_val (cpu_id_ex (m_cpu s))) (ie_rs2_val (cpu_id_ex (m_cpu s))) = Some (mx_result (cpu_mext (m_cpu s)))"
  using assms stage_groups [OF assms(2)]
  by (auto simp: pipeline_ok_def data_ok_def mext_ok_def waits_def Let_def)

text \<open>What one cycle does to the sequential state, case by case.\<close>

lemma cycle_trap:
  assumes "machine_cycle i s = Some t" and "schedule (mi_order i)" and "\<not> mi_rst i" and "c_on_trap (x_comb (stage i s))"
  shows "arch_of (m_cpu t) =
     (trap_pc (x_csr (stage i s)) (x_priv (stage i s)) (c_cause (x_comb (stage i s))), snd (arch_of (m_cpu s)))"
  unfolding cycle_arch_of [OF assms(1-3)] using stage_trap [OF assms(4)]
  by (simp add: arch_of_def del: exec_comb_frame(8,9))

lemma cycle_idle:
  assumes cycle: "machine_cycle i s = Some t" "schedule (mi_order i)" "\<not> mi_rst i" and ok: "pipeline_ok s"
    and trap: "\<not> c_on_trap (x_comb (stage i s))" and "ie_flush (cpu_id_ex (m_cpu s)) \<or> ex_stall (stage i s)"
  shows "arch_of (m_cpu t) = arch_of (m_cpu s)"
proof (cases "ex_stall (stage i s)")
  case True
  have "rsp_ok (xi_dmmu_to_ex (cycle_exec_in i s))"
    using ok data_ok_rsp by (simp add: pipeline_ok_def)
  then show ?thesis
    unfolding cycle_arch_of [OF cycle] using stage_stall [OF True] by (simp add: arch_of_def)
next
  case False
  then have "cpu_id_ex (m_cpu s) = empty_slot"
    using assms(6) ok by (auto simp: pipeline_ok_def pc_ok_def)
  then show ?thesis
    unfolding cycle_arch_of [OF cycle] using stage_empty [of "cycle_exec_in i s"] cycle(3) trap by (simp add: arch_of_def)
qed

lemma cycle_runs:
  assumes "pipeline_ok s" and "\<not> mi_rst i" and "\<not> c_on_trap (x_comb (stage i s))" and "\<not> ie_flush (cpu_id_ex (m_cpu s))"
  shows "executes (cycle_exec_in i s) (cpu_exec (m_cpu s))"
    and "x_comb (stage i s) = ex_instr (cycle_exec_in i s) (cpu_exec (m_cpu s)) (comb_exec (cycle_exec_in i s) (cpu_exec (m_cpu s)))"
    and "with_operands (arch_regs (m_cpu s)) (ex_pc (cpu_exec (m_cpu s))) (cpu_id_ex (m_cpu s)) = cpu_id_ex (m_cpu s)"
proof -
  show "executes (cycle_exec_in i s) (cpu_exec (m_cpu s))"
    "x_comb (stage i s) = ex_instr (cycle_exec_in i s) (cpu_exec (m_cpu s)) (comb_exec (cycle_exec_in i s) (cpu_exec (m_cpu s)))"
    using trap_or_executes [of "cycle_exec_in i s" "cpu_exec (m_cpu s)"] assms(2-4) by simp_all
  show "with_operands (arch_regs (m_cpu s)) (ex_pc (cpu_exec (m_cpu s))) (cpu_id_ex (m_cpu s)) = cpu_id_ex (m_cpu s)"
    using assms(1,4) by (auto simp: pipeline_ok_def pc_ok_def reads_ok_def with_operands_def empty_slot_def)
qed

lemma cycle_return:
  assumes cycle: "machine_cycle i s = Some t" "schedule (mi_order i)" "\<not> mi_rst i" and ok: "pipeline_ok s"
    and run: "\<not> c_on_trap (x_comb (stage i s))" "\<not> ie_flush (cpu_id_ex (m_cpu s))"
    and t: "t' = ie_type (cpu_id_ex (m_cpu s))" "t' = I_SRET \<or> t' = I_MRET"
  shows "arch_of (m_cpu t) =
     (x_csr (stage i s) (if t' = I_SRET then CSR_SEPC else CSR_MEPC) AND NOT 1, snd (arch_of (m_cpu s)))"
proof -
  note ex = cycle_runs [OF ok cycle(3) run]
  have "\<not> c_on_trap (ex_instr (cycle_exec_in i s) (cpu_exec (m_cpu s)) (comb_exec (cycle_exec_in i s) (cpu_exec (m_cpu s))))"
    using run(1) unfolding ex(2) .
  then show ?thesis
    unfolding cycle_arch_of [OF cycle] using stage_return [OF ex(1) refl _ _ t(2)] t(1) by (simp add: arch_of_def)
qed

lemma cycle_instruction:
  assumes cycle: "machine_cycle i s = Some t" "schedule (mi_order i)" "\<not> mi_rst i" and ok: "pipeline_ok s"
    and run: "\<not> c_on_trap (x_comb (stage i s))" "\<not> ie_flush (cpu_id_ex (m_cpu s))" "\<not> ex_stall (stage i s)"
    and quiet: "branch_quiet (cpu_id_ex (m_cpu s))" and isa: "isa_types (ie_type (cpu_id_ex (m_cpu s)))"
  shows "arch_of (m_cpu t) =
     isa_step (result_in (cycle_exec_in i s) (cpu_exec (m_cpu s))) (cpu_id_ex (m_cpu s)) (arch_of (m_cpu s))"
proof -
  let ?i = "cycle_exec_in i s" and ?x = "cpu_exec (m_cpu s)" and ?d = "cpu_id_ex (m_cpu s)" and ?rf = "arch_regs (m_cpu s)"
  note ex = cycle_runs [OF ok cycle(3) run(1,2)]
  have stall: "\<not> c_stall (ex_instr ?i ?x (comb_exec ?i ?x))"
    using run(3) by (simp add: ex(2) [symmetric])
  note ans = pipeline_answers [OF ok ex(1) run(3) refl]
  have rd: "ex_rd_val (stage i s) = (if ie_type ?d \<in> set mem_types
      then load_value (ie_type ?d) (mmu_rsp_rdata (cpu_dmmu_to_ex (m_cpu s))) else c_rd_val (x_comb (stage i s)))"
    "ex_npc (stage i s) = c_npc (x_comb (stage i s))" "ex_write_rd (stage i s) = ie_writes_rd ?d"
    using stage_result [OF ex(1) refl] run(1) stall return_types [of ?i _ ?x] isa ans(1) unfolding ex(2) by simp_all
  have "isa_step (result_in ?i ?x) ?d (ex_pc ?x, ?rf) = arch_of (m_cpu t)"
    using stage_isa [OF ex(1) refl _ stall refl _ refl, of ?rf] run(1) ex(3) isa ans quiet
    unfolding cycle_arch_of [OF cycle] rd unfolding ex(2) by simp
  then show ?thesis
    by (simp add: arch_of_def)
qed

end
