(* ===== verification/Cpu_Program.thy ===== *)
theory Cpu_Program
  imports Cpu_Isa
begin

unbundle bit_operations_syntax

text \<open>
  The machine executes the program that is in its memory. With address translation off, and as long
  as the words of the code region \<open>C\<close> keep their contents \<open>code\<close>, the instruction in the execute
  stage is the one that memory holds at the program counter: through the instruction port, the
  buffer with its compressed and split instructions, and the decoder.
\<close>

subsection \<open>The program counter is even\<close>

lemma even_and_not: "even (x AND - 2 :: u32)" "even (x AND - 4 :: u32)"
proof -
  show "even (x AND - 2)"
    using even_and_not_1 [of x] by simp
  have "(x AND - 4) AND 1 = 0"
    by (simp add: and.assoc)
  then show "even (x AND - 4)"
    by (simp only: and_1_even)
qed

lemma even_trap_pc: "even (trap_pc csr priv cause)"
  by (simp add: trap_pc_def tvec_target_def even_and_not Let_def)

lemma npc_parts:
  "c_npc (ex_mext i x c) = c_npc c" "c_npc (ex_mem i x c) = c_npc c" "c_npc (ex_system i x c) = c_npc c"
  "c_on_trap (ex_jump d tg c) \<or> even (c_npc (ex_jump d tg c))"
  "even (c_npc c) \<Longrightarrow> c_on_trap (ex_branch d tk c) \<or> even (c_npc (ex_branch d tk c))"
  by (simp_all add: ex_mext_def ex_mem_def ex_jump_def ex_branch_def go_to_eq ex_system_def raise_illegal_def
      Let_def)

lemma ex_instr_npc: "even (c_npc c) \<Longrightarrow> c_on_trap (ex_instr i x c) \<or> even (c_npc (ex_instr i x c))"
  using npc_parts(4,5) by (simp add: ex_instr_def npc_parts(1-3) ex_csr_parts(1) Let_def split: option.split)

lemma even_npc:
  assumes "even (ex_pc x)" and "even (x_entry x)"
  shows "even (ex_npc (exec_comb i x))"
proof -
  have "c_on_trap (exec_dispatch i x (comb_init i x)) \<or> even (c_npc (exec_dispatch i x (comb_init i x)))"
  proof (cases "executes i x")
    case True
    then show ?thesis
      using assms ex_instr_npc [of "comb_exec i x" i x] by (simp add: dispatch_executes next_seq_def)
  next
    case False
    then show ?thesis
      using assms
      by (auto simp: exec_dispatch_def executes_def comb_init_def Let_def split: option.split)
  qed
  then show ?thesis
    using assms(1) by (auto simp: exec_comb_def exec_outputs_def even_trap_pc even_and_not Let_def)
qed

subsection \<open>Reading does not change the memory\<close>

lemma load_loop_keeps:
  assumes "load_loop rd a n acc s = Some (w, s')" and "P s"
    and "\<And>a s b s'. P s \<Longrightarrow> rd a s = Some (b, s') \<Longrightarrow> P s'"
  shows "P s'"
  using assms by (induction n arbitrary: acc s) (auto simp: bind_eq_Some_conv)

text \<open>What the RAM holds: its bytes, its reservations, its place in the address space, and the devices
  beside it.\<close>

definition mem_state :: "MEMORY \<Rightarrow> (u32 \<Rightarrow> u8) \<times> (u32 \<Rightarrow> bool) \<times> (u32 \<times> u32 \<times> u32) \<times> Device list" where
  "mem_state m = (mem_byte m, mem_resv m, ram_range (mem_ram m), mem_devices m)"

definition state_is :: "(u32 \<Rightarrow> u8) \<times> (u32 \<Rightarrow> bool) \<times> (u32 \<times> u32 \<times> u32) \<times> Device list \<Rightarrow> MEMORY \<Rightarrow> bool" where
  "state_is S m \<longleftrightarrow> mem_safe m \<and> mem_state m = S"

definition same_ram :: "RAM \<Rightarrow> RAM \<Rightarrow> bool" where
  "same_ram r r' \<longleftrightarrow> ram_safe r' \<and> ram_byte r' = ram_byte r \<and> ram_resv r' = ram_resv r \<and> ram_range r' = ram_range r"

lemma ram_keeps:
  assumes "ram_safe r"
  shows "ram_read a r = Some (b, r') \<Longrightarrow> same_ram r r'" and "amo_sc a r = Some (c, r') \<Longrightarrow> same_ram r r'"
    and "a AND 3 = 0 \<Longrightarrow> ram_fetch a r = Some (w, r') \<Longrightarrow> same_ram r r'"
proof -
  have ok: "ram_ok r" "4 \<le> ram_SIZE r"
    using assms by (simp_all add: ram_safe_def)
  show "same_ram r r'" if h: "ram_read a r = Some (b, r')"
    using ram_read_ok [OF ok(1), of a] ram_read_range [OF h] ram_safe_range [OF _ ram_read_range [OF h] assms] h
    by (auto simp: same_ram_def)
  show "same_ram r r'" if h: "amo_sc a r = Some (c, r')"
    using amo_sc_ok [OF ok(1), of a] amo_sc_range [OF h] ram_safe_range [OF _ amo_sc_range [OF h] assms] h
    by (auto simp: same_ram_def)
  show "same_ram r r'" if "a AND 3 = 0" and h: "ram_fetch a r = Some (w, r')"
    using ram_fetch_ok [OF ok(1) aligned_fetch_room [OF ok that(1)]] ram_fetch_range [OF h]
      ram_safe_range [OF _ ram_fetch_range [OF h] assms] h by (auto simp: same_ram_def)
qed

lemma state_is_ram: "state_is S m \<Longrightarrow> same_ram (mem_ram m) r \<Longrightarrow> state_is S (m\<lparr>mem_ram := r\<rparr>)"
  by (auto simp: state_is_def mem_state_def mem_safe_def same_ram_def)

lemma dev_read_keeps:
  assumes "state_is S m" and "dev_read d a m = Some (b, m')"
  shows "state_is S m'"
proof (cases d)
  case Dev_RAM
  then obtain r where r: "ram_read a (mem_ram m) = Some (b, r)" "m' = m\<lparr>mem_ram := r\<rparr>"
    using assms(2) by auto
  have "ram_safe (mem_ram m)"
    using assms(1) by (simp add: state_is_def mem_safe_def)
  then show ?thesis
    unfolding r(2) by (intro state_is_ram [OF assms(1)] ram_keeps(1) [OF _ r(1)])
qed (use assms in \<open>auto simp: state_is_def mem_state_def mem_safe_def split: prod.splits\<close>)

lemma mem_load_keeps: "state_is S m \<Longrightarrow> mem_load_byte a m = Some (b, m') \<Longrightarrow> state_is S m'"
proof -
  have "state_is S m \<Longrightarrow> bus_read ds a m = Some (b, m') \<Longrightarrow> state_is S m'" for ds b
    by (induction ds arbitrary: m b) (auto simp: bind_eq_Some_conv split: if_splits dest: dev_read_keeps)
  then show "state_is S m \<Longrightarrow> mem_load_byte a m = Some (b, m') \<Longrightarrow> state_is S m'"
    by (simp add: mem_load_byte_def)
qed

lemma mem_access_keeps:
  assumes "state_is S m" and "mem_access d m = Some (out, m')"
  shows "state_is S m'"
proof -
  have safe: "ram_safe (mem_ram m)"
    using assms(1) by (simp add: state_is_def mem_safe_def)
  have sc: "state_is S (m\<lparr>mem_ram := r\<rparr>)" if "amo_sc a (mem_ram m) = Some (c, r)" for a c r
    using ram_keeps(2) [OF safe that] state_is_ram [OF assms(1)] by blast
  have "same_ram (mem_ram m) r" if "load_loop ram_read a n acc (mem_ram m) = Some (w, r)" for a n acc w r
  proof (rule load_loop_keeps [OF that])
    show "same_ram (mem_ram m) (mem_ram m)"
      using safe by (simp add: same_ram_def)
    show "same_ram (mem_ram m) v'" if "same_ram (mem_ram m) v" "ram_read c v = Some (x, v')" for c v x v'
      using that ram_keeps(1) [OF _ that(2)] by (simp add: same_ram_def)
  qed
  then have lr: "state_is S (m\<lparr>mem_ram := r\<rparr>)" if "load_loop ram_read a n acc (mem_ram m) = Some (w, r)" for a n acc w r
    using that state_is_ram [OF assms(1)] by blast
  have ld: "state_is S m1" if "load_loop mem_load_byte a n acc m = Some (w, m1)" for a n acc w m1
    using load_loop_keeps [OF that, of "state_is S"] assms(1) mem_load_keeps by blast
  show ?thesis
    using assms sc lr ld
    by (auto simp: mem_access_def mem_access_amo_def bind_eq_Some_conv split: if_splits)
qed

lemma inst_fetch_keeps:
  assumes "state_is S m" and "inst_fetch r m = Some (out, m')" and "word_request r"
  shows "state_is S m'"
    and "imem_req_ack r \<Longrightarrow> out = answer (le_word (mem_byte m) (imem_addr r) 4)"
    and "\<not> imem_req_ack r \<Longrightarrow> out = MEM_OUT_ctor"
proof -
  have ok: "ram_ok (mem_ram m)" "4 \<le> ram_SIZE (mem_ram m)" "ram_safe (mem_ram m)"
    using assms(1) by (simp_all add: state_is_def mem_safe_def ram_safe_def)
  show "state_is S m'"
    using assms ram_keeps(3) [OF ok(3)] state_is_ram [OF assms(1)]
    by (auto simp: inst_fetch_def word_request_def bind_eq_Some_conv split: if_splits)
  show "out = answer (le_word (mem_byte m) (imem_addr r) 4)" if "imem_req_ack r"
  proof -
    have al: "imem_addr r AND 3 = 0"
      using assms(3) that by (simp add: word_request_def)
    show ?thesis
      using ram_fetch_ok [OF ok(1) aligned_fetch_room [OF ok(1,2) al]] assms(1,2) that and_3_eq_0(1) [OF al]
      by (auto simp: inst_fetch_def answer_def)
  qed
  show "out = MEM_OUT_ctor" if "\<not> imem_req_ack r"
    using assms(2) that by (simp add: inst_fetch_def MEM_OUT_ctor_def)
qed

subsection \<open>The instruction port\<close>

text \<open>The answer of the memory to the instruction port: the word at the address asked for.\<close>

definition word_answer :: "(u32 \<Rightarrow> u8) \<Rightarrow> IMEM_IN \<Rightarrow> MEM_OUT \<Rightarrow> bool" where
  "word_answer B r out \<longleftrightarrow>
     (if imem_req_ack r then out = answer (le_word B (imem_addr r) 4) else out = MEM_OUT_ctor)"

lemma machine_ok_state: "machine_ok s \<Longrightarrow> state_is (mem_state (m_mem s)) (m_mem s)"
  by (simp add: machine_ok_def state_is_def)

lemma mem_state_byte: "mem_state m = mem_state m' \<Longrightarrow> mem_byte m = mem_byte m'"
  by (simp add: mem_state_def)

lemma answer_fetch_word:
  assumes "answer_fetch s t = Some u" and "machine_ok t"
  shows "machine_ok u" "mem_state (m_mem u) = mem_state (m_mem t)" "m_cpu u = m_cpu t" "m_dout u = m_dout t"
    "immu_to_mem (cpu_immu (m_cpu t)) = immu_to_mem (cpu_immu (m_cpu s)) \<and> m_iout u = m_iout t \<or>
     word_answer (mem_byte (m_mem t)) (immu_to_mem (cpu_immu (m_cpu t))) (m_iout u)"
proof -
  show "machine_ok u"
    using answer_ok(1) [OF assms(2), of s] assms(1) by simp
  have req: "word_request (immu_to_mem (cpu_immu (m_cpu t)))"
    using assms(2) by (simp add: machine_ok_def cpu_ok_def immu_aligned_def)
  show "mem_state (m_mem u) = mem_state (m_mem t)" "m_cpu u = m_cpu t" "m_dout u = m_dout t"
    "immu_to_mem (cpu_immu (m_cpu t)) = immu_to_mem (cpu_immu (m_cpu s)) \<and> m_iout u = m_iout t \<or>
     word_answer (mem_byte (m_mem t)) (immu_to_mem (cpu_immu (m_cpu t))) (m_iout u)"
    using assms(1) inst_fetch_keeps [OF machine_ok_state [OF assms(2)] _ req]
    by (auto simp: answer_fetch_def Let_def bind_eq_Some_conv state_is_def word_answer_def split: if_splits)
qed

text \<open>The answer of the memory to the data port is given on the contents that it has afterwards.\<close>

definition data_answer :: "MEMORY \<Rightarrow> DMEM_IN \<Rightarrow> MEM_OUT \<Rightarrow> bool" where
  "data_answer m0 r out \<longleftrightarrow> (\<exists>m m'. state_is (mem_state m0) m \<and> mem_access r m = Some (out, m'))"

lemma answer_data_state:
  assumes "answer_data s t = Some u" and "machine_ok t"
  shows "machine_ok u" "mem_state (m_mem u) = mem_state (m_mem t)" "m_cpu u = m_cpu t" "m_iout u = m_iout t"
    "dmmu_to_mem (cpu_dmmu (m_cpu t)) = dmmu_to_mem (cpu_dmmu (m_cpu s)) \<and> m_dout u = m_dout t \<or>
     data_answer (m_mem t) (dmmu_to_mem (cpu_dmmu (m_cpu t))) (m_dout u)"
proof -
  show "machine_ok u"
    using answer_ok(2) [OF assms(2), of s] assms(1) by simp
  note st = machine_ok_state [OF assms(2)]
  show "mem_state (m_mem u) = mem_state (m_mem t)" "m_cpu u = m_cpu t" "m_iout u = m_iout t"
    using assms(1) mem_access_keeps [OF st]
    by (auto simp: answer_data_def Let_def bind_eq_Some_conv state_is_def split: if_splits)
  show "dmmu_to_mem (cpu_dmmu (m_cpu t)) = dmmu_to_mem (cpu_dmmu (m_cpu s)) \<and> m_dout u = m_dout t \<or>
     data_answer (m_mem t) (dmmu_to_mem (cpu_dmmu (m_cpu t))) (m_dout u)"
    using assms(1) st by (auto simp: answer_data_def data_answer_def Let_def bind_eq_Some_conv split: if_splits)
qed

lemma cycle_answers:
  assumes "machine_cycle i s = Some t" and "machine_ok s"
  obtains f e where "f = s\<lparr>m_cpu := fallen i s, m_shared := mi_shared i\<rparr>"
    and "run_processes (machine_step i f) (mi_order i) f = Some e" and "machine_ok e"
    and "mem_state (m_mem t) = mem_state (m_mem e)"
    and "immu_to_mem (cpu_immu (m_cpu t)) = immu_to_mem (cpu_immu (m_cpu s)) \<and> m_iout t = m_iout s \<or>
       word_answer (mem_byte (m_mem t)) (immu_to_mem (cpu_immu (m_cpu t))) (m_iout t)"
    and "dmmu_to_mem (cpu_dmmu (m_cpu t)) = dmmu_to_mem (cpu_dmmu (m_cpu s)) \<and> m_dout t = m_dout s \<or>
       data_answer (m_mem t) (dmmu_to_mem (cpu_dmmu (m_cpu t))) (m_dout t)"
proof -
  obtain f e u where f: "f = s\<lparr>m_cpu := fallen i s, m_shared := mi_shared i\<rparr>"
    and e: "run_processes (machine_step i f) (mi_order i) f = Some e"
    and u: "(\<exists>t1. answer_fetch f e = Some t1 \<and> answer_data f t1 = Some u) \<or>
         (\<exists>t1. answer_data f e = Some t1 \<and> answer_fetch f t1 = Some u)"
    and t: "t = u\<lparr>m_cpu := cpu_settle (cpu_ports i u (m_mem u)) (m_cpu u)\<rparr>"
    using cycle_split [OF assms(1)] .
  have ok: "machine_ok f"
    using assms(2) by (simp add: f fallen_def machine_ok_def cpu_ok_fall)
  have "\<exists>v. run_processes (machine_step i f) (mi_order i) f = Some v \<and> machine_ok v"
    using machine_step_ok [OF assms(2) f [unfolded fallen_def]] ok by (intro run_processes_invariant) auto
  then have ok_e: "machine_ok e"
    using e by simp
  have out: "m_iout e = m_iout f" "m_dout e = m_dout f"
    using run_processes_keep [OF e, where f = m_iout] run_processes_keep [OF e, where f = m_dout] machine_step_outs by blast+
  have cong: "word_answer (mem_byte (m_mem u)) = word_answer (mem_byte (m_mem v))" "data_answer (m_mem u) = data_answer (m_mem v)"
    if "mem_state (m_mem u) = mem_state (m_mem v)" for u v :: MACHINE
    using mem_state_byte [OF that] that by (simp, intro ext, simp add: data_answer_def)
  have "(immu_to_mem (cpu_immu (m_cpu e)) = immu_to_mem (cpu_immu (m_cpu f)) \<and> m_iout u = m_iout f \<or>
      word_answer (mem_byte (m_mem u)) (immu_to_mem (cpu_immu (m_cpu e))) (m_iout u)) \<and>
     (dmmu_to_mem (cpu_dmmu (m_cpu e)) = dmmu_to_mem (cpu_dmmu (m_cpu f)) \<and> m_dout u = m_dout f \<or>
      data_answer (m_mem u) (dmmu_to_mem (cpu_dmmu (m_cpu e))) (m_dout u)) \<and>
     m_cpu u = m_cpu e \<and> mem_state (m_mem u) = mem_state (m_mem e)"
    using u
  proof (elim disjE exE conjE)
    fix t1 assume t1: "answer_fetch f e = Some t1" "answer_data f t1 = Some u"
    note a = answer_fetch_word [OF t1(1) ok_e]
    note d = answer_data_state [OF t1(2) a(1)]
    show ?thesis
      using a(2-5) d(2-5) out cong [OF d(2)] cong [OF a(2)] by simp
  next
    fix t1 assume t1: "answer_data f e = Some t1" "answer_fetch f t1 = Some u"
    note a = answer_data_state [OF t1(1) ok_e]
    note d = answer_fetch_word [OF t1(2) a(1)]
    show ?thesis
      using a(2-5) d(2-5) out cong [OF d(2)] cong [OF a(2)] by simp
  qed
  moreover have "word_answer (mem_byte (m_mem t)) = word_answer (mem_byte (m_mem u))" "data_answer (m_mem t) = data_answer (m_mem u)"
    "immu_to_mem (cpu_immu (m_cpu t)) = immu_to_mem (cpu_immu (m_cpu u))" "cpu_dmmu (m_cpu t) = cpu_dmmu (m_cpu u)"
    "m_iout t = m_iout u" "m_dout t = m_dout u" "mem_state (m_mem t) = mem_state (m_mem u)"
    by (simp_all add: t cpu_settle_def imem_rsp_comb_def Let_def)
  ultimately show ?thesis
    using that [OF f e ok_e] by (simp add: f)
qed

lemma cycle_iout:
  assumes "machine_cycle i s = Some t" and "machine_ok s"
  shows "immu_to_mem (cpu_immu (m_cpu t)) = immu_to_mem (cpu_immu (m_cpu s)) \<and> m_iout t = m_iout s \<or>
     word_answer (mem_byte (m_mem t)) (immu_to_mem (cpu_immu (m_cpu t))) (m_iout t)"
  using cycle_answers [OF assms] .

lemma cycle_data_answer:
  assumes "machine_cycle i s = Some t" and "machine_ok s"
  shows "dmmu_to_mem (cpu_dmmu (m_cpu t)) = dmmu_to_mem (cpu_dmmu (m_cpu s)) \<and> m_dout t = m_dout s \<or>
     data_answer (m_mem t) (dmmu_to_mem (cpu_dmmu (m_cpu t))) (m_dout t)"
  using cycle_answers [OF assms] .

text \<open>A process runs once in an edge, on a state in which what the others leave alone is as before.\<close>

lemma run_processes_once:
  assumes "run_processes step ps t = Some u" and "distinct ps" and "p \<in> set ps"
    and "\<And>q t u. q \<noteq> p \<Longrightarrow> step q t = Some u \<Longrightarrow> f u = f t"
  obtains a b where "f a = f t" and "step p a = Some b" and "f u = f b"
proof -
  obtain xs ys where ps: "ps = xs @ p # ys" "p \<notin> set xs" "p \<notin> set ys"
    using split_list [OF assms(3)] assms(2) by auto
  have "run_processes step (xs @ zs) t = do { a \<leftarrow> run_processes step xs t; run_processes step zs a }" for zs
    by (induction xs arbitrary: t) (auto split: bind_split)
  then obtain a b where a: "run_processes step xs t = Some a" and b: "step p a = Some b" and u: "run_processes step ys b = Some u"
    using assms(1) by (auto simp: ps(1) bind_eq_Some_conv)
  have "f a = f t" "f u = f b"
    using run_processes_keep [OF a, where f = f] run_processes_keep [OF u, where f = f] assms(4) ps(2,3) by metis+
  then show thesis
    using that b by blast
qed

text \<open>The contents of the RAM after a cycle are those that the commit of the memory's answer leaves.\<close>

lemma cycle_commit:
  assumes "machine_cycle i s = Some t" and "machine_ok s" and "schedule (mi_order i)"
  obtains m m' where "state_is (mem_state (m_mem s)) m"
    and "update_memory (dmmu_to_mem (cpu_dmmu (m_cpu s))) (m_dout s) m = Some m'" and "mem_state (m_mem t) = mem_state m'"
proof -
  obtain f e where f: "f = s\<lparr>m_cpu := fallen i s, m_shared := mi_shared i\<rparr>"
    and e: "run_processes (machine_step i f) (mi_order i) f = Some e" and t: "mem_state (m_mem t) = mem_state (m_mem e)"
    using cycle_answers [OF assms(1,2)] .
  define g where "g v = (mem_ram (m_mem v), mem_devices (m_mem v))" for v :: MACHINE
  have keep: "g v = g u" if "q \<noteq> P_update_memory" "machine_step i f q u = Some v" for q u v
    using that by (cases q) (auto simp: g_def platform_process_def Let_def)
  have "distinct (mi_order i)" "P_update_memory \<in> set (mi_order i)"
    using assms(3) by (auto simp: schedule_def all_processes_def)
  then obtain a b where a: "g a = g f" and b: "machine_step i f P_update_memory a = Some b" and e: "g e = g b"
    using run_processes_once [OF e, where f = g] keep by metis
  obtain m' where m': "update_memory (dmmu_to_mem (cpu_dmmu (m_cpu s))) (m_dout s) (m_mem a) = Some m'" "m_mem b = m'"
    using b by (auto simp: f)
  have "state_is (mem_state (m_mem s)) (m_mem a)"
    using a assms(2) by (simp add: g_def f state_is_def mem_state_def mem_safe_def machine_ok_def)
  moreover have "mem_state (m_mem t) = mem_state m'"
    unfolding t using e m'(2) by (simp add: g_def mem_state_def)
  ultimately show thesis
    using that m'(1) by blast
qed

lemma cycle_bytes:
  assumes "machine_cycle i s = Some t" and "machine_ok s" and "\<not> mem_rsp_ack (m_dout s)"
  shows "mem_state (m_mem t) = mem_state (m_mem s)"
proof -
  obtain f e where f: "f = s\<lparr>m_cpu := fallen i s, m_shared := mi_shared i\<rparr>"
    and e: "run_processes (machine_step i f) (mi_order i) f = Some e" and t: "mem_state (m_mem t) = mem_state (m_mem e)"
    using cycle_answers [OF assms(1,2)] .
  have "mem_state (m_mem v) = mem_state (m_mem u)" if "machine_step i f q u = Some v" for q u v
    using that assms(3) by (cases q) (auto simp: f update_memory_def platform_process_def mem_state_def Let_def)
  then have "mem_state (m_mem e) = mem_state (m_mem f)"
    using run_processes_keep [OF e, where f = "\<lambda>v. mem_state (m_mem v)"] by blast
  then show ?thesis
    by (simp add: t f)
qed

text \<open>Without translation every fetch takes one cycle: the port asks for the word of the program
  counter, unless the PMP or the memory map refuse it, or does nothing after a flush.\<close>

definition port_idle :: "IMMU \<Rightarrow> bool" where
  "port_idle w \<longleftrightarrow> i_state w = 0 \<and> \<not> imem_req_ack (immu_to_mem w) \<and> \<not> i_pmp_fault w \<and> \<not> i_page_fault w"

definition port_refused :: "IMMU \<Rightarrow> bool" where
  "port_refused w \<longleftrightarrow> i_state w = 3 \<and> \<not> imem_req_ack (immu_to_mem w) \<and> i_pmp_fault w \<and> \<not> i_page_fault w"

definition port_asked :: "IMMU \<Rightarrow> bool" where
  "port_asked w \<longleftrightarrow> i_state w = 3 \<and> immu_to_mem w = \<lparr>imem_req_ack = True, imem_addr = immu_pc w AND NOT 3\<rparr> \<and>
     \<not> i_pmp_fault w \<and> \<not> i_page_fault w"

lemma immu_bare:
  assumes "\<not> SATP_ON (x_csr (im_exec j) CSR_SATP)"
    and "immu_ready d \<or> i_state d = 0 \<and> \<not> mem_rsp_ack (im_rsp j)"
    and "w = fst (imem_req_seq junk j d tlb)"
  shows "port_idle w \<or> port_refused w \<or> port_asked w" and "immu_pc w = immu_pc d \<or> immu_pc w = im_fetch_pc j"
    and "immu_ready d \<Longrightarrow> \<not> immu_flush w"
proof -
  note defs = imem_req_seq_def imem_step_def imem_start_def imem_check_def i_send_def i_no_req_def port_idle_def
    port_refused_def port_asked_def IMEM_IN_ctor_def
  show "port_idle w \<or> port_refused w \<or> port_asked w" "immu_pc w = immu_pc d \<or> immu_pc w = im_fetch_pc j"
    using assms by (cases "im_rst j \<or> im_flush j"; cases "immu_ready d"; auto simp: defs Let_def)+
  show "\<not> immu_flush w" if "immu_ready d"
    using assms(3) that by (simp add: imem_req_seq_def case_prod_beta Let_def)
qed

lemma port_settle:
  assumes "w' = imem_rsp_comb out w" and "word_answer B (immu_to_mem w) out \<or> imem_req_ack (immu_to_mem w) \<and> out = answer v"
  shows "port_idle w \<Longrightarrow> \<not> mmu_rsp_ack (immu_to_ifetch w') \<and> immu_ready w'"
    and "port_refused w \<Longrightarrow> mmu_rsp_fault (immu_to_ifetch w') = 1 \<and> immu_ready w'"
    and "port_asked w \<Longrightarrow> immu_to_ifetch w' = MMU_RSP_ctor\<lparr>mmu_rsp_ack := True, mmu_rsp_rdata := mem_rsp_rdata out\<rparr> \<and> immu_ready w'"
  using assms
  by (auto simp: imem_rsp_comb_def port_idle_def port_refused_def port_asked_def word_answer_def answer_def MEM_OUT_ctor_def
      MMU_RSP_ctor_def Let_def)

subsection \<open>The code\<close>

definition holds_code :: "(u32 \<Rightarrow> bool) \<Rightarrow> (u32 \<Rightarrow> u32) \<Rightarrow> MACHINE \<Rightarrow> bool" where
  "holds_code C code s \<longleftrightarrow> (\<forall>a. C a \<longrightarrow> le_word (mem_byte (m_mem s)) a 4 = code a)"

definition translation_off :: "MACHINE \<Rightarrow> bool" where
  "translation_off s \<longleftrightarrow> \<not> SATP_ON (x_csr (cpu_exec (m_cpu s)) CSR_SATP)"

text \<open>A halfword that was fetched without a fault from the code region is that of the code.\<close>

definition code_half :: "(u32 \<Rightarrow> bool) \<Rightarrow> (u32 \<Rightarrow> u32) \<Rightarrow> u32 \<Rightarrow> half \<Rightarrow> bool" where
  "code_half C code x h \<longleftrightarrow> (C (x AND NOT 3) \<and> \<not> fst (snd h) \<and> \<not> snd (snd h) \<longrightarrow> fst h = half_at code x)"

definition arrives :: "(u32 \<Rightarrow> bool) \<Rightarrow> (u32 \<Rightarrow> u32) \<Rightarrow> IMMU \<Rightarrow> bool" where
  "arrives C code w \<longleftrightarrow> (mmu_rsp_ack (immu_to_ifetch w) \<longrightarrow>
     code_half C code (immu_pc w AND NOT 3) (halves_of (immu_to_ifetch w) ! 0) \<and>
     code_half C code ((immu_pc w AND NOT 3) + 2) (halves_of (immu_to_ifetch w) ! 1))"

definition iport_ok :: "(u32 \<Rightarrow> bool) \<Rightarrow> (u32 \<Rightarrow> u32) \<Rightarrow> MACHINE \<Rightarrow> bool" where
  "iport_ok C code s \<longleftrightarrow>
     (let w = cpu_immu (m_cpu s); r = immu_to_mem w
      in even (immu_pc w) \<and> even (cpu_fetch_pc (m_cpu s)) \<and> arrives C code w \<and>
         (immu_ready w \<or> i_state w = 0 \<and> \<not> imem_req_ack r) \<and>
         (imem_req_ack r \<longrightarrow> (\<exists>v. m_iout s = answer v \<and> (C (imem_addr r) \<longrightarrow> v = code (imem_addr r)))) \<and>
         (\<not> imem_req_ack r \<longrightarrow> m_iout s = MEM_OUT_ctor))"

lemma code_halves:
  assumes "C b \<Longrightarrow> mmu_rsp_rdata r = code b" and "b AND 3 = 0"
  shows "code_half C code b (halves_of r ! 0)" and "code_half C code (b + 2) (halves_of r ! 1)"
proof -
  have b: "b AND NOT 3 = b"
    using word_boundary [of b] assms(2) by simp
  show "code_half C code b (halves_of r ! 0)" "code_half C code (b + 2) (halves_of r ! 1)"
    using assms aligned_next_half [OF assms(2)] b
    by (simp_all add: code_half_def halves_of_def half_at_def Let_def)
qed

lemma refused_halves: "mmu_rsp_fault r = 1 \<Longrightarrow> code_half C code a (halves_of r ! 0) \<and> code_half C code b (halves_of r ! 1)"
  by (simp add: code_half_def halves_of_def Let_def)

lemma arrives_settle:
  assumes "w' = imem_rsp_comb out w" and "word_answer B (immu_to_mem w) out \<or> imem_req_ack (immu_to_mem w) \<and> out = answer v"
    and "port_idle w \<or> port_refused w \<or> port_asked w"
    and code: "imem_req_ack (immu_to_mem w) \<Longrightarrow> C (imem_addr (immu_to_mem w)) \<Longrightarrow> mem_rsp_rdata out = code (imem_addr (immu_to_mem w))"
  shows "arrives C code w'" and "immu_ready w'"
proof -
  note st = port_settle [OF assms(1,2)]
  have pc: "immu_pc w' = immu_pc w"
    by (simp add: assms(1) imem_rsp_comb_def Let_def)
  show "immu_ready w'"
    using assms(3) st by blast
  show "arrives C code w'"
    using assms(3)
  proof (elim disjE)
    assume "port_idle w"
    then show ?thesis
      using st(1) by (simp add: arrives_def)
  next
    assume "port_refused w"
    then show ?thesis
      using st(2) refused_halves by (simp add: arrives_def)
  next
    assume asked: "port_asked w"
    have "(immu_pc w AND NOT 3) AND 3 = 0"
      by (rule aligned_parts(2))
    moreover have "mmu_rsp_rdata (immu_to_ifetch w') = code (immu_pc w AND NOT 3)" if "C (immu_pc w AND NOT 3)"
      using st(3) [OF asked] code that asked by (simp add: port_asked_def)
    ultimately show ?thesis
      using code_halves [of C "immu_pc w AND NOT 3" "immu_to_ifetch w'" code] by (simp add: arrives_def pc)
  qed
qed

lemma immu_in_simps [simp]:
  "x_csr (im_exec (immu_in i s y)) = x_csr (cpu_exec (m_cpu s))" "im_rsp (immu_in i s y) = m_iout s"
  "im_fetch_pc (immu_in i s y) = cpu_fetch_pc (m_cpu s)"
  by (simp_all add: immu_in_def immu_ports_def seen_exec_def cpu_ports_def)

lemma iport_ok_cycle:
  assumes cycle: "machine_cycle i s = Some t" "schedule (mi_order i)" and ok: "machine_ok s" "iport_ok C code s"
    and off: "translation_off s" and code: "holds_code C code t" and npc: "even (ex_npc (stage i s))"
  shows "iport_ok C code t"
proof -
  let ?w = "cpu_immu (m_cpu s)" and ?r = "immu_to_mem (cpu_immu (m_cpu t))"
  obtain junk y tlb w where w: "w = fst (imem_req_seq junk (immu_in i s y) ?w tlb)"
    and t: "cpu_immu (m_cpu t) = imem_rsp_comb (m_iout t) w"
    using cycle_immu [OF cycle] by blast
  have wt: "immu_to_mem (cpu_immu (m_cpu t)) = immu_to_mem w" "immu_pc (cpu_immu (m_cpu t)) = immu_pc w"
    by (simp_all add: t imem_rsp_comb_def Let_def)
  have "\<not> SATP_ON (x_csr (im_exec (immu_in i s y)) CSR_SATP)"
    using off by (simp add: translation_off_def)
  moreover have "immu_ready ?w \<or> i_state ?w = 0 \<and> \<not> mem_rsp_ack (im_rsp (immu_in i s y))"
    using ok(2) by (auto simp: iport_ok_def MEM_OUT_ctor_def Let_def)
  ultimately have port: "port_idle w \<or> port_refused w \<or> port_asked w"
    and pc: "immu_pc w = immu_pc ?w \<or> immu_pc w = cpu_fetch_pc (m_cpu s)"
    using immu_bare [OF _ _ w] by simp_all
  have out: "(imem_req_ack ?r \<longrightarrow> (\<exists>v. m_iout t = answer v \<and> (C (imem_addr ?r) \<longrightarrow> v = code (imem_addr ?r)))) \<and>
      (\<not> imem_req_ack ?r \<longrightarrow> m_iout t = MEM_OUT_ctor)"
    using cycle_iout [OF cycle(1) ok(1)]
  proof
    assume "?r = immu_to_mem ?w \<and> m_iout t = m_iout s"
    then show ?thesis
      using ok(2) by (simp add: iport_ok_def Let_def)
  next
    assume "word_answer (mem_byte (m_mem t)) ?r (m_iout t)"
    then show ?thesis
      using code by (auto simp: word_answer_def holds_code_def split: if_splits)
  qed
  have "arrives C code (cpu_immu (m_cpu t)) \<and> immu_ready (cpu_immu (m_cpu t))"
  proof (cases "imem_req_ack ?r")
    case True
    then obtain v where "m_iout t = answer v" "C (imem_addr ?r) \<longrightarrow> v = code (imem_addr ?r)"
      using out by auto
    then show ?thesis
      using arrives_settle [OF t _ port, of undefined v C code] True wt by (auto simp: answer_def)
  next
    case False
    then have "word_answer undefined (immu_to_mem w) (m_iout t)"
      using out wt by (simp add: word_answer_def)
    then show ?thesis
      using arrives_settle [OF t _ port, of undefined _ C code] False wt by auto
  qed
  moreover have "even (immu_pc (cpu_immu (m_cpu t)))"
    using pc ok(2) wt by (auto simp: iport_ok_def Let_def)
  moreover have "even (cpu_fetch_pc (m_cpu t))"
    using ok(2) npc even_and_not(2) by (simp add: cycle_fetch_pc [OF cycle] next_pc_seq_def iport_ok_def Let_def)
  ultimately show ?thesis
    using out by (simp add: iport_ok_def Let_def)
qed

subsection \<open>The instruction buffer\<close>

definition buffer_ok :: "(u32 \<Rightarrow> bool) \<Rightarrow> (u32 \<Rightarrow> u32) \<Rightarrow> FETCH \<Rightarrow> bool" where
  "buffer_ok C code f \<longleftrightarrow> fetch_ok f \<and> stream_rel (code_half C code) (fetch_abs f) \<and>
     if_id_inst f = ucast (buffer f) \<and> if_id_pc f = buffer_addr f \<and>
     (\<not> if_id_flush f \<longrightarrow> (if_id_fault f, if_id_tval f) = fetch_fault f)"

lemma fetch_output_fault:
  "\<not> if_id_flush (get_inst_seq i f) \<Longrightarrow>
     (if_id_fault (get_inst_seq i f), if_id_tval (get_inst_seq i f)) = fetch_fault (get_inst_seq i f)"
  by (simp add: get_inst_seq_def fetch_output_def fetch_fault_def Let_def split: if_splits)

lemma buffer_ok_step:
  assumes "buffer_ok C code f" and "fetch_rel (code_half C code) i"
  shows "buffer_ok C code (get_inst_seq i f)"
proof -
  have ok: "fetch_ok f" and st: "stream_rel (code_half C code) (fetch_abs f)"
    using assms(1) by (simp_all add: buffer_ok_def)
  show ?thesis
    using fetch_step_ok [OF ok, of i] stream_step [OF st assms(2)]
    by (simp add: buffer_ok_def fetch_step_abs [OF ok] get_inst_seq_out fetch_output_fault)
qed

lemma fetch_rel_in:
  assumes "iport_ok C code s"
  shows "fetch_rel (code_half C code) (fetch_in i s)"
  using assms by (simp add: fetch_rel_def fetch_in_def fetch_ports_def iport_ok_def arrives_def Let_def)

text \<open>The instruction at an address of the code: four bytes, or two for a compressed one.\<close>

definition instr_at :: "(u32 \<Rightarrow> u32) \<Rightarrow> u32 \<Rightarrow> u32" where
  "instr_at code pc =
     (if half_at code pc AND 3 = 3 then push_bit 16 (ucast (half_at code (pc + 2))) OR ucast (half_at code pc)
      else ucast (half_at code pc))"

definition in_code :: "(u32 \<Rightarrow> bool) \<Rightarrow> (u32 \<Rightarrow> u32) \<Rightarrow> u32 \<Rightarrow> bool" where
  "in_code C code pc \<longleftrightarrow> C (pc AND NOT 3) \<and> (half_at code pc AND 3 = 3 \<longrightarrow> C ((pc + 2) AND NOT 3))"

lemma fault_free:
  assumes "fst (fetch_fault f) = 0"
  shows "\<not> bit (buffer_page_fault f) 0 \<and> \<not> bit (buffer_access_fault f) 0"
    and "buffer f AND 3 = 3 \<Longrightarrow> \<not> bit (buffer_page_fault f) 16 \<and> \<not> bit (buffer_access_fault f) 16"
proof -
  have b0: "w AND 1 = 0 \<longleftrightarrow> \<not> bit w 0" for w :: u64
    by (simp add: and_one_eq bit_0 even_iff_mod_2_eq_zero [symmetric])
  have b16: "w AND push_bit 16 1 = 0 \<longleftrightarrow> \<not> bit w 16" for w :: u64
    using and_power_eq [of w 16] by (simp add: push_bit_eq_mult)
  show "\<not> bit (buffer_page_fault f) 0 \<and> \<not> bit (buffer_access_fault f) 0"
    "buffer f AND 3 = 3 \<Longrightarrow> \<not> bit (buffer_page_fault f) 16 \<and> \<not> bit (buffer_access_fault f) 16"
    using assms unfolding fetch_fault_def b0 b16 by (auto split: if_splits)
qed

lemma buffer_instruction:
  assumes "buffer_ok C code f" and "\<not> if_id_flush f" and "if_id_fault f = 0" and "in_code C code (if_id_pc f)"
  shows "(if if_id_inst f AND 3 = 3 then if_id_inst f else if_id_inst f AND 0xffff) = instr_at code (if_id_pc f)"
    and "if_id_inst f AND 3 = 3 \<longleftrightarrow> instr_at code (if_id_pc f) AND 3 = 3"
proof -
  let ?b = "buffer f" and ?pc = "if_id_pc f"
  have ok: "fetch_ok f" "stream_rel (code_half C code) (fetch_abs f)" and out: "if_id_inst f = ucast ?b" "?pc = buffer_addr f"
    and "fst (fetch_fault f) = 0"
    using assms(1-3) by (auto simp: buffer_ok_def) (metis fst_conv)
  note free = fault_free [OF this(5)] and stream = stream_instruction [OF ok assms(2)]
  have h0: "half_at code ?pc = ucast ?b"
    using stream(1) free(1) assms(4) by (simp add: code_half_def lane_def out(2) in_code_def)
  have low: "if_id_inst f AND 3 = 3 \<longleftrightarrow> ?b AND 3 = 3" "(ucast ?b :: u16) AND 3 = 3 \<longleftrightarrow> ?b AND 3 = 3"
    by (simp_all add: out low_two_bits bit_simps)
  have h1: "half_at code (?pc + 2) = ucast (drop_bit 16 ?b)" if "?b AND 3 = 3"
    using stream(2) [OF that] free(2) [OF that] assms(4) that h0 low(2)
    by (simp add: code_half_def lane_def out(2) in_code_def)
  have wide: "(ucast ?b :: u32) = push_bit 16 (ucast (ucast (drop_bit 16 ?b) :: u16)) OR ucast (ucast ?b :: u16)"
    by (intro bit_word_eqI) (auto simp: bit_simps)
  have "(ucast ?b :: u32) AND mask 16 = ucast (ucast ?b :: u16)"
    by (intro bit_word_eqI) (auto simp: bit_simps)
  then have narrow: "(ucast ?b :: u32) AND 0xffff = ucast (ucast ?b :: u16)"
    by (simp add: mask_eq_exp_minus_1)
  show "(if if_id_inst f AND 3 = 3 then if_id_inst f else if_id_inst f AND 0xffff) = instr_at code ?pc"
    using h1 wide narrow unfolding instr_at_def h0 low by (simp add: out(1))
  show "if_id_inst f AND 3 = 3 \<longleftrightarrow> instr_at code ?pc AND 3 = 3"
    unfolding instr_at_def h0 low by (simp add: low_two_bits bit_simps)
qed

subsection \<open>The instruction to execute\<close>

text \<open>The decoder on one instruction of the sequential machine: nothing in flight, no fault.\<close>

definition plain_in :: "arch \<Rightarrow> DECODE_IN" where
  "plain_in st =
     \<lparr>di_rst = False, di_stall = False, di_flush = False, di_npc = fst st, di_if_id_inst = 0, di_if_id_pc = fst st,
      di_if_id_fault = 0, di_if_id_tval = 0, di_if_id_flush = False, di_ex_write_rd = False, di_ex_rd_val = 0, di_ex_rd = 0,
      di_wb_write_rd = False, di_wb_rd_val = 0, di_wb_rd = 0, di_regs = snd st\<rparr>"

definition decode_word :: "DECODE_IN \<Rightarrow> u32 \<Rightarrow> ID_EX" where
  "decode_word i w = (if w AND 3 = 3 then decode i w else decompress i w)"

definition program_slot :: "(u32 \<Rightarrow> u32) \<Rightarrow> arch \<Rightarrow> ID_EX" where
  "program_slot code st =
     (let i = plain_in st in (decode_fault i (decode_word i (instr_at code (fst st))))\<lparr>ie_flush := False\<rparr>)"

lemma decode_cong:
  assumes "operand i = operand j" and "di_if_id_pc i = di_if_id_pc j"
  shows "decode_word i w = decode_word j w"
proof -
  have "dec_common i w = dec_common j w"
    using assms by (simp add: dec_common_def Let_def)
  moreover have "decompress i w = decompress j w"
    using assms by (simp add: decompress_def Let_def)
  ultimately show ?thesis
    by (simp add: decode_word_def decode_def Let_def)
qed

definition slot_ok :: "(u32 \<Rightarrow> bool) \<Rightarrow> (u32 \<Rightarrow> u32) \<Rightarrow> CPU \<Rightarrow> bool" where
  "slot_ok C code c \<longleftrightarrow> cpu_id_ex c = empty_slot \<or> ie_on_trap (cpu_id_ex c) \<or> \<not> in_code C code (ex_pc (cpu_exec c)) \<or>
     cpu_id_ex c = program_slot code (arch_of c)"

lemma id_ex_tmp_word:
  assumes buf: "buffer_ok C code f" and i: "di_if_id_inst i = if_id_inst f" "di_if_id_pc i = if_id_pc f"
    "di_if_id_fault i = if_id_fault f" and acc: "di_npc i = di_if_id_pc i" "\<not> if_id_flush f" "if_id_fault f = 0"
    and tmp: "id_ex_tmp i = (decode_fault i (if di_if_id_inst i AND 3 = 3 then decode i (di_if_id_inst i)
        else decompress i (di_if_id_inst i AND 0x0000ffff)))\<lparr>ie_flush := False\<rparr>"
    and reads: "operand i = (\<lambda>r. rf ! unat r)" and C: "in_code C code (di_npc i)"
  shows "id_ex_tmp i = program_slot code (di_npc i, rf)"
proof -
  let ?inst = "di_if_id_inst i" and ?j = "plain_in (di_npc i, rf)"
  have pc: "di_npc i = if_id_pc f"
    using acc(1) i(2) by simp
  then have "in_code C code (if_id_pc f)"
    using C by simp
  then have word: "(if ?inst AND 3 = 3 then ?inst else ?inst AND 0xffff) = instr_at code (di_npc i)"
    "?inst AND 3 = 3 \<longleftrightarrow> instr_at code (di_npc i) AND 3 = 3"
    unfolding pc i(1) by (rule buffer_instruction [OF buf acc(2,3)])+
  have "(if ?inst AND 3 = 3 then decode i ?inst else decompress i (?inst AND 0x0000ffff)) =
      decode_word i (instr_at code (di_npc i))"
    using word by (simp add: decode_word_def split: if_splits)
  also have "\<dots> = decode_word ?j (instr_at code (di_npc i))"
    using reads acc(1) by (intro decode_cong) (auto simp: plain_in_def operand_def)
  finally show ?thesis
    unfolding tmp by (simp add: program_slot_def decode_fault_def i(3) acc(3) plain_in_def Let_def)
qed

lemma id_ex_tmp_program:
  assumes buf: "buffer_ok C code f" and i: "di_if_id_inst i = if_id_inst f" "di_if_id_pc i = if_id_pc f"
    "di_if_id_fault i = if_id_fault f" "di_if_id_flush i = if_id_flush f"
    and "\<not> di_stall i" and reads: "operand i = (\<lambda>r. rf ! unat r)"
  shows "id_ex_tmp i = empty_slot \<or> ie_on_trap (id_ex_tmp i) \<or> \<not> in_code C code (di_npc i) \<or>
     id_ex_tmp i = program_slot code (di_npc i, rf)"
proof (cases "id_ex_tmp i = empty_slot")
  case False
  have acc: "di_npc i = di_if_id_pc i" "\<not> if_id_flush f" and tmp: "id_ex_tmp i = (decode_fault i
      (if di_if_id_inst i AND 3 = 3 then decode i (di_if_id_inst i) else decompress i (di_if_id_inst i AND 0x0000ffff)))\<lparr>ie_flush := False\<rparr>"
    using False assms(6) i(4) by (auto simp: id_ex_tmp_def empty_slot_def Let_def split: if_splits)
  have "fst (fetch_fault f) \<in> {0, 1, 12}"
    by (simp add: fetch_fault_def)
  then have "if_id_fault f \<in> {0, 1, 12}"
    using buf acc(2) by (metis buffer_ok_def fst_conv)
  then consider "ie_on_trap (id_ex_tmp i)" | "if_id_fault f = 0"
    unfolding tmp by (auto simp: decode_fault_def i(3) Let_def)
  then show ?thesis
    using id_ex_tmp_word [OF buf i(1-3) acc _ tmp reads] by cases blast+
qed simp

lemma slot_ok_cycle:
  assumes cycle: "machine_cycle i s = Some t" "schedule (mi_order i)" and ok: "machine_ok s" "data_ok s"
    and slot: "slot_ok C code (m_cpu s)" and buf: "buffer_ok C code (cpu_fetch (m_cpu s))"
  shows "slot_ok C code (m_cpu t)"
proof (cases "ex_stall (stage i s)")
  case True
  note st = cycle_stalled [OF cycle True data_ok_rsp [OF ok(2)]]
  have "arch_regs (m_cpu t) = arch_regs (m_cpu s)"
    using st(4) cycle_regs_arch [OF cycle] by (simp add: arch_regs_def [of "m_cpu t"] Let_def)
  then show ?thesis
    using slot st(1,3) by (simp add: slot_ok_def arch_of_def)
next
  case False
  have d: "cpu_id_ex (m_cpu t) = id_ex_tmp (decode_in i s)"
    using False by (simp add: cycle_decode [OF cycle] inst_decode_seq_def Let_def del: exec_comb_frame)
  show ?thesis
  proof (cases "mi_rst i")
    case True
    then show ?thesis
      using reset_cycle_empty [OF cycle] by (simp add: slot_ok_def)
  next
    case run: False
    have "ex_pc (cpu_exec (m_cpu t)) = di_npc (decode_in i s)"
      using cycle_wb [OF cycle] run by (simp add: wb_part_def writeback_seq_def)
    moreover have "operand (decode_in i s) = (\<lambda>r. arch_regs (m_cpu t) ! unat r)"
      using operand_arch [OF cycle run ok(1)] by blast
    moreover have "\<not> di_stall (decode_in i s)"
      using False by simp
    ultimately show ?thesis
      using id_ex_tmp_program [OF buf, of "decode_in i s" "arch_regs (m_cpu t)"]
      by (simp add: slot_ok_def arch_of_def d decode_in_def decode_ports_def Let_def del: decode_in_simps)
  qed
qed

subsection \<open>The program is executed\<close>

text \<open>The runs of the machine in which the words of the code region keep their contents and address
  translation is off.\<close>

inductive program_run :: "(u32 \<Rightarrow> bool) \<Rightarrow> (u32 \<Rightarrow> u32) \<Rightarrow> bool \<Rightarrow> MACHINE \<Rightarrow> bool" for C code where
  power_on: "mem_safe m \<Longrightarrow> even entry \<Longrightarrow> machine_power_on linux entry m sh tj ij fj = Some s \<Longrightarrow>
    program_run C code True s"
| cycle: "program_run C code r s \<Longrightarrow> (mi_rst i \<Longrightarrow> r) \<Longrightarrow> schedule (mi_order i) \<Longrightarrow> machine_cycle i s = Some t \<Longrightarrow>
    translation_off s \<Longrightarrow> holds_code C code t \<Longrightarrow> program_run C code (mi_rst i) t"

lemma program_run_reachable: "program_run C code r s \<Longrightarrow> reachable r s"
  by (induction rule: program_run.induct) (auto intro: reachable.intros)

definition program_ok :: "(u32 \<Rightarrow> bool) \<Rightarrow> (u32 \<Rightarrow> u32) \<Rightarrow> MACHINE \<Rightarrow> bool" where
  "program_ok C code s \<longleftrightarrow> even (ex_pc (cpu_exec (m_cpu s))) \<and> even (x_entry (cpu_exec (m_cpu s))) \<and> iport_ok C code s \<and>
     buffer_ok C code (cpu_fetch (m_cpu s)) \<and> slot_ok C code (m_cpu s)"

lemma buffer_ok_reset:
  assumes "fi_rst i"
  shows "buffer_ok C code (get_inst_seq i f)"
proof -
  have z: "buffer (get_inst_seq i f) = 0" "buffer_idx (get_inst_seq i f) = 0" "buffer_addr (get_inst_seq i f) = 0"
    "buffer_page_fault (get_inst_seq i f) = 0" "buffer_access_fault (get_inst_seq i f) = 0" "if_id_flush (get_inst_seq i f)"
    using assms by (simp_all add: get_inst_seq_def fetch_output_def fetch_buffer_def Let_def)
  have "holds_halves 0 (get_inst_seq i f)"
    by (simp add: holds_halves_def z)
  moreover have "fetch_abs (get_inst_seq i f) = (0, [])"
    by (simp add: fetch_abs_def fetch_queue_def lanes_def z)
  ultimately show ?thesis
    by (auto simp: buffer_ok_def fetch_ok_def z get_inst_seq_out stream_rel_def)
qed

lemma power_on_fetch:
  assumes "cpu_power_on i (CPU_ctor entry tj ij fj) = Some c" and "even entry"
  shows "cpu_immu c = IMMU_ctor ij" "even (cpu_fetch_pc c)" "ex_pc (cpu_exec c) = entry" "x_entry (cpu_exec c) = entry"
    "buffer_ok C code (cpu_fetch c)"
proof -
  define s where "s = CPU_ctor entry tj ij fj"
  define i0 where "i0 = i\<lparr>ci_rst := False\<rparr>"
  define i1 where "i1 = i\<lparr>ci_rst := True\<rparr>"
  define e where "e = exec_ports i0 s"
  obtain t u where t: "run_processes (cpu_process i0 s) method_processes s = Some t"
    and u: "u = t\<lparr>cpu_exec := exec_comb e (cpu_exec t)\<rparr>"
    and c: "run_processes (cpu_process i1 u) method_processes u = Some c"
    using assms(1) unfolding cpu_power_on_def s_def [symmetric] Let_def i0_def [symmetric] i1_def [symmetric] e_def [symmetric]
    by (auto simp: bind_eq_Some_conv)
  have s: "cpu_immu s = IMMU_ctor ij" "x_entry (cpu_exec s) = entry" "ex_npc (cpu_exec s) = 0"
    by (simp_all add: s_def CPU_ctor_def EXEC_ctor_def)
  have t: "cpu_immu t = IMMU_ctor ij" "x_entry (cpu_exec t) = entry" "ex_pc (cpu_exec t) = 0"
    using t s by (auto simp: method_processes_def Let_def writeback_seq_def i0_def)
  show "cpu_immu c = IMMU_ctor ij" "ex_pc (cpu_exec c) = entry" "x_entry (cpu_exec c) = entry"
    using c t by (auto simp: method_processes_def Let_def writeback_seq_def u i1_def)
  have "even (ex_npc (cpu_exec u))"
    using even_npc [of "cpu_exec t" e] t assms(2) by (simp add: u)
  then show "even (cpu_fetch_pc c)"
    using c by (auto simp: method_processes_def Let_def next_pc_seq_def i1_def)
  have "cpu_fetch c = get_inst_seq (fetch_ports i1 u) (cpu_fetch u)"
    using c by (auto simp: method_processes_def Let_def)
  then show "buffer_ok C code (cpu_fetch c)"
    using buffer_ok_reset [of "fetch_ports i1 u"] by (simp add: fetch_ports_def i1_def)
qed

lemma program_power_on:
  assumes "mem_safe m" and "even entry" and "machine_power_on linux entry m sh tj ij fj = Some s"
  shows "program_ok C code s"
proof -
  obtain i c m1 m2 where c: "cpu_power_on i (CPU_ctor entry tj ij fj) = Some c"
    and f: "inst_fetch (immu_to_mem (cpu_immu c)) m1 = Some (m_iout s, m2)" and s: "m_cpu s = c"
    using assms(3) by (auto simp: machine_power_on_def Let_def bind_eq_Some_conv)
  note p = power_on_fetch [OF c assms(2)]
  have "m_iout s = MEM_OUT_ctor"
    using f by (simp add: p IMMU_ctor_def IMEM_IN_ctor_def inst_fetch_def MEM_OUT_ctor_def)
  moreover have "\<not> imem_req_ack (immu_to_mem (IMMU_ctor ij))" "i_state (IMMU_ctor ij) = 0" "immu_pc (IMMU_ctor ij) = 0"
    "\<not> mmu_rsp_ack (immu_to_ifetch (IMMU_ctor ij))"
    by (simp_all add: IMMU_ctor_def IMEM_IN_ctor_def MMU_RSP_ctor_def)
  ultimately have "iport_ok C code s"
    using p(2) by (simp add: iport_ok_def s p(1) arrives_def Let_def)
  then show ?thesis
    using p assms(2) pipeline_power_on(2) [OF assms(1,3)] by (simp add: program_ok_def s slot_ok_def)
qed

lemma program_run_ok: "program_run C code r s \<Longrightarrow> program_ok C code s"
proof (induction rule: program_run.induct)
  case (power_on m entry linux sh tj ij fj s)
  then show ?case
    using program_power_on by blast
next
  case (cycle r s i t)
  have ok: "machine_ok s" "data_ok s"
    using reachable_pipeline [OF program_run_reachable [OF cycle.hyps(1)]] by (simp_all add: pipeline_ok_def)
  note cyc = cycle.hyps(4,3)
  have even: "even (ex_pc (cpu_exec (m_cpu s)))" "even (x_entry (cpu_exec (m_cpu s)))"
    and ip: "iport_ok C code s" and buf: "buffer_ok C code (cpu_fetch (m_cpu s))" and slot: "slot_ok C code (m_cpu s)"
    using cycle.IH by (simp_all add: program_ok_def)
  have npc: "even (ex_npc (stage i s))"
    using even_npc even by simp
  have "x_entry (cpu_exec (m_cpu t)) = x_entry (cpu_exec (m_cpu s))"
    using cycle_comb [OF cyc] by (simp add: comb_part_def)
  moreover have "even (ex_pc (cpu_exec (m_cpu t)))"
    using cycle_wb [OF cyc] npc even(2) by (simp add: wb_part_def writeback_seq_def split: if_splits)
  moreover have "buffer_ok C code (cpu_fetch (m_cpu t))"
    unfolding cycle_fetch [OF cyc] by (rule buffer_ok_step [OF buf fetch_rel_in [OF ip]])
  ultimately show ?case
    using even(2) iport_ok_cycle [OF cyc ok(1) ip cycle.hyps(5,6) npc] slot_ok_cycle [OF cyc ok slot buf]
    by (simp add: program_ok_def)
qed

lemma trapped_slot:
  assumes "ie_on_trap (cpu_id_ex (m_cpu s))" and "\<not> ie_flush (cpu_id_ex (m_cpu s))" and "\<not> mi_rst i"
  shows "c_on_trap (x_comb (stage i s))"
  using assms by (auto simp: exec_dispatch_def Let_def split: option.split)

lemma program_slot_in_stage:
  assumes "program_ok C code s" and "in_code C code (ex_pc (cpu_exec (m_cpu s)))" and "\<not> mi_rst i"
    and "\<not> c_on_trap (x_comb (stage i s))" and "\<not> ie_flush (cpu_id_ex (m_cpu s))"
  shows "cpu_id_ex (m_cpu s) = program_slot code (arch_of (m_cpu s))"
  using assms trapped_slot [of s i] by (auto simp: program_ok_def slot_ok_def empty_slot_def)

end
