(* ===== verification/Cpu_Boot.thy ===== *)
theory Cpu_Boot
  imports Cpu_Program
begin

unbundle bit_operations_syntax

text \<open>
  From power-on to the first instruction: after the reset the machine fetches from its entry
  address, and the execute stage holds the first instruction of the program four cycles later.
\<close>

subsection \<open>An empty execute stage\<close>

lemma idle_dispatch:
  assumes "xi_id_ex i = empty_slot" and "x_csr x CSR_MIE = 0"
  shows "exec_dispatch i x (comb_init i x) =
     (if xi_rst i
      then (comb_init i x)\<lparr>c_req := (c_req (comb_init i x))\<lparr>dmem_req_ack := False, dmem_is_amo := False, dmem_is_load := False,
             dmem_is_store := False\<rparr>, c_npc := x_entry x\<rparr>
      else comb_init i x)"
  using assms by (simp add: exec_dispatch_def check_interrupt_disabled empty_slot_def Let_def)

text \<open>Without a trap, a return or a CSR access the edge changes neither the privilege nor the PMP.\<close>

lemma seq_part_quiet:
  assumes "\<not> c_on_trap (x_comb (exec_comb i x))" "\<not> c_csr_sret (x_comb (exec_comb i x))" "\<not> c_csr_mret (x_comb (exec_comb i x))"
    "\<not> c_csr_access (x_comb (exec_comb i x))"
  shows "seq_part (exec_seq i (exec_comb i x)) = seq_part x"
proof -
  have "seq_core i (exec_comb i x) = (exec_comb i x)\<lparr>x_val := x_val (seq_core i (exec_comb i x))\<rparr>"
    using assms by (simp add: seq_core_def Let_def)
  then have "x_priv (seq_core i (exec_comb i x)) = x_priv x" "x_pmp (seq_core i (exec_comb i x)) = x_pmp x"
    "x_csr (seq_core i (exec_comb i x)) = x_csr x"
    by (metis EXEC.select_convs(1,2,3) EXEC.surjective EXEC.update_convs(5) exec_comb_frame(1,2,3))+
  then show ?thesis
    by (simp add: seq_part_def exec_seq_core cong: if_cong)
qed

lemma seq_part_csr: "seq_part x = seq_part y \<Longrightarrow> a \<notin> set volatile_csrs \<Longrightarrow> x_csr x a = x_csr y a"
  by (auto simp: seq_part_def fun_eq_iff split: if_splits)

lemma idle_stage:
  assumes "xi_id_ex i = empty_slot" and "x_csr x CSR_MIE = 0"
  shows "\<not> c_on_trap (x_comb (exec_comb i x))" "\<not> ex_stall (exec_comb i x)" "\<not> ex_flush (exec_comb i x)"
    "\<not> ex_branch_taken (exec_comb i x)" "\<not> dmem_req_ack (ex_to_dmmu (exec_comb i x))" "\<not> ex_write_rd (exec_comb i x)"
    "ex_npc (exec_comb i x) = (if xi_rst i then x_entry x else ex_pc x)"
    "seq_part (exec_seq i (exec_comb i x)) = seq_part x"
proof -
  note d = idle_dispatch [OF assms]
  have c: "\<not> c_on_trap (comb_init i x)" "\<not> c_stall (comb_init i x)" "\<not> c_flush (comb_init i x)"
    "\<not> c_csr_access (comb_init i x)" "\<not> c_csr_sret (comb_init i x)" "\<not> c_csr_mret (comb_init i x)"
    "\<not> c_branch_taken (comb_init i x)" "\<not> dmem_req_ack (c_req (comb_init i x))" "c_npc (comb_init i x) = ex_pc x"
    by (simp_all add: comb_init_def DMEM_IN_ctor_def Let_def)
  have w: "\<not> ie_writes_rd (xi_id_ex i)"
    using assms(1) by (simp add: empty_slot_def ID_EX_ctor_def)
  show "\<not> c_on_trap (x_comb (exec_comb i x))" "\<not> ex_stall (exec_comb i x)" "\<not> ex_flush (exec_comb i x)"
    "\<not> ex_branch_taken (exec_comb i x)" "\<not> dmem_req_ack (ex_to_dmmu (exec_comb i x))" "\<not> ex_write_rd (exec_comb i x)"
    "ex_npc (exec_comb i x) = (if xi_rst i then x_entry x else ex_pc x)"
    using c w by (simp_all add: exec_comb_def exec_outputs_def d Let_def)
  show "seq_part (exec_seq i (exec_comb i x)) = seq_part x"
    by (rule seq_part_quiet) (use c in \<open>simp_all add: d Let_def\<close>)
qed

text \<open>The machine after power-on, before its first instruction: machine mode, interrupts and
  translation off, no PMP entry, nothing in the execute stage or the data port.\<close>

definition idle :: "(u32 \<Rightarrow> u8) \<Rightarrow> u32 \<Rightarrow> regs \<Rightarrow> MACHINE \<Rightarrow> bool" where
  "idle B pc rf s \<longleftrightarrow>
     (let x = cpu_exec (m_cpu s)
      in x_priv x = 3 \<and> x_pmp x = PMP_ctor \<and> x_csr x CSR_MIE = 0 \<and> x_csr x CSR_SATP = 0 \<and>
         x_csr x CSR_MSTATUS AND MSTATUS_MPRV = 0 \<and>
         x_entry x = pc \<and> ex_pc x = pc \<and> \<not> wb_write_rd x \<and> \<not> wb_stall x \<and>
         cpu_regs (m_cpu s) = rf \<and> d_state (cpu_dmmu (m_cpu s)) = 0 \<and> m_dout s = MEM_OUT_ctor \<and>
         mem_byte (m_mem s) = B \<and> word_answer B (immu_to_mem (cpu_immu (m_cpu s))) (m_iout s))"

text \<open>The reset is released together with a rising edge: the falling edge before it still sees the
  reset. Nothing depends on that, since the falling edge of an idle machine at its entry address
  gives the same outputs with and without reset.\<close>

lemma reset_release:
  assumes "idle B pc rf s" and "cpu_id_ex (m_cpu s) = empty_slot"
  shows "cpu_fall ((cpu_ports i s m)\<lparr>ci_rst := True\<rparr>) (m_cpu s) = cpu_fall ((cpu_ports i s m)\<lparr>ci_rst := False\<rparr>) (m_cpu s)"
proof -
  let ?c = "m_cpu s" and ?p = "\<lambda>r. (cpu_ports i s m)\<lparr>ci_rst := r\<rparr>"
  let ?i = "\<lambda>r. exec_ports (?p r) ?c" and ?x = "cpu_exec (m_cpu s)"
  have x: "x_csr ?x CSR_MIE = 0" "x_entry ?x = ex_pc ?x"
    using assms(1) by (simp_all add: idle_def Let_def)
  have slot: "xi_id_ex (?i r) = empty_slot" for r
    using assms(2) by (simp add: exec_ports_def)
  have init: "comb_init (?i True) ?x = comb_init (?i False) ?x"
    by (simp add: comb_init_def exec_ports_def Let_def)
  have "exec_dispatch (?i r) ?x (comb_init (?i r) ?x) = comb_init (?i False) ?x" for r
  proof (cases r)
    case True
    have rst: "xi_rst (?i r)"
      using True by (simp add: exec_ports_def)
    show ?thesis
      unfolding idle_dispatch [OF slot x(1)] if_P [OF rst]
      using True x(2) slot [of False] init by (simp add: comb_init_def empty_slot_def ID_EX_ctor_def Let_def)
  next
    case False
    have rst: "\<not> xi_rst (?i r)"
      using False by (simp add: exec_ports_def)
    show ?thesis
      unfolding idle_dispatch [OF slot x(1)] if_not_P [OF rst] using False by simp
  qed
  then have "exec_comb (?i True) ?x = exec_comb (?i False) ?x"
    by (simp add: exec_comb_def exec_outputs_def exec_ports_def Let_def)
  then show ?thesis
    by (simp add: cpu_fall_def fifo_state_comb_def fetch_ports_def Let_def)
qed

lemma idle_cycle:
  assumes cycle: "machine_cycle i s = Some t" "schedule (mi_order i)" and ok: "machine_ok s" "data_ok s"
    and s: "idle B pc rf s" "cpu_id_ex (m_cpu s) = empty_slot"
  shows "idle B pc rf t" and "\<not> ex_stall (stage i s)" and "\<not> ex_flush (stage i s)" and "\<not> ex_branch_taken (stage i s)"
    and "ex_npc (stage i s) = pc" and "seq_part (exec_seq (cycle_exec_in i s) (stage i s)) = seq_part (cpu_exec (m_cpu s))"
proof -
  let ?i = "cycle_exec_in i s" and ?x = "cpu_exec (m_cpu s)"
  have mprv: "x_csr ?x CSR_MSTATUS AND MSTATUS_MPRV = 0"
    using s(1) by (simp add: idle_def Let_def)
  have sx: "x_priv ?x = 3" "x_pmp ?x = PMP_ctor" "x_csr ?x CSR_MIE = 0" "x_csr ?x CSR_SATP = 0" "x_entry ?x = pc"
    "ex_pc ?x = pc" "\<not> wb_write_rd ?x" "cpu_regs (m_cpu s) = rf" "d_state (cpu_dmmu (m_cpu s)) = 0"
    "m_dout s = MEM_OUT_ctor" "mem_byte (m_mem s) = B"
    and ans: "word_answer B (immu_to_mem (cpu_immu (m_cpu s))) (m_iout s)"
    using s(1) by (simp_all add: idle_def Let_def)
  note st = idle_stage [of ?i ?x, OF _ sx(3)]
  show "\<not> ex_stall (stage i s)" "\<not> ex_flush (stage i s)" "\<not> ex_branch_taken (stage i s)" "ex_npc (stage i s) = pc"
    using st s(2) sx(5,6) by (simp_all del: exec_comb_frame)
  show same: "seq_part (exec_seq ?i (stage i s)) = seq_part ?x"
    using st(8) s(2) by simp
  have "seq_part (cpu_exec (m_cpu t)) = seq_part ?x"
    using cycle_priv [OF cycle] same by simp
  then have part: "x_priv (cpu_exec (m_cpu t)) = x_priv ?x" "x_pmp (cpu_exec (m_cpu t)) = x_pmp ?x"
    "\<And>a. a \<notin> set volatile_csrs \<Longrightarrow> x_csr (cpu_exec (m_cpu t)) a = x_csr ?x a"
    by (simp add: seq_part_def, simp add: seq_part_def, rule seq_part_csr)
  obtain junk y tlb where d: "cpu_dmmu (m_cpu t) = fst (dmem_req_seq junk (dmmu_in i s y) (cpu_dmmu (m_cpu s)) tlb)"
    using cycle_dmmu [OF cycle] by blast
  have quiet: "quiet_dmmu (cpu_dmmu (m_cpu t))"
    unfolding d using sx(9) st(5) s(2) by (intro dmmu_quiet) simp
  then have "m_dout t = MEM_OUT_ctor"
    using data_ok_cycle [OF cycle ok(2)] by (simp add: data_ok_def quiet_dmmu_def Let_def)
  moreover have bytes: "mem_byte (m_mem t) = B"
    using mem_state_byte [OF cycle_bytes [OF cycle(1) ok(1)]] sx(10,11) by (simp add: MEM_OUT_ctor_def)
  moreover have "word_answer B (immu_to_mem (cpu_immu (m_cpu t))) (m_iout t)"
    using cycle_iout [OF cycle(1) ok(1)] ans bytes by auto
  moreover have "cpu_regs (m_cpu t) = rf"
    using cycle_regs_arch [OF cycle] sx(7,8) by (simp add: arch_regs_def Let_def)
  moreover have "ex_pc (cpu_exec (m_cpu t)) = pc" "\<not> wb_write_rd (cpu_exec (m_cpu t))" "\<not> wb_stall (cpu_exec (m_cpu t))"
    using cycle_wb [OF cycle] st(2,6,7) s(2) sx(5,6) by (auto simp: wb_part_def writeback_seq_def split: if_splits)
  moreover have "x_entry (cpu_exec (m_cpu t)) = pc"
    using cycle_comb [OF cycle] sx(5) by (simp add: comb_part_def)
  moreover have "CSR_MIE \<notin> set volatile_csrs" "CSR_SATP \<notin> set volatile_csrs" "CSR_MSTATUS \<notin> set volatile_csrs"
    by (simp_all add: volatile_csrs_def)
  ultimately show "idle B pc rf t"
    using part sx(1-4) mprv quiet by (simp add: idle_def quiet_dmmu_def Let_def)
qed

subsection \<open>The ports while the stage is idle\<close>

text \<open>If the cycle changes neither the privilege nor the PMP, the ports see the values before it,
  whenever in the edge they run.\<close>

lemma quiet_field:
  assumes f: "f = s\<lparr>m_cpu := fallen i s, m_shared := mi_shared i\<rparr>"
    and e: "run_processes (machine_step i f) (mi_order i) f = Some e" "schedule (mi_order i)"
    and quiet: "seq_part (exec_seq (cycle_exec_in i s) (stage i s)) = seq_part (cpu_exec (m_cpu s))"
    and own: "\<And>m t c. seq_part (cpu_exec t) = seq_part (cpu_exec (m_cpu s)) \<Longrightarrow>
      cpu_process (cpu_ports i f m) (fallen i s) p t = Some c \<Longrightarrow> P (g c)"
    and other: "\<And>m q t c. q \<noteq> p \<Longrightarrow> cpu_process (cpu_ports i f m) (fallen i s) q t = Some c \<Longrightarrow> g c = g t"
  shows "P (g (m_cpu e))"
proof -
  define I where "I u \<longleftrightarrow> seq_part (cpu_exec (m_cpu u)) = seq_part (cpu_exec (m_cpu s))" for u :: MACHINE
  have fm: "m_cpu f = fallen i s"
    by (simp add: f)
  have I_step: "I u" if "I t" "machine_step i f q t = Some u" for q t u
  proof (cases q)
    case (CPU_process r)
    then show ?thesis
      using that exec_seq_ports [of i f _ s] quiet cpu_process_exec_frame(2) [of _ _ r]
      by (cases "r = P_exec_seq") (auto simp: I_def fm machine_step_CPU)
  qed (use that machine_step_other [OF that(2)] in \<open>auto simp: I_def\<close>)
  have "I f"
    by (simp add: I_def fm seq_part_def cong: if_cong)
  then have guarded: "run_processes (\<lambda>q t. if I t then machine_step i f q t else None) (mi_order i) f = Some e"
    using I_step by (rule run_guarded [OF e(1)])
  show ?thesis
  proof (rule run_processes_field [OF guarded, where f = "\<lambda>u. g (m_cpu u)" and p = "CPU_process p"])
    show "CPU_process p \<in> set (mi_order i)"
      using e(2) by (cases p) (simp_all add: schedule_def all_processes_def)
  next
    fix t u assume "(if I t then machine_step i f (CPU_process p) t else None) = Some u"
    then show "P (g (m_cpu u))"
      using own fm by (auto simp: I_def machine_step_CPU split: if_splits)
  next
    fix q t u assume q: "q \<noteq> CPU_process p" and "(if I t then machine_step i f q t else None) = Some u"
    then have u: "machine_step i f q t = Some u"
      by (simp split: if_splits)
    show "g (m_cpu u) = g (m_cpu t)"
      using q u machine_step_other [OF u] other by (cases q) (auto simp: fm machine_step_CPU)
  qed
qed

lemma cycle_ports_quiet:
  assumes cycle: "machine_cycle i s = Some t" "schedule (mi_order i)"
    and quiet: "seq_part (exec_seq (cycle_exec_in i s) (stage i s)) = seq_part (cpu_exec (m_cpu s))"
  shows "\<exists>junk y tlb. seq_part y = seq_part (cpu_exec (m_cpu s)) \<and>
      cpu_immu (m_cpu t) = imem_rsp_comb (m_iout t) (fst (imem_req_seq junk (immu_in i s y) (cpu_immu (m_cpu s)) tlb))"
    and "\<exists>junk y tlb. seq_part y = seq_part (cpu_exec (m_cpu s)) \<and>
      cpu_dmmu (m_cpu t) = fst (dmem_req_seq junk (dmmu_in i s y) (cpu_dmmu (m_cpu s)) tlb)"
proof -
  obtain f e where f: "f = s\<lparr>m_cpu := fallen i s, m_shared := mi_shared i\<rparr>"
    and e: "run_processes (machine_step i f) (mi_order i) f = Some e"
    and t: "m_cpu t = (m_cpu e)\<lparr>cpu_dmmu_to_ex := dmem_rsp_comb (ex_to_dmmu (cpu_exec (m_cpu e))) (m_dout t) (cpu_dmmu (m_cpu e)),
           cpu_immu := imem_rsp_comb (m_iout t) (cpu_immu (m_cpu e))\<rparr>"
    using cycle_edge [OF cycle(1)] .
  note field = quiet_field [OF f e cycle(2) quiet]
  define P where "P d \<longleftrightarrow> (\<exists>junk y tlb. seq_part y = seq_part (cpu_exec (m_cpu s)) \<and>
    d = fst (imem_req_seq junk (immu_in i s y) (cpu_immu (m_cpu s)) tlb))" for d
  have "P (cpu_immu (m_cpu e))"
  proof (rule field [where g = cpu_immu and p = P_imem_req_seq])
    fix m t c assume y: "seq_part (cpu_exec t) = seq_part (cpu_exec (m_cpu s))"
      and "cpu_process (cpu_ports i f m) (fallen i s) P_imem_req_seq t = Some c"
    then have "cpu_immu c = fst (imem_req_seq (mi_ijunk i) (immu_in i s (cpu_exec t)) (cpu_immu (m_cpu s)) (c_tlb (x_comb (cpu_exec t))))"
      by (auto simp: f case_prod_beta immu_in_def immu_ports_def cpu_ports_def Let_def)
    then show "P (cpu_immu c)"
      using y unfolding P_def by blast
  qed (rule cpu_process_frame)
  then show "\<exists>junk y tlb. seq_part y = seq_part (cpu_exec (m_cpu s)) \<and>
      cpu_immu (m_cpu t) = imem_rsp_comb (m_iout t) (fst (imem_req_seq junk (immu_in i s y) (cpu_immu (m_cpu s)) tlb))"
    unfolding P_def t by (auto simp: t) blast
  define Q where "Q d \<longleftrightarrow> (\<exists>junk y tlb. seq_part y = seq_part (cpu_exec (m_cpu s)) \<and>
    d = fst (dmem_req_seq junk (dmmu_in i s y) (cpu_dmmu (m_cpu s)) tlb))" for d
  have "Q (cpu_dmmu (m_cpu e))"
  proof (rule field [where g = cpu_dmmu and p = P_dmem_req_seq])
    fix m t c assume y: "seq_part (cpu_exec t) = seq_part (cpu_exec (m_cpu s))"
      and "cpu_process (cpu_ports i f m) (fallen i s) P_dmem_req_seq t = Some c"
    then have "cpu_dmmu c = fst (dmem_req_seq (mi_djunk i) (dmmu_in i s (cpu_exec t)) (cpu_dmmu (m_cpu s)) (c_tlb (x_comb (cpu_exec t))))"
      by (auto simp: f case_prod_beta dmmu_in_def dmmu_ports_def cpu_ports_def Let_def)
    then show "Q (cpu_dmmu c)"
      using y unfolding Q_def by blast
  qed (rule cpu_process_frame)
  then show "\<exists>junk y tlb. seq_part y = seq_part (cpu_exec (m_cpu s)) \<and>
      cpu_dmmu (m_cpu t) = fst (dmem_req_seq junk (dmmu_in i s y) (cpu_dmmu (m_cpu s)) tlb)"
    by (auto simp: Q_def t)
qed

text \<open>The port of an idle machine: it asks for the word of the next address and has the answer at
  the end of the cycle, or reports an access fault if there is no memory at that address.\<close>

lemma boot_port:
  assumes cycle: "machine_cycle i s = Some t" "schedule (mi_order i)" and ok: "machine_ok s" "data_ok s"
    and s: "idle B pc rf s" "cpu_id_ex (m_cpu s) = empty_slot" and run: "\<not> mi_rst i" "immu_ready (cpu_immu (m_cpu s))"
    and w: "w = cpu_immu (m_cpu t)" and a: "a = (if cpu_if_id_accept (fallen i s) then cpu_fetch_pc (m_cpu s) else immu_pc (cpu_immu (m_cpu s)))"
  shows "immu_pc w = a" and "\<not> immu_flush w" and "immu_ready w" and "mmu_rsp_ack (immu_to_ifetch w)"
    and "is_pma_valid (a AND NOT 3) \<Longrightarrow> mmu_rsp_fault (immu_to_ifetch w) = 0 \<and>
      mmu_rsp_rdata (immu_to_ifetch w) = le_word B (a AND NOT 3) 4"
    and "\<not> is_pma_valid (a AND NOT 3) \<Longrightarrow> mmu_rsp_fault (immu_to_ifetch w) = 1 \<and> mmu_rsp_rdata (immu_to_ifetch w) = 0"
proof -
  note st = idle_cycle [OF cycle ok s]
  obtain junk y tlb where y: "seq_part y = seq_part (cpu_exec (m_cpu s))"
    and wt: "w = imem_rsp_comb (m_iout t) (fst (imem_req_seq junk (immu_in i s y) (cpu_immu (m_cpu s)) tlb))"
    unfolding w using cycle_ports_quiet(1) [OF cycle st(6)] by blast
  let ?j = "immu_in i s y"
  have j: "im_accept ?j = cpu_if_id_accept (fallen i s)" "im_fetch_pc ?j = cpu_fetch_pc (m_cpu s)" "\<not> im_rst ?j" "\<not> im_flush ?j"
    "x_priv (im_exec ?j) = 3" "x_csr (im_exec ?j) CSR_SATP = 0" "pmpentry_id (x_pmp (im_exec ?j)) = []"
    using y s(1) run(1) st(3)
    by (simp_all add: immu_in_def immu_ports_def cpu_ports_def seen_exec_def seq_part_def idle_def PMP_ctor_def Let_def)
  have "pmp_icheck (im_exec ?j) b op sz" for b op sz
    using j(5,7) by (simp add: pmp_icheck_def icheck_def)
  then have req: "immu_to_mem w = (if is_pma_valid (a AND NOT 3) then \<lparr>imem_req_ack = True, imem_addr = a AND NOT 3\<rparr> else IMEM_IN_ctor)"
    and st: "i_state w = 3" "i_pmp_fault w = (\<not> is_pma_valid (a AND NOT 3))" "\<not> i_page_fault w" "immu_pc w = a" "\<not> immu_flush w"
    using run(2) j
    by (simp_all add: wt a imem_req_seq_def imem_step_def imem_start_def imem_check_def i_send_def SATP_ON_def imem_rsp_comb_def
        Let_def)
  have out: "word_answer B (immu_to_mem w) (m_iout t)"
    using idle_cycle(1) [OF cycle ok s] by (simp add: idle_def w Let_def)
  show "immu_pc w = a" "\<not> immu_flush w"
    by (fact st(4,5))+
  have eq: "imem_rsp_comb (m_iout t) w = w"
    by (simp add: wt imem_rsp_comb_def Let_def)
  have "immu_to_ifetch w = immu_to_ifetch (imem_rsp_comb (m_iout t) w)" "immu_ready w = immu_ready (imem_rsp_comb (m_iout t) w)"
    by (simp_all only: eq)
  note val = this [unfolded imem_rsp_comb_def Let_def st IMMU.simps]
  show "immu_ready w" "mmu_rsp_ack (immu_to_ifetch w)"
    using val(2) val(1) st(3) out
    by (cases "is_pma_valid (a AND NOT 3)"; simp add: req word_answer_def answer_def IMEM_IN_ctor_def MMU_RSP_ctor_def)+
  show "mmu_rsp_fault (immu_to_ifetch w) = 0 \<and> mmu_rsp_rdata (immu_to_ifetch w) = le_word B (a AND NOT 3) 4"
    if "is_pma_valid (a AND NOT 3)"
    using that val(1) st(3) out by (simp add: req word_answer_def answer_def MMU_RSP_ctor_def)
  show "mmu_rsp_fault (immu_to_ifetch w) = 1 \<and> mmu_rsp_rdata (immu_to_ifetch w) = 0" if "\<not> is_pma_valid (a AND NOT 3)"
    using that val(1) st(3) out by (simp add: req word_answer_def MEM_OUT_ctor_def IMEM_IN_ctor_def MMU_RSP_ctor_def)
qed

subsection \<open>From reset to the first instruction\<close>

text \<open>The front end in reset; with the answer to its first request, for address 0, where there is no
  memory; with the first word of the program arriving; and with the first instruction at the decoder.\<close>

definition buffer_empty :: "FETCH \<Rightarrow> bool" where
  "buffer_empty f \<longleftrightarrow> buffer f = 0 \<and> buffer_page_fault f = 0 \<and> buffer_access_fault f = 0 \<and> buffer_idx f = 0 \<and>
     buffer_addr f = 0 \<and> if_id_flush f"

definition front_reset :: "CPU \<Rightarrow> bool" where
  "front_reset c \<longleftrightarrow> immu_pc (cpu_immu c) = 0 \<and> i_state (cpu_immu c) = 0 \<and> \<not> mmu_rsp_ack (immu_to_ifetch (cpu_immu c)) \<and>
     \<not> immu_flush (cpu_immu c)"

definition boot1 :: "u32 \<Rightarrow> CPU \<Rightarrow> bool" where
  "boot1 pc c \<longleftrightarrow> front_reset c \<and> immu_ready (cpu_immu c) \<and> cpu_fetch_pc c = pc \<and> buffer_empty (cpu_fetch c)"

definition boot2 :: "u32 \<Rightarrow> CPU \<Rightarrow> bool" where
  "boot2 pc c \<longleftrightarrow> immu_pc (cpu_immu c) = 0 \<and> \<not> immu_flush (cpu_immu c) \<and> immu_ready (cpu_immu c) \<and>
     mmu_rsp_ack (immu_to_ifetch (cpu_immu c)) \<and> mmu_rsp_rdata (immu_to_ifetch (cpu_immu c)) = 0 \<and>
     cpu_fetch_pc c = pc \<and> buffer_empty (cpu_fetch c)"

definition boot3 :: "(u32 \<Rightarrow> u8) \<Rightarrow> u32 \<Rightarrow> CPU \<Rightarrow> bool" where
  "boot3 B pc c \<longleftrightarrow> immu_pc (cpu_immu c) = pc \<and> \<not> immu_flush (cpu_immu c) \<and> immu_ready (cpu_immu c) \<and>
     mmu_rsp_ack (immu_to_ifetch (cpu_immu c)) \<and> mmu_rsp_fault (immu_to_ifetch (cpu_immu c)) = 0 \<and>
     mmu_rsp_rdata (immu_to_ifetch (cpu_immu c)) = le_word B pc 4 \<and>
     buffer_addr (cpu_fetch c) = 0 \<and> buffer_idx (cpu_fetch c) = 32 \<and> if_id_pc (cpu_fetch c) = 0"

definition boot4 :: "u32 \<Rightarrow> CPU \<Rightarrow> bool" where
  "boot4 pc c \<longleftrightarrow> if_id_pc (cpu_fetch c) = pc \<and> \<not> if_id_flush (cpu_fetch c) \<and> if_id_fault (cpu_fetch c) = 0"

lemmas boot_defs = front_reset_def boot1_def boot2_def boot3_def boot4_def buffer_empty_def

lemma idle_fetch_in:
  assumes "idle B pc rf s" and "\<not> ex_stall (stage i s)" and "\<not> ex_flush (stage i s)"
  shows "fetch_in i s = \<lparr>fi_rst = mi_rst i, fi_stall = False, fi_flush = False, fi_immu_flush = immu_flush (cpu_immu (m_cpu s)),
      fi_immu_to_ifetch = immu_to_ifetch (cpu_immu (m_cpu s)), fi_immu_pc = immu_pc (cpu_immu (m_cpu s))\<rparr>"
    and "cpu_if_id_accept (fallen i s) = fifo_state_comb (fetch_in i s) (cpu_fetch (m_cpu s))"
  using assms(2,3)
  by (simp_all add: fetch_in_def fetch_ports_def cpu_ports_def fallen_def cpu_fall_def cycle_exec_in_def Let_def del: exec_comb_frame)

text \<open>An idle machine whose memory does not change is on a run of its program.\<close>

lemma idle_run:
  assumes "program_run (\<lambda>_. True) (\<lambda>a. le_word B a 4) r s" and "machine_cycle i s = Some t" and "schedule (mi_order i)"
    and "mi_rst i \<Longrightarrow> r" and "idle B pc rf s" and "idle B pc rf t"
  shows "program_run (\<lambda>_. True) (\<lambda>a. le_word B a 4) (mi_rst i) t"
proof (rule program_run.cycle [OF assms(1) assms(4) assms(3,2)])
  show "translation_off s" "holds_code (\<lambda>_. True) (\<lambda>a. le_word B a 4) t"
    using assms(5,6) by (simp_all add: translation_off_def holds_code_def idle_def SATP_ON_def Let_def)
qed simp

lemma program_run_state:
  assumes "program_run C code r s"
  shows "machine_ok s" "data_ok s" "buffer_ok C code (cpu_fetch (m_cpu s))"
  using reachable_pipeline [OF program_run_reachable [OF assms]] program_run_ok [OF assms]
  by (simp_all add: pipeline_ok_def program_ok_def)

text \<open>A machine that waits for its first instruction.\<close>

definition waiting :: "(u32 \<Rightarrow> u8) \<Rightarrow> u32 \<Rightarrow> regs \<Rightarrow> bool \<Rightarrow> MACHINE \<Rightarrow> bool" where
  "waiting B pc rf r s \<longleftrightarrow>
     program_run (\<lambda>_. True) (\<lambda>a. le_word B a 4) r s \<and> idle B pc rf s \<and> cpu_id_ex (m_cpu s) = empty_slot"

lemma waiting_state:
  assumes "waiting B pc rf r s"
  shows "machine_ok s" "data_ok s" "idle B pc rf s" "cpu_id_ex (m_cpu s) = empty_slot"
    "buffer_ok (\<lambda>_. True) (\<lambda>a. le_word B a 4) (cpu_fetch (m_cpu s))"
  using assms program_run_state by (auto simp: waiting_def)

lemma waiting_cycle:
  assumes cycle: "machine_cycle i s = Some t" "schedule (mi_order i)" and wait: "waiting B pc rf r s"
  shows "idle B pc rf t" and "mi_rst i \<Longrightarrow> r \<Longrightarrow> program_run (\<lambda>_. True) (\<lambda>a. le_word B a 4) True t"
    and "\<not> mi_rst i \<Longrightarrow> program_run (\<lambda>_. True) (\<lambda>a. le_word B a 4) False t"
    and "mi_rst i \<or> if_id_flush (cpu_fetch (m_cpu s)) \<or> if_id_pc (cpu_fetch (m_cpu s)) \<noteq> pc \<Longrightarrow> cpu_id_ex (m_cpu t) = empty_slot"
proof -
  note st = idle_cycle [OF cycle waiting_state(1-4) [OF wait]]
  show idle: "idle B pc rf t"
    by (rule st(1))
  have run: "program_run (\<lambda>_. True) (\<lambda>a. le_word B a 4) r s" "idle B pc rf s"
    using wait by (simp_all add: waiting_def)
  show "program_run (\<lambda>_. True) (\<lambda>a. le_word B a 4) True t" if "mi_rst i" r
    using idle_run [OF run(1) cycle _ run(2) idle] that by simp
  show "program_run (\<lambda>_. True) (\<lambda>a. le_word B a 4) False t" if "\<not> mi_rst i"
    using idle_run [OF run(1) cycle _ run(2) idle] that by simp
  show "cpu_id_ex (m_cpu t) = empty_slot"
    if "mi_rst i \<or> if_id_flush (cpu_fetch (m_cpu s)) \<or> if_id_pc (cpu_fetch (m_cpu s)) \<noteq> pc"
    using st(2,5) that
    by (auto simp: cycle_decode [OF cycle] inst_decode_seq_def id_ex_tmp_def empty_slot_def decode_in_def decode_ports_def cpu_ports_def
        Let_def simp del: exec_comb_frame decode_in_simps)
qed

lemma aligned_even: "a AND 3 = 0 \<Longrightarrow> even (a :: u32)"
proof -
  assume "a AND 3 = 0"
  moreover have "a AND 1 = (a AND 3) AND 1"
    by (simp add: and.assoc)
  ultimately show "even a"
    by (simp only: and_1_even [symmetric]) simp
qed

lemma boot_reset:
  assumes cycle: "machine_cycle i s = Some t" "schedule (mi_order i)"
    and wait: "waiting B pc rf r s" and rst: "mi_rst i" "front_reset (m_cpu s)"
  shows "boot1 pc (m_cpu t)"
proof -
  note ws = waiting_state [OF wait]
  note st = idle_cycle [OF cycle ws(1-4)]
  have "cpu_fetch_pc (m_cpu t) = pc"
    using st(5) rst(1) by (simp add: cycle_fetch_pc [OF cycle] next_pc_seq_def)
  moreover have "buffer_empty (cpu_fetch (m_cpu t))"
    using rst(1) by (simp add: cycle_fetch [OF cycle] idle_fetch_in [OF ws(3) st(2,3)] get_inst_seq_def fetch_output_def
        fetch_buffer_def buffer_empty_def Let_def)
  moreover have "front_reset (m_cpu t) \<and> immu_ready (cpu_immu (m_cpu t))"
  proof -
    obtain junk y tlb where w: "cpu_immu (m_cpu t) =
        imem_rsp_comb (m_iout t) (fst (imem_req_seq junk (immu_in i s y) (cpu_immu (m_cpu s)) tlb))"
      using cycle_ports_quiet(1) [OF cycle st(6)] by blast
    have j: "im_rst (immu_in i s y)" "\<not> im_flush (immu_in i s y)"
      using rst(1) st(3) by (simp_all add: immu_in_def immu_ports_def cpu_ports_def)
    have "\<not> imem_req_ack (immu_to_mem (cpu_immu (m_cpu t)))"
      using j by (simp add: w imem_rsp_comb_def imem_req_seq_def imem_step_def imem_check_def i_no_req_def IMEM_IN_ctor_def Let_def)
    then have "m_iout t = MEM_OUT_ctor"
      using st(1) by (simp add: idle_def word_answer_def Let_def)
    then show ?thesis
      using j rst(2) by (simp add: w front_reset_def imem_rsp_comb_def imem_req_seq_def imem_step_def imem_check_def i_no_req_def
          IMEM_IN_ctor_def MEM_OUT_ctor_def MMU_RSP_ctor_def Let_def)
  qed
  ultimately show ?thesis
    by (simp add: boot1_def)
qed

lemma boot_run1:
  assumes cycle: "machine_cycle i s = Some t" "schedule (mi_order i)"
    and wait: "waiting B pc rf r s" and run: "\<not> mi_rst i" "boot1 pc (m_cpu s)"
  shows "boot2 pc (m_cpu t)"
proof -
  note ws = waiting_state [OF wait]
  note st = idle_cycle [OF cycle ws(1-4)] and fi = idle_fetch_in [OF ws(3)]
  have acc: "\<not> cpu_if_id_accept (fallen i s)"
    using run(2) st by (simp add: fi fifo_state_comb_def boot_defs)
  note port = boot_port [OF cycle ws(1-4) run(1) _ refl refl]
  have "cpu_fetch_pc (m_cpu t) = pc"
    using run(2) run(1) st(3,4) acc by (simp add: cycle_fetch_pc [OF cycle] next_pc_seq_def boot_defs)
  moreover have "buffer_empty (cpu_fetch (m_cpu t))"
    using run st by (simp add: cycle_fetch [OF cycle] fi get_inst_seq_def fetch_output_def fetch_buffer_def boot_defs Let_def
        fetch_fault_def)
  ultimately show ?thesis
    using port run(2) acc by (simp add: boot2_def) (simp add: boot_defs is_pma_valid_def)
qed

lemma boot_run2:
  assumes cycle: "machine_cycle i s = Some t" "schedule (mi_order i)"
    and wait: "waiting B pc rf r s" and run: "\<not> mi_rst i" "boot2 pc (m_cpu s)"
    and pc: "pc AND 3 = 0" "0x80000000 \<le> pc"
  shows "boot3 B pc (m_cpu t)"
proof -
  note ws = waiting_state [OF wait]
  note st = idle_cycle [OF cycle ws(1-4)] and fi = idle_fetch_in [OF ws(3)]
  have acc: "cpu_if_id_accept (fallen i s)"
    using run(2) st by (simp add: fi fifo_state_comb_def boot_defs)
  have al: "pc AND NOT 3 = pc"
    using pc(1) word_boundary [of pc] by simp
  note port = boot_port [OF cycle ws(1-4) run(1) _ refl refl]
  have "buffer_addr (cpu_fetch (m_cpu t)) = 0 \<and> buffer_idx (cpu_fetch (m_cpu t)) = 32 \<and> if_id_pc (cpu_fetch (m_cpu t)) = 0"
    using run st by (simp add: cycle_fetch [OF cycle] fi get_inst_seq_def fetch_output_def fetch_buffer_def fetch_accept_def boot_defs
        Let_def case_prod_beta)
  then show ?thesis
    using port run(2) acc pc al by (simp add: boot3_def) (simp add: boot_defs is_pma_valid_def)
qed

lemma boot_run3:
  assumes cycle: "machine_cycle i s = Some t" "schedule (mi_order i)"
    and wait: "waiting B pc rf r s" and run: "\<not> mi_rst i" "boot3 B pc (m_cpu s)"
    and pc: "pc AND 3 = 0" "0x80000000 \<le> pc"
  shows "boot4 pc (m_cpu t)"
proof -
  note ws = waiting_state [OF wait]
  note st = idle_cycle [OF cycle ws(1-4)] and fi = idle_fetch_in [OF ws(3)]
  have "pc \<noteq> 4"
    using pc(2) by auto
  then show ?thesis
    using run st pc(1) by (simp add: cycle_fetch [OF cycle] fi get_inst_seq_def fetch_output_def fetch_buffer_def fetch_restart_def
        fetch_fault_def boot_defs Let_def)
qed

lemma boot_run4:
  assumes cycle: "machine_cycle i s = Some t" "schedule (mi_order i)"
    and wait: "waiting B pc rf r s" and run: "\<not> mi_rst i" "boot4 pc (m_cpu s)"
  shows "cpu_id_ex (m_cpu t) = program_slot (\<lambda>a. le_word B a 4) (pc, rf)" and "arch_of (m_cpu t) = (pc, rf)"
proof -
  note ws = waiting_state [OF wait]
  note st = idle_cycle [OF cycle ws(1-4)]
  have regs: "arch_regs (m_cpu t) = rf" "ex_pc (cpu_exec (m_cpu t)) = pc"
    using st(1) by (simp_all add: idle_def arch_regs_def Let_def)
  then show "arch_of (m_cpu t) = (pc, rf)"
    by (simp add: arch_of_def)
  have i: "di_if_id_inst (decode_in i s) = if_id_inst (cpu_fetch (m_cpu s))" "di_if_id_pc (decode_in i s) = if_id_pc (cpu_fetch (m_cpu s))"
    "di_if_id_fault (decode_in i s) = if_id_fault (cpu_fetch (m_cpu s))" "di_npc (decode_in i s) = pc" "\<not> di_stall (decode_in i s)"
    "\<not> di_flush (decode_in i s)" "\<not> di_rst (decode_in i s)" "di_if_id_flush (decode_in i s) = if_id_flush (cpu_fetch (m_cpu s))"
    using st(2,3,5) run(1) by (simp_all add: decode_in_def decode_ports_def cpu_ports_def Let_def del: exec_comb_frame decode_in_simps)
  have f: "if_id_pc (cpu_fetch (m_cpu s)) = pc" "\<not> if_id_flush (cpu_fetch (m_cpu s))" "if_id_fault (cpu_fetch (m_cpu s)) = 0"
    using run(2) by (simp_all add: boot4_def)
  have "operand (decode_in i s) = (\<lambda>r. rf ! unat r)"
    using operand_arch [OF cycle run(1) ws(1)] regs(1) by auto
  moreover have "cpu_id_ex (m_cpu t) = id_ex_tmp (decode_in i s)"
    using i(5) by (simp add: cycle_decode [OF cycle] inst_decode_seq_def Let_def del: decode_in_simps exec_comb_frame)
  ultimately show "cpu_id_ex (m_cpu t) = program_slot (\<lambda>a. le_word B a 4) (pc, rf)"
    using id_ex_tmp_word [OF ws(5) i(1-3), of rf] i f
    by (simp add: in_code_def id_ex_tmp_def Let_def del: decode_in_simps exec_comb_frame)
qed

lemma power_on_exec:
  assumes "cpu_power_on i (CPU_ctor entry tj ij fj) = Some c"
  shows "x_priv (cpu_exec c) = 3" "x_pmp (cpu_exec c) = PMP_ctor" "x_csr (cpu_exec c) = reset_csr_registers (\<lambda>_. 0)"
    "\<not> wb_write_rd (cpu_exec c)" "\<not> wb_stall (cpu_exec c)" "cpu_regs c = RegFile_ctor"
proof -
  define s where "s = CPU_ctor entry tj ij fj"
  define i0 where "i0 = i\<lparr>ci_rst := False\<rparr>"
  define i1 where "i1 = i\<lparr>ci_rst := True\<rparr>"
  obtain t u where t: "run_processes (cpu_process i0 s) method_processes s = Some t"
    and u: "u = t\<lparr>cpu_exec := exec_comb (exec_ports i0 s) (cpu_exec t)\<rparr>"
    and c: "run_processes (cpu_process i1 u) method_processes u = Some c"
    using assms unfolding cpu_power_on_def s_def [symmetric] Let_def i0_def [symmetric] i1_def [symmetric]
    by (auto simp: bind_eq_Some_conv)
  have "x_priv (cpu_exec s) = 3" "x_pmp (cpu_exec s) = PMP_ctor" "x_csr (cpu_exec s) = reset_csr_registers (\<lambda>_. 0)"
    "cpu_regs s = RegFile_ctor"
    by (simp_all add: s_def CPU_ctor_def EXEC_ctor_def)
  then show "x_priv (cpu_exec c) = 3" "x_pmp (cpu_exec c) = PMP_ctor" "x_csr (cpu_exec c) = reset_csr_registers (\<lambda>_. 0)"
    "\<not> wb_write_rd (cpu_exec c)" "\<not> wb_stall (cpu_exec c)" "cpu_regs c = RegFile_ctor"
    using c t by (auto simp: method_processes_def Let_def writeback_seq_def u i1_def)
qed

lemma boot_power_on:
  assumes "even entry" and "machine_power_on linux entry m sh tj ij fj = Some s"
  shows "idle (mem_byte m) entry RegFile_ctor s" and "front_reset (m_cpu s)" and "m_mem s = m"
proof -
  obtain i c m1 where c: "cpu_power_on i (CPU_ctor entry tj ij fj) = Some c"
    and d: "mem_access (dmmu_to_mem (cpu_dmmu c)) m = Some (m_dout s, m1)"
    and f: "inst_fetch (immu_to_mem (cpu_immu c)) m1 = Some (m_iout s, m_mem s)" and s: "m_cpu s = c"
    using assms(2) by (auto simp: machine_power_on_def Let_def bind_eq_Some_conv)
  note p = power_on_exec [OF c] power_on_state [OF c] power_on_fetch [OF c assms(1)]
  have "m_dout s = MEM_OUT_ctor" "m1 = m" "m_iout s = MEM_OUT_ctor" "m_mem s = m1"
    using d f by (simp_all add: p DMMU_ctor_def DMEM_IN_ctor_def mem_access_def IMMU_ctor_def IMEM_IN_ctor_def inst_fetch_def
        MEM_OUT_ctor_def)
  moreover have "reset_csr_registers (\<lambda>_. 0) CSR_MIE = 0" "reset_csr_registers (\<lambda>_. 0) CSR_SATP = 0"
    "reset_csr_registers (\<lambda>_. 0) CSR_MSTATUS AND MSTATUS_MPRV = 0"
    by (simp_all add: reset_csr_registers_def MSTATUS_MPRV_def)
  ultimately show "idle (mem_byte m) entry RegFile_ctor s" "front_reset (m_cpu s)" "m_mem s = m"
    by (simp_all add: idle_def s p front_reset_def DMMU_ctor_def IMMU_ctor_def IMEM_IN_ctor_def MMU_RSP_ctor_def word_answer_def Let_def)
qed

lemma boot_resets:
  assumes "machine_run rs s = Some t" and "\<forall>i \<in> set rs. mi_rst i \<and> schedule (mi_order i)"
    and "waiting B pc rf True s" and "front_reset (m_cpu s)"
  shows "waiting B pc rf True t \<and> (rs \<noteq> [] \<longrightarrow> boot1 pc (m_cpu t))"
  using assms
proof (induction rs arbitrary: s)
  case (Cons i rs)
  obtain u where u: "machine_cycle i s = Some u" "machine_run rs u = Some t"
    using Cons.prems(1) by (auto simp: bind_eq_Some_conv)
  have i: "mi_rst i" "schedule (mi_order i)"
    using Cons.prems(2) by simp_all
  note cyc = waiting_cycle [OF u(1) i(2) Cons.prems(3)]
  have b: "boot1 pc (m_cpu u)"
    by (rule boot_reset [OF u(1) i(2) Cons.prems(3) i(1) Cons.prems(4)])
  have "waiting B pc rf True t \<and> (rs \<noteq> [] \<longrightarrow> boot1 pc (m_cpu t))"
  proof (rule Cons.IH [OF u(2)])
    show "\<forall>i \<in> set rs. mi_rst i \<and> schedule (mi_order i)" "front_reset (m_cpu u)"
      using Cons.prems(2) b by (simp_all add: boot1_def)
    show "waiting B pc rf True u"
      using cyc i(1) by (simp add: waiting_def)
  qed
  then show ?case
    using b u(2) by (cases "rs = []") simp_all
qed simp

lemma boot_first:
  assumes on: "mem_safe m" "entry AND 3 = 0" "0x80000000 \<le> entry" "machine_power_on linux entry m sh tj ij fj = Some s"
    and rst: "rs \<noteq> []" "\<forall>i \<in> set rs. mi_rst i" and run: "\<not> mi_rst i1" "\<not> mi_rst i2" "\<not> mi_rst i3" "\<not> mi_rst i4"
    and sched: "\<forall>i \<in> set (rs @ [i1, i2, i3, i4]). schedule (mi_order i)"
    and t: "machine_run (rs @ [i1, i2, i3, i4]) s = Some t" and code: "code = (\<lambda>a. le_word (mem_byte m) a 4)"
  shows "program_run (\<lambda>_. True) code False t" and "arch_of (m_cpu t) = (entry, RegFile_ctor)"
    and "cpu_id_ex (m_cpu t) = program_slot code (entry, RegFile_ctor)" and "idle (mem_byte m) entry RegFile_ctor t"
proof -
  let ?w = "waiting (mem_byte m) entry RegFile_ctor"
  obtain s0 s1 s2 s3 where s0: "machine_run rs s = Some s0" and c: "machine_cycle i1 s0 = Some s1" "machine_cycle i2 s1 = Some s2"
    "machine_cycle i3 s2 = Some s3" "machine_cycle i4 s3 = Some t"
    using t by (auto simp: machine_run_append bind_eq_Some_conv)
  have o: "schedule (mi_order i1)" "schedule (mi_order i2)" "schedule (mi_order i3)" "schedule (mi_order i4)"
    using sched by simp_all
  have even: "even entry"
    using on(2) aligned_even by blast
  have "?w True s"
    using program_run.power_on [OF on(1) even on(4)] boot_power_on [OF even on(4)] pipeline_power_on(2) [OF on(1,4)]
    by (simp add: waiting_def)
  then have w0: "?w True s0" "boot1 entry (m_cpu s0)"
    using boot_resets [OF s0] rst sched boot_power_on(2) [OF even on(4)] by auto
  have b1: "boot2 entry (m_cpu s1)" and w1: "?w False s1"
    using boot_run1 [OF c(1) o(1) w0(1) run(1) w0(2)] waiting_cycle [OF c(1) o(1) w0(1)] run(1) w0(2)
    by (simp_all add: waiting_def boot1_def buffer_empty_def)
  have b2: "boot3 (mem_byte m) entry (m_cpu s2)" and w2: "?w False s2"
    using boot_run2 [OF c(2) o(2) w1 run(2) b1 on(2,3)] waiting_cycle [OF c(2) o(2) w1] run(2) b1
    by (simp_all add: waiting_def boot2_def buffer_empty_def)
  have "entry \<noteq> 0"
    using on(3) by auto
  then have b3: "boot4 entry (m_cpu s3)" and w3: "?w False s3"
    using boot_run3 [OF c(3) o(3) w2 run(3) b2 on(2,3)] waiting_cycle [OF c(3) o(3) w2] run(3) b2
    by (simp_all add: waiting_def boot3_def)
  show "program_run (\<lambda>_. True) code False t" "arch_of (m_cpu t) = (entry, RegFile_ctor)"
    "cpu_id_ex (m_cpu t) = program_slot code (entry, RegFile_ctor)" "idle (mem_byte m) entry RegFile_ctor t"
    unfolding code using boot_run4 [OF c(4) o(4) w3 run(4) b3] waiting_cycle [OF c(4) o(4) w3] run(4) by simp_all
qed

end
