(* ===== verification/Cpu_Memory.thy ===== *)
theory Cpu_Memory
  imports Cpu_Program
begin

unbundle bit_operations_syntax

text \<open>
  Loads, stores and atomics of the running machine: with address translation off, the memory
  instruction that completes in a cycle has read the RAM as it was before the cycle and has written
  it once, and no other cycle changes the RAM.
\<close>

subsection \<open>The request of an instruction\<close>

definition data_request :: "ID_EX \<Rightarrow> DMEM_IN" where
  "data_request d =
     \<lparr>dmem_req_ack = True, dmem_addr = (if ie_is_atomic d then ie_rs1_val d else ie_rs1_val d + ie_imm d),
      dmem_wdata = ie_rs2_val d, dmem_size = ie_mem_size d, dmem_is_load = ie_is_load d, dmem_is_store = ie_is_store d,
      dmem_is_amo = ie_is_atomic d, dmem_amoop = ie_amo_type d\<rparr>"

lemma stage_data_request:
  assumes "dmem_req_ack (ex_to_dmmu (exec_comb i x))"
  shows "access_req (ex_to_dmmu (exec_comb i x)) (dmem_addr (ex_to_dmmu (exec_comb i x))) = data_request (xi_id_ex i)"
proof -
  have ex: "executes i x" "ie_type (xi_id_ex i) \<in> set mem_types"
    using stage_request [OF assms] by auto
  then show ?thesis
    by (simp add: exec_comb_executes ex_instr_groups exec_outputs_def ex_mem_def comb_exec_def comb_init_def access_req_def
        data_request_def DMEM_IN_ctor_def Let_def)
qed

subsection \<open>The data port without translation\<close>

definition data_bare :: "MACHINE \<Rightarrow> bool" where
  "data_bare s \<longleftrightarrow>
     (let d = cpu_dmmu (m_cpu s); r = dmmu_to_mem d
      in (d_state d = 0 \<or> d_state d = 3) \<and> (d_state d = 0 \<longrightarrow> \<not> dmem_req_ack r) \<and>
         (dmem_req_ack r \<longrightarrow> \<not> d_page_fault d \<and> \<not> d_pmp_fault d \<and> \<not> d_misaligned_fault d \<and>
            r = data_request (cpu_id_ex (m_cpu s)) \<and> dmem_addr r AND - ucast (dmem_size r) = dmem_addr r \<and>
            data_answer (m_mem s) r (m_dout s)))"

text \<open>The idle port takes a request as it is.\<close>

lemma bare_accept:
  assumes "\<not> SATP_ON (x_csr (dm_exec j) CSR_SATP)" and "d_state d = 0" and "\<not> dm_rst j" "\<not> dm_flush j" and "dmem_req_ack (dm_req j)"
  shows "fst (dmem_req_seq junk j d tlb) = dmem_check (dm_exec j) ((dmem_latch (dm_exec j) (dm_req j) (d\<lparr>d_page_fault := False\<rparr>))
     \<lparr>d_state := 3, d_mmu_mem := access_req (dm_req j) (dmem_addr (dm_req j))\<rparr>)"
proof -
  have "d_satp (dmem_latch (dm_exec j) (dm_req j) (d\<lparr>d_page_fault := False\<rparr>)) = x_csr (dm_exec j) CSR_SATP"
    by (simp add: dmem_latch_def Let_def)
  then show ?thesis
    using assms by (simp add: dmem_req_seq_def dmem_step_def dmem_idle_def Let_def)
qed

lemma dmmu_bare:
  assumes "\<not> SATP_ON (x_csr (dm_exec j) CSR_SATP)" and "d_state d = 0 \<or> d_state d = 3" and "w = fst (dmem_req_seq junk j d tlb)"
  obtains "quiet_dmmu w" | "d_state w = 3" and "\<not> dmem_req_ack (dmmu_to_mem w)"
  | "d_state w = 3" and "d_state d = 0" and "dmem_req_ack (dm_req j)"
    and "\<not> d_page_fault w" and "\<not> d_pmp_fault w" and "\<not> d_misaligned_fault w"
    and "dmmu_to_mem w = access_req (dm_req j) (dmem_addr (dm_req j))"
    and "dmem_addr (dmmu_to_mem w) AND - ucast (dmem_size (dmmu_to_mem w)) = dmem_addr (dmmu_to_mem w)"
proof -
  consider "dm_rst j \<or> dm_flush j \<or> d_state d = 0 \<and> \<not> dmem_req_ack (dm_req j) \<or> d_state d = 3 \<and> mem_rsp_ack (dm_rsp j)"
    | "d_state d = 3" "\<not> dm_rst j" "\<not> dm_flush j" "\<not> mem_rsp_ack (dm_rsp j)"
    | "d_state d = 0" "\<not> dm_rst j" "\<not> dm_flush j" "dmem_req_ack (dm_req j)"
    using assms(2) by blast
  then show thesis
  proof cases
    case 1
    then show ?thesis
      using that(1) dmmu_quiet [of j d junk tlb] assms(3) by simp
  next
    case 2
    then show ?thesis
      by (intro that(2)) (simp_all add: assms(3) dmem_req_seq_def dmem_step_def dmem_check_def no_req_def DMEM_IN_ctor_def Let_def)
  next
    case 3
    define e where "e = (dmem_latch (dm_exec j) (dm_req j) (d\<lparr>d_page_fault := False\<rparr>))\<lparr>d_state := 3,
      d_mmu_mem := access_req (dm_req j) (dmem_addr (dm_req j))\<rparr>"
    have w: "w = dmem_check (dm_exec j) e"
      using bare_accept [OF assms(1) 3] by (simp add: assms(3) e_def)
    have e: "d_mmu_mem e = access_req (dm_req j) (dmem_addr (dm_req j))" "d_state e = 3" "\<not> d_page_fault e"
      by (simp_all add: e_def dmem_latch_def Let_def)
    have st: "d_state w = 3" "\<not> d_page_fault w"
      using e by (simp_all add: w dmem_check_def Let_def)
    show ?thesis
    proof (cases "d_pmp_fault w \<or> d_misaligned_fault w")
      case True
      then show ?thesis
        by (intro that(2) [OF st(1)]) (auto simp: w dmem_check_def DMEM_IN_ctor_def Let_def)
    next
      case False
      then have "dmmu_to_mem w = access_req (dm_req j) (dmem_addr (dm_req j))"
        "dmem_addr (dmmu_to_mem w) AND - ucast (dmem_size (dmmu_to_mem w)) = dmem_addr (dmmu_to_mem w)"
        using e(3) unfolding w dmem_check_def Let_def e(1) by (simp_all add: access_req_def)
      then show ?thesis
        using that(3) st 3 False by blast
    qed
  qed
qed

lemma dmmu_in_csr [simp]: "x_csr (dm_exec (dmmu_in i s y)) = x_csr (cpu_exec (m_cpu s))"
  by (simp add: dmmu_in_def dmmu_ports_def seen_exec_def)

lemma data_bare_cycle:
  assumes cycle: "machine_cycle i s = Some t" "schedule (mi_order i)" and ok: "machine_ok s" "data_ok s" "data_bare s"
    and off: "translation_off s"
  shows "data_bare t"
proof -
  let ?d = "cpu_dmmu (m_cpu s)" and ?w = "cpu_dmmu (m_cpu t)"
  obtain junk y tlb where w: "?w = fst (dmem_req_seq junk (dmmu_in i s y) ?d tlb)"
    using cycle_dmmu [OF cycle] by blast
  have bare: "\<not> SATP_ON (x_csr (dm_exec (dmmu_in i s y)) CSR_SATP)" "d_state ?d = 0 \<or> d_state ?d = 3"
    using off ok(3) by (simp_all add: translation_off_def data_bare_def Let_def)
  from dmmu_bare [OF bare w] show ?thesis
  proof cases
    case 1
    then show ?thesis
      by (simp add: data_bare_def quiet_dmmu_def Let_def)
  next
    case 2
    then show ?thesis
      by (simp add: data_bare_def Let_def)
  next
    case 3
    have req: "dmem_req_ack (ex_to_dmmu (stage i s))"
      and r: "dmmu_to_mem ?w = access_req (ex_to_dmmu (stage i s)) (dmem_addr (ex_to_dmmu (stage i s)))"
      using 3(3,7) unfolding dmmu_in_simps by blast+
    have ex: "executes (cycle_exec_in i s) (cpu_exec (m_cpu s))" "ie_type (cpu_id_ex (m_cpu s)) \<in> set mem_types"
      "\<not> wb_stall (cpu_exec (m_cpu s))"
      using stage_request [OF req] by simp_all
    then have "\<not> mmu_rsp_ack (cpu_dmmu_to_ex (m_cpu s))"
      using ok(2) by (auto simp: data_ok_def waits_def Let_def)
    then have "ex_stall (stage i s)"
      using stage_groups(1) [OF ex(1)] ex(2) by simp
    then have "cpu_id_ex (m_cpu t) = cpu_id_ex (m_cpu s)"
      using cycle_stalled [OF cycle _ data_ok_rsp [OF ok(2)]] by simp
    moreover have "dmmu_to_mem ?w = data_request (cpu_id_ex (m_cpu s))"
      using stage_data_request [OF req] r by (simp del: exec_comb_frame)
    moreover have "\<not> dmem_req_ack (dmmu_to_mem ?d)"
      using ok(3) 3(2) by (simp add: data_bare_def Let_def)
    moreover have "dmem_req_ack (dmmu_to_mem ?w)"
      by (simp add: r access_req_def)
    ultimately show ?thesis
      using cycle_data_answer [OF cycle(1) ok(1)] 3(1,4-6,8) by (auto simp: data_bare_def Let_def)
  qed
qed

lemma program_run_bare: "program_run C code r s \<Longrightarrow> data_bare s"
proof (induction rule: program_run.induct)
  case (power_on m entry linux sh tj ij fj s)
  obtain i c where c: "cpu_power_on i (CPU_ctor entry tj ij fj) = Some c" and s: "m_cpu s = c"
    using power_on(3) by (auto simp: machine_power_on_def Let_def bind_eq_Some_conv)
  then show ?case
    using power_on_state [OF c] by (simp add: data_bare_def s DMMU_ctor_def DMEM_IN_ctor_def Let_def)
next
  case (cycle r s i t)
  have "machine_ok s" "data_ok s"
    using reachable_pipeline [OF program_run_reachable [OF cycle.hyps(1)]] by (simp_all add: pipeline_ok_def)
  then show ?case
    using data_bare_cycle [OF cycle.hyps(4,3) _ _ cycle.IH cycle.hyps(5)] by simp
qed

subsection \<open>What a request reads and writes\<close>

type_synonym ram = "(u32 \<Rightarrow> u8) \<times> (u32 \<Rightarrow> bool)"

definition ram_of :: "MEMORY \<Rightarrow> ram" where
  "ram_of m = (mem_byte m, mem_resv m)"

definition put_bytes :: "u32 \<Rightarrow> nat \<Rightarrow> u32 \<Rightarrow> ram \<Rightarrow> ram" where
  "put_bytes a n w M =
     (\<lambda>x. if unat (x - a) < n then byte_of w (unat (x - a)) else fst M x, \<lambda>x. n \<le> unat (x - a) \<and> snd M x)"

text \<open>The answer to a request and the RAM after it: little-endian loads and stores, the
  read-modify-write operations, and load-reserved and store-conditional with a reservation bit for
  each byte, which every write clears.\<close>

definition mem_result :: "DMEM_IN \<Rightarrow> ram \<Rightarrow> u32 \<times> ram" where
  "mem_result r M =
     (let a = dmem_addr r; n = unat (dmem_size r); w = dmem_wdata r; v = le_word (fst M) a n
      in if dmem_is_amo r
         then (if dmem_amoop r = 0 then (v, fst M, \<lambda>x. unat (x - a) < n \<or> snd M x)
               else if dmem_amoop r = 1 then (if snd M a then (0, put_bytes a n w M) else (1, M))
               else (v, put_bytes a n (amo_op (dmem_amoop r) w v) M))
         else if dmem_is_load r then (v, M)
         else (0, put_bytes a n w M))"

definition ram_request :: "DMEM_IN \<Rightarrow> bool" where
  "ram_request r \<longleftrightarrow> dmem_req_ack r \<and> in_ram (dmem_addr r) \<and> unat (dmem_addr r) + unat (dmem_size r) \<le> 2 ^ 32 \<and>
     (dmem_is_amo r \<or> dmem_is_load r \<or> dmem_is_store r) \<and>
     (dmem_is_amo r \<longrightarrow> dmem_size r = 4 \<and> dmem_addr r AND 3 = 0) \<and> \<not> (dmem_is_load r \<and> dmem_is_store r)"

lemma ram_not_device:
  assumes "ram_request r" and "dmem_is_amo r"
  shows "\<not> device_address r"
proof -
  have "device_address r = device_address (amo_req (dmem_amoop r) (dmem_addr r) (dmem_wdata r))"
    using assms by (simp add: device_address_def amo_req_def DMEM_IN_ctor_def ram_request_def)
  then show ?thesis
    using not_device_address [of "dmem_addr r"] assms(1) by (simp add: ram_request_def)
qed

lemma access_result:
  assumes "mem_ok m" and "ram_request r" and "mem_access r m = Some (out, m')"
  shows "out = answer (fst (mem_result r (ram_of m)))"
proof -
  have ok: "ram_ok (mem_ram m)"
    using assms(1) by (simp add: mem_ok_def)
  note req = assms(2) [unfolded ram_request_def]
  show ?thesis
  proof (cases "dmem_is_amo r")
    case True
    have dev: "\<not> device_address r" and four: "dmem_size r = 4" "dmem_addr r AND 3 = 0"
      using ram_not_device [OF assms(2) True] req True by auto
    obtain r1 where sc: "amo_sc (dmem_addr r) (mem_ram m) = Some (\<not> mem_resv m (dmem_addr r), r1)"
      using amo_sc_ok [OF ok] by blast
    obtain r2 where "load_loop ram_read (dmem_addr r) 4 0 (mem_ram m) = Some (le_word (mem_byte m) (dmem_addr r) 4, r2)"
      using ram.load_loop_ok [OF ok, of 4 "dmem_addr r" 0] by auto
    then show ?thesis
      using assms(3) True dev four sc req
      by (auto simp: mem_access_def mem_access_amo_def mem_result_def ram_of_def answer_def Let_def split: if_splits)
  next
    case False
    note span = in_ram_span [of "dmem_addr r" "unat (dmem_size r)"]
    obtain m1 where "load_loop mem_load_byte (dmem_addr r) (unat (dmem_size r)) 0 m =
        Some (le_word (mem_byte m) (dmem_addr r) (unat (dmem_size r)), m1)"
      using bus.load_loop_ok [OF assms(1) span, of "unat (dmem_size r)" 0] req by auto
    then show ?thesis
      using assms(3) False req by (auto simp: mem_access_def mem_result_def ram_of_def answer_def split: if_splits)
  qed
qed

lemma commit_result:
  assumes "mem_ok m" and "ram_request r" and "update_memory r (answer (fst (mem_result r (ram_of m)))) m = Some m'"
  shows "ram_of m' = snd (mem_result r (ram_of m))"
proof -
  let ?a = "dmem_addr r" and ?n = "unat (dmem_size r)"
  have ok: "ram_ok (mem_ram m)"
    using assms(1) by (simp add: mem_ok_def)
  note req = assms(2) [unfolded ram_request_def]
  have n: "?n \<le> 2 ^ 32"
    using req by simp
  show ?thesis
  proof (cases "dmem_is_amo r")
    case True
    then have four: "dmem_size r = 4"
      using req by simp
    have st: "(ram_byte r', ram_resv r') = put_bytes ?a 4 w (ram_of m)" if "store_bytes ram_write ?a 4 w (mem_ram m) = Some r'" for w r'
      using ram.store_bytes_ok [OF ok, of 4 ?a w] ram.store_bytes_resv [OF ok _ _ that] that
      by (auto simp: put_bytes_def ram_of_def)
    have lr: "(ram_byte r', ram_resv r') = (mem_byte m, \<lambda>x. unat (x - ?a) < 4 \<or> mem_resv m x)"
      if "lr_loop ?a 4 (mem_ram m) = Some r'" for r'
      using lr_loop_ok [OF ok, of 4 ?a] that by auto
    show ?thesis
      using assms(3) True four st lr
      by (auto simp: update_memory_def update_amo_def mem_result_def ram_of_def answer_def Let_def split: if_splits)
  next
    case False
    have span: "in_ram (?a + of_nat j)" if "j < ?n" for j
      using in_ram_span [OF _ _ that] req by blast
    have "ram_of m1 = put_bytes ?a ?n w (ram_of m)" if "store_bytes mem_store_byte ?a ?n w m = Some m1" for w m1
      using bus.store_bytes_ok [OF assms(1) n span, of w] bus.store_bytes_resv [OF assms(1) n span that] that
      by (auto simp: put_bytes_def ram_of_def)
    then show ?thesis
      using assms(3) False req
      by (auto simp: update_memory_def mem_result_def answer_def Let_def split: if_splits)
  qed
qed

subsection \<open>The memory instructions\<close>

text \<open>What the decoder sets for a memory instruction.\<close>

definition mem_shaped :: "ID_EX \<Rightarrow> bool" where
  "mem_shaped d \<longleftrightarrow> (ie_type d \<in> set mem_types \<longrightarrow>
     (ie_is_load d, ie_is_store d, ie_mem_size d) = access_of (ie_type d) \<and>
     (if ie_is_atomic d then Some (ie_amo_type d) else None) = map_option snd (map_of amo_table (ie_type d)))"

lemmas shape_defs = mem_shaped_def mem_types_def access_of_def amo_table_def

lemma mem_shaped_split:
  "mem_shaped (if c then d else e) = (if c then mem_shaped d else mem_shaped e)"
  "mem_shaped (d\<lparr>ie_type := (if c then u else v)\<rparr>) = (if c then mem_shaped (d\<lparr>ie_type := u\<rparr>) else mem_shaped (d\<lparr>ie_type := v\<rparr>))"
  by simp_all

lemma mem_shaped_other: "ie_type d \<notin> set mem_types \<Longrightarrow> mem_shaped d"
  by (simp add: mem_shaped_def)

lemma mem_shaped_groups:
  assumes "ie_type d = I_NOP" and "\<not> ie_is_load d" and "\<not> ie_is_store d" and "\<not> ie_is_atomic d"
  shows "mem_shaped (dec_load w d)" "mem_shaped (dec_store w d)" "mem_shaped (dec_amo w d)"
proof -
  show "mem_shaped (dec_load w d)" "mem_shaped (dec_store w d)"
    unfolding dec_load_def dec_store_def Let_def mem_shaped_split using assms by (simp_all add: shape_defs)
  show "mem_shaped (dec_amo w d)"
    unfolding dec_amo_def Let_def mem_shaped_split using assms by (simp add: shape_defs)
qed

lemma mem_shaped_frame:
  "mem_shaped (d\<lparr>ie_flush := b\<rparr>) = mem_shaped d" "mem_shaped (d\<lparr>ie_tval := w\<rparr>) = mem_shaped d"
  "mem_shaped (d\<lparr>ie_cause := w\<rparr>) = mem_shaped d" "mem_shaped (d\<lparr>ie_on_trap := b\<rparr>) = mem_shaped d"
  "mem_shaped (d\<lparr>ie_rs1_val := w\<rparr>) = mem_shaped d" "mem_shaped (d\<lparr>ie_rs2_val := w\<rparr>) = mem_shaped d"
  by (simp_all add: mem_shaped_def)

lemma mem_shaped_illegal [simp]: "mem_shaped (illegal w d) = mem_shaped d"
  by (simp add: mem_shaped_def illegal_def)

lemma mem_shaped_plain:
  assumes "ie_type d = I_NOP"
  shows "mem_shaped (dec_op_imm w d)" "mem_shaped (dec_op w d)" "mem_shaped (dec_jal w d)" "mem_shaped (dec_jalr w d)"
    "mem_shaped (dec_branch w d)" "mem_shaped (dec_fence w d)" "mem_shaped (dec_system w d)"
proof -
  show "mem_shaped (dec_op_imm w d)" "mem_shaped (dec_branch w d)"
    unfolding dec_op_imm_def dec_branch_def Let_def mem_shaped_split
    using assms by (simp_all add: mem_shaped_other mem_types_def)
  show "mem_shaped (dec_jal w d)" "mem_shaped (dec_jalr w d)" "mem_shaped (dec_fence w d)"
    using assms by (simp_all add: dec_jal_def dec_jalr_def dec_fence_def Let_def mem_shaped_other mem_types_def)
  have "op_type k \<notin> set mem_types" for k
    by (simp add: op_type_def mem_types_def)
  then show "mem_shaped (dec_op w d)"
    by (simp add: dec_op_def mem_shaped_other Let_def)
  show "mem_shaped (dec_system w d)"
    unfolding dec_system_def dec_csr_def Let_def mem_shaped_split by (simp add: mem_shaped_other mem_types_def)
qed

lemma mem_shaped_decode: "mem_shaped (decode i w)"
proof -
  have d: "ie_type (dec_common i w) = I_NOP" "\<not> ie_is_load (dec_common i w)" "\<not> ie_is_store (dec_common i w)"
    "\<not> ie_is_atomic (dec_common i w)"
    by (simp_all add: dec_common_def ID_EX_ctor_def Let_def)
  show ?thesis
    unfolding decode_def Let_def mem_shaped_split
    using mem_shaped_groups [OF d] mem_shaped_plain [OF d(1)] by (simp add: mem_shaped_other mem_types_def)
qed

lemma mem_shaped_decompress: "mem_shaped (decompress i w)"
proof -
  have "mem_shaped (decompress_q0 w d)" "mem_shaped (decompress_q1 w d)" "mem_shaped (decompress_q2 w d)"
    if "ie_type d = I_NOP" "\<not> ie_is_load d" "\<not> ie_is_store d" "\<not> ie_is_atomic d" for d
    unfolding decompress_q0_def decompress_q1_def decompress_q2_def decompress_alu_def decompress_jump_def Let_def
      mem_shaped_split mem_shaped_illegal
    using that by (simp_all add: shape_defs)
  then show ?thesis
    unfolding decompress_def Let_def mem_shaped_frame mem_shaped_split
    by (simp add: ID_EX_ctor_def mem_shaped_other mem_types_def)
qed

lemma reachable_mem_shaped: "reachable r s \<Longrightarrow> mem_shaped (cpu_id_ex (m_cpu s))"
proof (induction rule: reachable.induct)
  case (power_on m linux entry sh tj ij fj s)
  then show ?case
    using pipeline_power_on(2) by (simp add: empty_slot_def ID_EX_ctor_def mem_shaped_other mem_types_def)
next
  case (cycle r s i t)
  have fault: "mem_shaped d \<Longrightarrow> mem_shaped ((decode_fault j d)\<lparr>ie_flush := False\<rparr>)" for j d
    unfolding decode_fault_def Let_def mem_shaped_frame mem_shaped_split by simp
  have "mem_shaped (ID_EX_ctor\<lparr>ie_flush := b\<rparr>)" "mem_shaped ID_EX_ctor" for b
    by (simp_all add: ID_EX_ctor_def mem_shaped_other mem_types_def)
  then have "mem_shaped (id_ex_tmp j)" for j
    unfolding id_ex_tmp_def Let_def mem_shaped_split
    using fault [OF mem_shaped_decode] fault [OF mem_shaped_decompress] by simp
  then show ?case
    using cycle.IH by (simp add: cycle_decode [OF cycle.hyps(4,3)] inst_decode_seq_def Let_def)
qed

text \<open>The sequential meaning of a memory instruction, by its type: the value it reads and the RAM after
  it.\<close>

definition isa_addr :: "ID_EX \<Rightarrow> u32" where
  "isa_addr d = (if map_of amo_table (ie_type d) = None then ie_rs1_val d + ie_imm d else ie_rs1_val d)"

definition isa_mem :: "ID_EX \<Rightarrow> ram \<Rightarrow> u32 \<times> ram" where
  "isa_mem d M =
     (let a = isa_addr d; w = ie_rs2_val d; (load, store, sz) = access_of (ie_type d); n = unat sz; v = le_word (fst M) a n
      in case map_of amo_table (ie_type d) of
           None \<Rightarrow> if load then (v, M) else (0, put_bytes a n w M)
         | Some (_, op) \<Rightarrow>
             if op = 0 then (v, fst M, \<lambda>x. unat (x - a) < n \<or> snd M x)
             else if op = 1 then (if snd M a then (0, put_bytes a n w M) else (1, M))
             else (v, put_bytes a n (amo_op op w v) M))"

lemma data_request_addr:
  assumes "mem_shaped d" and "ie_type d \<in> set mem_types"
  shows "dmem_addr (data_request d) = isa_addr d"
  using assms by (auto simp: mem_shaped_def data_request_def isa_addr_def split: if_splits)

lemma mem_result_isa:
  assumes "mem_shaped d" and "ie_type d \<in> set mem_types"
  shows "mem_result (data_request d) M = isa_mem d M"
proof -
  note addr = data_request_addr [OF assms]
  have acc: "access_of (ie_type d) = (ie_is_load d, ie_is_store d, ie_mem_size d)"
    and amo: "(if ie_is_atomic d then Some (ie_amo_type d) else None) = map_option snd (map_of amo_table (ie_type d))"
    using assms by (simp_all add: mem_shaped_def)
  show ?thesis
  proof (cases "map_of amo_table (ie_type d)")
    case None
    then have "\<not> ie_is_atomic d"
      using amo by (simp split: if_splits)
    then show ?thesis
      using None unfolding mem_result_def isa_mem_def addr acc by (simp add: data_request_def)
  next
    case (Some p)
    then obtain f where p: "map_of amo_table (ie_type d) = Some (f, ie_amo_type d)" "ie_is_atomic d"
      using amo by (cases p) (simp split: if_splits)
    then show ?thesis
      unfolding mem_result_def isa_mem_def addr acc p(1) by (simp add: data_request_def Let_def)
  qed
qed

text \<open>Alignment keeps an access inside the address space, and on one side of the RAM's base.\<close>

lemma aligned_dvd:
  fixes a :: u32
  assumes "a AND - ucast sz = a" and "sz = 1 \<or> sz = 2 \<or> (sz :: u8) = 4"
  shows "unat sz dvd unat a" and "sz = 4 \<Longrightarrow> a AND 3 = 0"
proof -
  have low: "a AND mask k = 0" if "a AND - (2 ^ k) = a" for k
  proof -
    have "(a AND - (2 ^ k)) AND mask k = 0"
      by (intro bit_word_eqI) (auto simp: bit_simps minus_exp_eq_not_mask)
    then show ?thesis
      using that by simp
  qed
  have dvd: "2 ^ k dvd unat a" if "a AND - (2 ^ k) = a" for k
  proof -
    have "take_bit k (unat a) = 0"
      using low [OF that] by (metis take_bit_eq_mask unsigned_0 unsigned_take_bit_eq)
    then show ?thesis
      by (simp add: take_bit_eq_0_iff)
  qed
  show "unat sz dvd unat a"
    using assms dvd [of 1] dvd [of 2] by auto
  show "a AND 3 = 0" if "sz = 4"
    using assms(1) that low [of 2] by (simp add: mask_eq_exp_minus_1)
qed

lemma aligned_below:
  fixes a :: u32
  assumes "a AND - ucast sz = a" and "sz = 1 \<or> sz = 2 \<or> (sz :: u8) = 4" and "unat a < 4 * k"
  shows "unat a + unat sz \<le> 4 * k"
proof -
  have "unat sz dvd 4 * k"
    using assms(2) by (auto intro: dvd_mult2)
  then have "unat sz dvd 4 * k - unat a"
    using aligned_dvd(1) [OF assms(1,2)] by (rule dvd_diff_nat)
  then have "unat sz \<le> 4 * k - unat a"
    using assms(3) by (auto dest: dvd_imp_le)
  then show ?thesis
    using assms(3) by simp
qed

lemma aligned_room:
  fixes a :: u32
  assumes "a AND - ucast sz = a" and "sz = 1 \<or> sz = 2 \<or> (sz :: u8) = 4"
  shows "unat a + unat sz \<le> 2 ^ 32"
  using aligned_below [OF assms, of "2 ^ 30"] unsigned_less [of a, where 'a = nat] by simp

lemma aligned_device:
  fixes a :: u32
  assumes "a AND - ucast sz = a" and "sz = 1 \<or> sz = 2 \<or> (sz :: u8) = 4" and "\<not> in_ram a" and "j < unat sz"
  shows "\<not> in_ram (a + of_nat j)"
proof -
  have "unat a < 2 ^ 31"
    using assms(3) by (simp add: in_ram_def word_le_nat_alt)
  then have "unat a + unat sz \<le> 2 ^ 31"
    using aligned_below [OF assms(1,2), of "2 ^ 29"] by simp
  then have "unat (a + of_nat j) < 2 ^ 31"
    using assms(4) by (simp add: unat_word_ariths unat_of_nat)
  then show ?thesis
    by (simp add: in_ram_def word_le_nat_alt)
qed

lemma data_request_kind:
  assumes "mem_shaped d" and "ie_type d \<in> set mem_types" and "r = data_request d"
  shows "dmem_size r = 1 \<or> dmem_size r = 2 \<or> dmem_size r = 4" "dmem_is_amo r \<or> dmem_is_load r \<or> dmem_is_store r"
    "dmem_is_amo r \<longrightarrow> dmem_size r = 4" "\<not> (dmem_is_load r \<and> dmem_is_store r)"
    "dmem_is_amo r \<longleftrightarrow> map_of amo_table (ie_type d) \<noteq> None" "dmem_req_ack r"
proof -
  let ?l = "fst (access_of (ie_type d))" and ?st = "fst (snd (access_of (ie_type d)))" and ?sz = "snd (snd (access_of (ie_type d)))"
  have "(?sz = 1 \<or> ?sz = 2 \<or> ?sz = 4) \<and> (?l \<or> ?st \<or> map_of amo_table (ie_type d) \<noteq> None) \<and>
      (map_of amo_table (ie_type d) \<noteq> None \<longrightarrow> ?sz = 4) \<and> \<not> (?l \<and> ?st)"
    using assms(2) unfolding mem_types_def list.set
    by (elim insertE emptyE) (simp_all add: access_of_def amo_table_def)
  moreover have acc: "access_of (ie_type d) = (ie_is_load d, ie_is_store d, ie_mem_size d)"
    "ie_is_atomic d \<longleftrightarrow> map_of amo_table (ie_type d) \<noteq> None"
    using assms(1,2) by (simp_all add: mem_shaped_def del: not_None_eq) (cases "map_of amo_table (ie_type d)"; auto split: if_splits)
  moreover have r: "dmem_size r = ie_mem_size d" "dmem_is_load r = ie_is_load d" "dmem_is_store r = ie_is_store d"
    "dmem_is_amo r = ie_is_atomic d" "dmem_req_ack r"
    using assms(3) by (simp_all add: data_request_def)
  ultimately show "dmem_size r = 1 \<or> dmem_size r = 2 \<or> dmem_size r = 4" "dmem_is_amo r \<or> dmem_is_load r \<or> dmem_is_store r"
    "dmem_is_amo r \<longrightarrow> dmem_size r = 4" "\<not> (dmem_is_load r \<and> dmem_is_store r)"
    "dmem_is_amo r \<longleftrightarrow> map_of amo_table (ie_type d) \<noteq> None" "dmem_req_ack r"
    by auto
qed

lemma mem_shaped_request:
  assumes "mem_shaped d" and "ie_type d \<in> set mem_types" and "in_ram (isa_addr d)" and "r = data_request d"
    and "dmem_addr r AND - ucast (dmem_size r) = dmem_addr r"
  shows "ram_request r"
proof -
  note kind = data_request_kind [OF assms(1,2,4)]
  have "dmem_addr r = isa_addr d"
    using data_request_addr [OF assms(1,2)] assms(4) by simp
  then show ?thesis
    using kind aligned_dvd(2) [OF assms(5) kind(1)] aligned_room [OF assms(5) kind(1)] assms(3) by (simp add: ram_request_def)
qed

subsection \<open>The memory over a cycle\<close>

lemma mem_ok_state: "mem_ok m0 \<Longrightarrow> state_is (mem_state m0) m \<Longrightarrow> mem_ok m"
  by (simp add: mem_ok_def state_is_def mem_state_def mem_safe_def ram_safe_def ram_range_def)

lemma ram_of_state: "mem_state m = mem_state m' \<Longrightarrow> ram_of m = ram_of m'"
  by (simp add: mem_state_def ram_of_def)

text \<open>The instruction in the execute stage completes an access to memory in this cycle.\<close>

definition completes_access :: "MACHINE_IN \<Rightarrow> MACHINE \<Rightarrow> bool" where
  "completes_access i s \<longleftrightarrow> \<not> mi_rst i \<and> \<not> ie_flush (cpu_id_ex (m_cpu s)) \<and> \<not> ex_stall (stage i s) \<and>
     \<not> c_on_trap (x_comb (stage i s)) \<and> ie_type (cpu_id_ex (m_cpu s)) \<in> set mem_types"

lemma completes_answer:
  assumes "completes_access i s" and ok: "pipeline_ok s" and bare: "data_bare s"
  shows "dmem_req_ack (dmmu_to_mem (cpu_dmmu (m_cpu s)))" "dmmu_to_mem (cpu_dmmu (m_cpu s)) = data_request (cpu_id_ex (m_cpu s))"
    "mem_rsp_ack (m_dout s)" "mem_rsp_fault (m_dout s) = 0" "mmu_rsp_rdata (cpu_dmmu_to_ex (m_cpu s)) = mem_rsp_rdata (m_dout s)"
    "dmem_addr (data_request (cpu_id_ex (m_cpu s))) AND - ucast (dmem_size (data_request (cpu_id_ex (m_cpu s)))) =
       dmem_addr (data_request (cpu_id_ex (m_cpu s)))"
    "data_answer (m_mem s) (data_request (cpu_id_ex (m_cpu s))) (m_dout s)"
proof -
  let ?c = "m_cpu s"
  have run: "\<not> mi_rst i" "\<not> ie_flush (cpu_id_ex ?c)" "\<not> ex_stall (stage i s)" "\<not> c_on_trap (x_comb (stage i s))"
    and t: "ie_type (cpu_id_ex ?c) \<in> set mem_types"
    using assms(1) by (simp_all add: completes_access_def del: exec_comb_frame)
  note ex = cycle_runs [OF ok run(1,4,2)]
  have ack: "mmu_rsp_ack (cpu_dmmu_to_ex ?c)"
    using stage_groups(1) [OF ex(1)] run(3) t by simp
  have fault: "mmu_rsp_fault (cpu_dmmu_to_ex ?c) = 0"
    using run(4) t unfolding ex(2) by (simp add: ex_instr_groups ex_mem_def Let_def)
  have data: "data_ok s"
    using ok by (simp add: pipeline_ok_def)
  obtain req where rsp: "cpu_dmmu_to_ex ?c = dmem_rsp_comb req (m_dout s) (cpu_dmmu ?c)"
    using data by (auto simp: data_ok_def Let_def)
  have "d_state (cpu_dmmu ?c) = 3" and mem: "mem_rsp_ack (m_dout s)"
    using answer_without_fault ack fault unfolding rsp by blast+
  show "mem_rsp_ack (m_dout s)"
    by (rule mem)
  show r: "dmem_req_ack (dmmu_to_mem (cpu_dmmu ?c))"
    using mem data by (auto simp: data_ok_def MEM_OUT_ctor_def Let_def)
  then have b: "\<not> d_page_fault (cpu_dmmu ?c)" "\<not> d_pmp_fault (cpu_dmmu ?c)" "\<not> d_misaligned_fault (cpu_dmmu ?c)"
    "dmmu_to_mem (cpu_dmmu ?c) = data_request (cpu_id_ex ?c)"
    "dmem_addr (data_request (cpu_id_ex ?c)) AND - ucast (dmem_size (data_request (cpu_id_ex ?c))) = dmem_addr (data_request (cpu_id_ex ?c))"
    "data_answer (m_mem s) (data_request (cpu_id_ex ?c)) (m_dout s)"
    using bare by (auto simp: data_bare_def Let_def)
  then show "dmmu_to_mem (cpu_dmmu ?c) = data_request (cpu_id_ex ?c)"
    "dmem_addr (data_request (cpu_id_ex ?c)) AND - ucast (dmem_size (data_request (cpu_id_ex ?c))) = dmem_addr (data_request (cpu_id_ex ?c))"
    "data_answer (m_mem s) (data_request (cpu_id_ex ?c)) (m_dout s)"
    by blast+
  show "mem_rsp_fault (m_dout s) = 0" "mmu_rsp_rdata (cpu_dmmu_to_ex ?c) = mem_rsp_rdata (m_dout s)"
    using fault b(1-3) unfolding rsp by (auto simp: dmem_rsp_comb_def MMU_RSP_ctor_def Let_def split: if_splits)
qed

lemma cycle_access:
  assumes cycle: "machine_cycle i s = Some t" "schedule (mi_order i)" and ok: "pipeline_ok s" "data_bare s" "mem_shaped (cpu_id_ex (m_cpu s))"
    and mem: "mem_ok (m_mem s)" and acc: "completes_access i s" and ram: "in_ram (isa_addr (cpu_id_ex (m_cpu s)))"
  shows "(mmu_rsp_rdata (cpu_dmmu_to_ex (m_cpu s)), ram_of (m_mem t)) = isa_mem (cpu_id_ex (m_cpu s)) (ram_of (m_mem s))"
proof -
  let ?d = "cpu_id_ex (m_cpu s)"
  let ?r = "data_request ?d"
  note ans = completes_answer [OF acc ok(1,2)]
  have t: "ie_type ?d \<in> set mem_types"
    using acc by (simp add: completes_access_def)
  have req: "ram_request ?r"
    by (rule mem_shaped_request [OF ok(3) t ram refl ans(6)])
  obtain m0 m1 where m0: "state_is (mem_state (m_mem s)) m0" "mem_access ?r m0 = Some (m_dout s, m1)"
    using ans(7) by (auto simp: data_answer_def)
  have out: "m_dout s = answer (fst (mem_result ?r (ram_of (m_mem s))))"
    using access_result [OF mem_ok_state [OF mem m0(1)] req m0(2)] ram_of_state [of m0 "m_mem s"] m0(1) by (simp add: state_is_def)
  have mo: "machine_ok s"
    using ok(1) by (simp add: pipeline_ok_def)
  obtain m m' where m: "state_is (mem_state (m_mem s)) m" "update_memory (dmmu_to_mem (cpu_dmmu (m_cpu s))) (m_dout s) m = Some m'"
    "mem_state (m_mem t) = mem_state m'"
    using cycle_commit [OF cycle(1) mo cycle(2)] .
  have same: "ram_of m = ram_of (m_mem s)"
    by (rule ram_of_state) (use m(1) in \<open>simp add: state_is_def\<close>)
  have "update_memory ?r (answer (fst (mem_result ?r (ram_of m)))) m = Some m'"
    using m(2) ans(2) out same by simp
  then have "ram_of m' = snd (mem_result ?r (ram_of (m_mem s)))"
    using commit_result [OF mem_ok_state [OF mem m(1)] req] same by simp
  then have "ram_of (m_mem t) = snd (mem_result ?r (ram_of (m_mem s)))"
    using ram_of_state [OF m(3)] by simp
  moreover have "mmu_rsp_rdata (cpu_dmmu_to_ex (m_cpu s)) = fst (mem_result ?r (ram_of (m_mem s)))"
    using ans(5) out by (simp add: answer_def)
  ultimately show ?thesis
    by (simp add: mem_result_isa [OF ok(3) t])
qed

text \<open>The instruction whose answer is there goes on, and completes if the answer is no fault.\<close>

lemma answer_completes:
  assumes "waits mem_types (m_cpu s)" and "\<not> mi_rst i" and "mmu_rsp_ack (cpu_dmmu_to_ex (m_cpu s))"
  shows "\<not> ex_stall (stage i s)" and "mmu_rsp_fault (cpu_dmmu_to_ex (m_cpu s)) = 0 \<Longrightarrow> completes_access i s"
proof -
  have ex: "executes (cycle_exec_in i s) (cpu_exec (m_cpu s))" and t: "ie_type (cpu_id_ex (m_cpu s)) \<in> set mem_types"
    "\<not> ie_flush (cpu_id_ex (m_cpu s))"
    using waits_executes [OF assms(1) _ assms(2)] assms(1) by (simp_all add: waits_def)
  show stall: "\<not> ex_stall (stage i s)"
    using stage_groups(1) [OF ex] t(1) assms(3) by simp
  assume "mmu_rsp_fault (cpu_dmmu_to_ex (m_cpu s)) = 0"
  then have "\<not> c_on_trap (x_comb (stage i s))"
    using t(1) ex by (simp add: dispatch_executes ex_instr_groups ex_mem_def Let_def)
  then show "completes_access i s"
    using stall assms(2) t by (simp add: completes_access_def del: exec_comb_frame)
qed

text \<open>No other cycle changes the RAM.\<close>

lemma cycle_no_access:
  assumes cycle: "machine_cycle i s = Some t" "schedule (mi_order i)" and ok: "pipeline_ok s" "data_bare s"
    and rst: "mi_rst i \<Longrightarrow> cpu_id_ex (m_cpu s) = empty_slot" and acc: "\<not> completes_access i s"
  shows "mem_state (m_mem t) = mem_state (m_mem s)"
proof -
  let ?c = "m_cpu s"
  have mo: "machine_ok s" and data: "data_ok s"
    using ok(1) by (simp_all add: pipeline_ok_def)
  show ?thesis
  proof (cases "mem_rsp_ack (m_dout s) \<and> mem_rsp_fault (m_dout s) = 0")
    case True
    then have "dmem_req_ack (dmmu_to_mem (cpu_dmmu ?c))"
      using data by (auto simp: data_ok_def MEM_OUT_ctor_def Let_def)
    then have d: "d_state (cpu_dmmu ?c) = 3" "\<not> d_page_fault (cpu_dmmu ?c)" "\<not> d_pmp_fault (cpu_dmmu ?c)" "\<not> d_misaligned_fault (cpu_dmmu ?c)"
      using ok(2) by (auto simp: data_bare_def Let_def)
    obtain req where rsp: "cpu_dmmu_to_ex ?c = dmem_rsp_comb req (m_dout s) (cpu_dmmu ?c)"
      using data by (auto simp: data_ok_def Let_def)
    have ack: "mmu_rsp_ack (cpu_dmmu_to_ex ?c)" "mmu_rsp_fault (cpu_dmmu_to_ex ?c) = 0"
      using True d unfolding rsp by (simp_all add: dmem_rsp_comb_def MMU_RSP_ctor_def Let_def)
    then have w: "waits mem_types ?c"
      using data by (simp add: data_ok_def Let_def)
    then have nr: "\<not> mi_rst i"
      using rst by (auto simp: waits_def empty_slot_def)
    show ?thesis
      using answer_completes(2) [OF w nr ack] acc by simp
  next
    case False
    obtain m m' where m: "state_is (mem_state (m_mem s)) m" "update_memory (dmmu_to_mem (cpu_dmmu (m_cpu s))) (m_dout s) m = Some m'"
      "mem_state (m_mem t) = mem_state m'"
      using cycle_commit [OF cycle(1) mo cycle(2)] .
    then show ?thesis
      using False by (auto simp: update_memory_def state_is_def)
  qed
qed

subsection \<open>The layout of the memory\<close>

text \<open>Where the RAM is and which devices are beside it never changes.\<close>

definition mem_layout :: "MEMORY \<Rightarrow> (u32 \<times> u32 \<times> u32) \<times> Device list" where
  "mem_layout m = (ram_range (mem_ram m), mem_devices m)"

lemma store_bytes_keeps:
  assumes "store_bytes wr a n w m = Some m'" and "\<And>a v m m'. wr a v m = Some m' \<Longrightarrow> f m' = f m"
  shows "f m' = f m"
  using assms by (induction n arbitrary: a w m) (auto simp: bind_eq_Some_conv)

lemma store_byte_layout: "mem_store_byte a v m = Some m' \<Longrightarrow> mem_layout m' = mem_layout m"
proof -
  have dev: "dev_write d a v m = Some m' \<Longrightarrow> mem_layout m' = mem_layout m" for d
    by (cases d) (auto simp: mem_layout_def rvtest_write_def Let_def dest: ram_write_range)
  have "bus_write ds a v m = Some m' \<Longrightarrow> mem_layout m' = mem_layout m" for ds
    by (induction ds) (auto simp: dev split: if_splits)
  then show "mem_store_byte a v m = Some m' \<Longrightarrow> mem_layout m' = mem_layout m"
    by (simp add: mem_store_byte_def)
qed

lemma lr_loop_range: "lr_loop a n r = Some r' \<Longrightarrow> ram_range r' = ram_range r"
  by (induction n arbitrary: a r) (auto simp: bind_eq_Some_conv dest: amo_lr_range)

lemma update_memory_layout:
  assumes "update_memory r out m = Some m'"
  shows "mem_layout m' = mem_layout m"
proof -
  have "update_amo r v (mem_ram m) = Some q \<Longrightarrow> ram_range q = ram_range (mem_ram m)" for v q
    by (auto simp: update_amo_def split: if_splits dest: lr_loop_range store_bytes_range)
  moreover have "store_bytes mem_store_byte a n w m = Some m' \<Longrightarrow> mem_layout m' = mem_layout m" for a n w
    using store_bytes_keeps [of mem_store_byte _ _ _ m m' mem_layout] store_byte_layout by blast
  ultimately show ?thesis
    using assms by (auto simp: update_memory_def mem_layout_def split: if_splits)
qed

lemma mem_ok_cycle:
  assumes "machine_cycle i s = Some t" and "schedule (mi_order i)" and "machine_ok s" and "mem_ok (m_mem s)"
  shows "mem_ok (m_mem t)"
proof -
  obtain m m' where m: "state_is (mem_state (m_mem s)) m" "update_memory (dmmu_to_mem (cpu_dmmu (m_cpu s))) (m_dout s) m = Some m'"
    "mem_state (m_mem t) = mem_state m'"
    using cycle_commit [OF assms(1,3,2)] .
  have "mem_layout (m_mem t) = mem_layout (m_mem s)"
    using m update_memory_layout [OF m(2)] by (auto simp: mem_layout_def state_is_def mem_state_def)
  moreover have "machine_ok t"
    using machine_cycle_ok [OF assms(3), of i] assms(1) by auto
  ultimately show ?thesis
    using assms(4) by (simp add: mem_ok_def mem_layout_def machine_ok_def mem_safe_def ram_safe_def ram_range_def)
qed

text \<open>An access to a device leaves the RAM alone.\<close>

lemma device_store:
  assumes "mem_ok m" and "\<not> in_ram a" and "mem_store_byte a v m = Some m'"
  shows "mem_ram m' = mem_ram m" and "mem_ok m'"
proof -
  show "mem_ram m' = mem_ram m"
    using assms by (auto simp: mem_ok_def in_ram_def mem_store_byte_def split: if_splits)
  then show "mem_ok m'"
    using store_byte_layout [OF assms(3)] assms(1) by (simp add: mem_ok_def mem_layout_def)
qed

lemma device_store_bytes:
  assumes "store_bytes mem_store_byte a n w m = Some m'" and "mem_ok m" and "\<And>j. j < n \<Longrightarrow> \<not> in_ram (a + of_nat j)"
  shows "mem_ram m' = mem_ram m"
  using assms
proof (induction n arbitrary: a w m)
  case (Suc n)
  obtain m1 where m1: "mem_store_byte a (ucast w) m = Some m1" "store_bytes mem_store_byte (a + 1) n (drop_bit 8 w) m1 = Some m'"
    using Suc.prems(1) by (auto simp: bind_eq_Some_conv)
  have "\<not> in_ram a"
    using Suc.prems(3) [of 0] by simp
  note dev = device_store [OF Suc.prems(2) this m1(1)]
  have "\<not> in_ram (a + 1 + of_nat j)" if "j < n" for j
    using Suc.prems(3) [of "Suc j"] that by (simp add: add.assoc)
  then show ?case
    using Suc.IH [OF m1(2) dev(2)] dev(1) by simp
qed simp

lemma cycle_device:
  assumes cycle: "machine_cycle i s = Some t" "schedule (mi_order i)" and ok: "pipeline_ok s" "data_bare s" "mem_shaped (cpu_id_ex (m_cpu s))"
    and mem: "mem_ok (m_mem s)" and acc: "completes_access i s" and dev: "\<not> in_ram (isa_addr (cpu_id_ex (m_cpu s)))"
    and plain: "map_of amo_table (ie_type (cpu_id_ex (m_cpu s))) = None"
  shows "ram_of (m_mem t) = ram_of (m_mem s)"
proof -
  let ?d = "cpu_id_ex (m_cpu s)"
  let ?r = "data_request ?d"
  note ans = completes_answer [OF acc ok(1,2)]
  have t: "ie_type ?d \<in> set mem_types"
    using acc by (simp add: completes_access_def)
  note kind = data_request_kind [OF ok(3) t refl] and addr = data_request_addr [OF ok(3) t]
  have mo: "machine_ok s"
    using ok(1) by (simp add: pipeline_ok_def)
  obtain m m' where m: "state_is (mem_state (m_mem s)) m" "update_memory (dmmu_to_mem (cpu_dmmu (m_cpu s))) (m_dout s) m = Some m'"
    "mem_state (m_mem t) = mem_state m'"
    using cycle_commit [OF cycle(1) mo cycle(2)] .
  have "\<not> in_ram (dmem_addr ?r + of_nat j)" if "j < unat (dmem_size ?r)" for j
    using aligned_device [OF ans(6) kind(1) _ that] dev by (simp add: addr)
  then have "mem_ram m' = mem_ram m"
    using m(2) device_store_bytes [OF _ mem_ok_state [OF mem m(1)]] kind(5) plain
    unfolding ans(2) update_memory_def by (auto split: if_splits)
  then show ?thesis
    using ram_of_state [OF m(3)] m(1) by (simp add: ram_of_def state_is_def mem_state_def)
qed

subsection \<open>An access takes two cycles\<close>

lemma access_acks: "mem_access r m = Some (out, m') \<Longrightarrow> dmem_req_ack r \<Longrightarrow> mem_rsp_ack out"
  by (auto simp: mem_access_def mem_access_amo_def bind_eq_Some_conv split: if_splits)

lemma store_no_fault:
  "mem_access r m = Some (out, m') \<Longrightarrow> dmem_req_ack r \<Longrightarrow> dmem_is_store r \<Longrightarrow> \<not> dmem_is_amo r \<Longrightarrow> mem_rsp_fault out = 0"
  by (auto simp: mem_access_def bind_eq_Some_conv split: if_splits)

lemma access_answered:
  assumes cycle: "machine_cycle i s = Some t" "schedule (mi_order i)" and ok: "pipeline_ok s" "data_bare s" and off: "translation_off s"
    and ex: "executes (cycle_exec_in i s) (cpu_exec (m_cpu s))" "ie_type (cpu_id_ex (m_cpu s)) \<in> set mem_types"
      "\<not> wb_stall (cpu_exec (m_cpu s))"
  shows "ex_stall (stage i s)" and "mmu_rsp_ack (cpu_dmmu_to_ex (m_cpu t))" and "cpu_id_ex (m_cpu t) = cpu_id_ex (m_cpu s)"
    and "\<not> mi_rst j \<Longrightarrow> \<not> ex_stall (stage j t)"
    and "\<not> mi_rst j \<Longrightarrow> mmu_rsp_fault (cpu_dmmu_to_ex (m_cpu t)) = 0 \<Longrightarrow> completes_access j t"
proof -
  let ?d = "cpu_dmmu (m_cpu s)" and ?w = "cpu_dmmu (m_cpu t)"
  have data: "data_ok s" and mo: "machine_ok s"
    using ok(1) by (simp_all add: pipeline_ok_def)
  have nack: "\<not> mmu_rsp_ack (cpu_dmmu_to_ex (m_cpu s))" and st: "d_state ?d = 0"
    using data ex(3) by (auto simp: data_ok_def waits_def Let_def)
  then have fault: "mmu_rsp_fault (cpu_dmmu_to_ex (m_cpu s)) = 0"
    using data_ok_rsp [OF data] by (auto simp: rsp_ok_def)
  show stall: "ex_stall (stage i s)"
    using stage_groups(1) [OF ex(1)] ex(2) nack by simp
  then show slot: "cpu_id_ex (m_cpu t) = cpu_id_ex (m_cpu s)"
    using cycle_stalled [OF cycle _ data_ok_rsp [OF data]] by simp
  have req: "dmem_req_ack (ex_to_dmmu (stage i s))"
    using ex by (simp add: exec_comb_executes ex_instr_groups exec_outputs_def ex_mem_def Let_def)
  have run: "\<not> mi_rst i" "\<not> ex_flush (stage i s)"
    using ex(1) stage_groups(1) [OF ex(1)] ex(2) fault by (simp_all add: executes_def)
  obtain junk y tlb where w: "?w = fst (dmem_req_seq junk (dmmu_in i s y) ?d tlb)"
    using cycle_dmmu [OF cycle] by blast
  have "\<not> SATP_ON (x_csr (dm_exec (dmmu_in i s y)) CSR_SATP)"
    using off by (simp add: translation_off_def)
  note port = bare_accept [OF this st, of junk tlb, folded w]
  have "?w = dmem_check (dm_exec (dmmu_in i s y)) ((dmem_latch (dm_exec (dmmu_in i s y)) (ex_to_dmmu (stage i s)) (?d\<lparr>d_page_fault := False\<rparr>))
      \<lparr>d_state := 3, d_mmu_mem := access_req (ex_to_dmmu (stage i s)) (dmem_addr (ex_to_dmmu (stage i s)))\<rparr>)"
    using port req run by (simp del: exec_comb_frame)
  then have "d_state ?w = 3" "d_pmp_fault ?w \<or> d_misaligned_fault ?w \<or> dmem_req_ack (dmmu_to_mem ?w)"
    by (auto simp: dmem_check_def access_req_def dmem_latch_def Let_def)
  moreover have "mem_rsp_ack (m_dout t)" if "dmem_req_ack (dmmu_to_mem ?w)"
  proof -
    have "dmmu_to_mem ?w \<noteq> dmmu_to_mem ?d"
      using that ok(2) st by (auto simp: data_bare_def Let_def)
    then show ?thesis
      using cycle_data_answer [OF cycle(1) mo] access_acks [OF _ that] by (auto simp: data_answer_def)
  qed
  ultimately show ack: "mmu_rsp_ack (cpu_dmmu_to_ex (m_cpu t))"
    using cycle_rsp [OF cycle] by (auto simp: dmem_rsp_comb_def MMU_RSP_ctor_def Let_def)
  have "waits mem_types (m_cpu t)"
    using data_ok_cycle [OF cycle data] ack by (simp add: data_ok_def Let_def)
  then show "\<not> mi_rst j \<Longrightarrow> \<not> ex_stall (stage j t)"
    "\<not> mi_rst j \<Longrightarrow> mmu_rsp_fault (cpu_dmmu_to_ex (m_cpu t)) = 0 \<Longrightarrow> completes_access j t"
    using answer_completes [OF _ _ ack] by blast+
qed

end
