(* ===== verification/Cpu_Sequential.thy ===== *)
theory Cpu_Sequential
  imports Cpu_Memory
begin

unbundle bit_operations_syntax

text \<open>
  The sequential machine: a program counter, a register file and a RAM, and one instruction per step,
  fetched from that RAM, decoded, and carried out on the registers and on the RAM. The runs of the
  pipelined machine without translation, traps, CSR accesses and devices are runs of it.
\<close>

type_synonym seq = "arch \<times> ram"

definition code_of :: "ram \<Rightarrow> u32 \<Rightarrow> u32" where
  "code_of M a = le_word (fst M) a 4"

definition seq_step :: "seq \<Rightarrow> seq" where
  "seq_step q =
     (let (st, M) = q; d = program_slot (code_of M) st
      in if ie_type d \<in> set mem_types then let (v, M') = isa_mem d M in (isa_step v d st, M')
         else (isa_step 0 d st, M))"

definition seq_of :: "MACHINE \<Rightarrow> seq" where
  "seq_of s = (arch_of (m_cpu s), ram_of (m_mem s))"

text \<open>A cycle in which the execute stage completes an instruction, and the cycles the sequential machine
  speaks of.\<close>

definition retires :: "MACHINE_IN \<Rightarrow> MACHINE \<Rightarrow> bool" where
  "retires i s \<longleftrightarrow> \<not> ie_flush (cpu_id_ex (m_cpu s)) \<and> \<not> ex_stall (stage i s)"

definition plain_instr :: "ID_EX \<Rightarrow> bool" where
  "plain_instr d \<longleftrightarrow> isa_types (ie_type d) \<and> ie_type d \<notin> set csr_types \<and> (ie_type d \<in> set mem_types \<longrightarrow> in_ram (isa_addr d))"

definition plain_cycle :: "(u32 \<Rightarrow> bool) \<Rightarrow> MACHINE_IN \<Rightarrow> MACHINE \<Rightarrow> bool" where
  "plain_cycle C i s \<longleftrightarrow>
     (let code = code_of (ram_of (m_mem s)); st = arch_of (m_cpu s)
      in \<not> mi_rst i \<and> schedule (mi_order i) \<and> translation_off s \<and> in_code C code (fst st) \<and>
         \<not> c_on_trap (x_comb (stage i s)) \<and> plain_instr (program_slot code st))"

text \<open>Runs of such cycles that leave the code region alone, with the number of instructions completed.\<close>

inductive plain_run :: "(u32 \<Rightarrow> bool) \<Rightarrow> MACHINE \<Rightarrow> nat \<Rightarrow> MACHINE \<Rightarrow> bool" for C s where
  start: "plain_run C s 0 s"
| cycle: "plain_run C s n t \<Longrightarrow> plain_cycle C i t \<Longrightarrow> machine_cycle i t = Some u \<Longrightarrow> holds_code C (code_of (ram_of (m_mem s))) u \<Longrightarrow>
    plain_run C s (if retires i t then Suc n else n) u"

lemma code_of_state: "holds_code C code s \<longleftrightarrow> (\<forall>a. C a \<longrightarrow> code_of (ram_of (m_mem s)) a = code a)"
  by (simp add: holds_code_def code_of_def ram_of_def)

lemma slot_code:
  assumes "\<And>a. C a \<Longrightarrow> code' a = code a" and "in_code C code' (fst st)"
  shows "program_slot code' st = program_slot code st" and "in_code C code (fst st)"
proof -
  have half: "half_at code' x = half_at code x" if "C (x AND NOT 3)" for x
    using assms(1) [OF that] by (simp add: half_at_def)
  then have "instr_at code' (fst st) = instr_at code (fst st)"
    using assms(2) by (simp add: instr_at_def in_code_def)
  then show "program_slot code' st = program_slot code st"
    by (simp add: program_slot_def)
  show "in_code C code (fst st)"
    using assms(2) half by (simp add: in_code_def)
qed

lemma isa_step_value: "ie_type d \<notin> set mem_types \<Longrightarrow> ie_type d \<notin> set csr_types \<Longrightarrow> isa_step v d st = isa_step w d st"
  by (cases st) (auto simp: isa_step_def with_operands_def Let_def split: option.split)

lemma program_run_mono: "program_run C code r s \<Longrightarrow> (\<And>a. C' a \<Longrightarrow> C a) \<Longrightarrow> (\<And>a. C' a \<Longrightarrow> code' a = code a) \<Longrightarrow> program_run C' code' r s"
  by (induction rule: program_run.induct) (auto simp: holds_code_def intro: program_run.intros)

lemma plain_cycle_parts:
  assumes "plain_cycle C i s"
  shows "\<not> mi_rst i" "schedule (mi_order i)" "translation_off s" "\<not> c_on_trap (x_comb (stage i s))"
    "in_code C (code_of (ram_of (m_mem s))) (fst (arch_of (m_cpu s)))"
    "plain_instr (program_slot (code_of (ram_of (m_mem s))) (arch_of (m_cpu s)))"
  using assms by (simp_all add: plain_cycle_def Let_def del: exec_comb_frame)

lemma program_run_facts:
  assumes "program_run C code r s"
  shows "pipeline_ok s" "data_bare s" "mem_shaped (cpu_id_ex (m_cpu s))" "branch_quiet (cpu_id_ex (m_cpu s))"
  using reachable_pipeline [OF program_run_reachable [OF assms]] program_run_bare [OF assms]
    reachable_mem_shaped [OF program_run_reachable [OF assms]] reachable_branch_quiet [OF program_run_reachable [OF assms]]
  by auto

text \<open>The RAM stays as it is unless a memory instruction completes.\<close>

lemma plain_ram:
  assumes "program_run C code r s" and "plain_cycle C i s" and "machine_cycle i s = Some t" and "\<not> completes_access i s"
  shows "ram_of (m_mem t) = ram_of (m_mem s)"
  by (rule ram_of_state [OF cycle_no_access [OF assms(3) plain_cycle_parts(2) [OF assms(2)] program_run_facts(1,2) [OF assms(1)]]])
    (use plain_cycle_parts(1) [OF assms(2)] assms(4) in auto)

lemma seq_retires:
  assumes run: "program_run C code r s" and hold: "holds_code C code s" and mem: "mem_ok (m_mem s)"
    and plain: "plain_cycle C i s" and cycle: "machine_cycle i s = Some t" and ret: "retires i s"
  shows "seq_of t = seq_step (seq_of s)"
proof -
  let ?d = "cpu_id_ex (m_cpu s)" and ?st = "arch_of (m_cpu s)" and ?M = "ram_of (m_mem s)"
  note ok = program_run_facts [OF run] and p = plain_cycle_parts [OF plain]
  have same: "program_slot (code_of ?M) ?st = program_slot code ?st" and inc: "in_code C code (fst ?st)"
    using slot_code [OF _ p(5)] hold by (simp_all add: code_of_state)
  have r: "\<not> ie_flush ?d" "\<not> ex_stall (stage i s)"
    using ret by (simp_all add: retires_def del: exec_comb_frame)
  have d: "?d = program_slot (code_of ?M) ?st"
    using program_slot_in_stage [OF program_run_ok [OF run] _ p(1,4) r(1)] inc same by (simp add: arch_of_def)
  have t: "isa_types (ie_type ?d)" "ie_type ?d \<notin> set csr_types" "ie_type ?d \<in> set mem_types \<Longrightarrow> in_ram (isa_addr ?d)"
    using p(6) by (simp_all add: plain_instr_def d [symmetric])
  have arch: "arch_of (m_cpu t) = isa_step (mmu_rsp_rdata (cpu_dmmu_to_ex (m_cpu s))) ?d ?st"
    using cycle_instruction [OF cycle p(2,1) ok(1) p(4) r ok(4)] t(1,2) by (simp add: result_in_def)
  show ?thesis
  proof (cases "ie_type ?d \<in> set mem_types")
    case m: True
    then have "completes_access i s"
      using p(1,4) r by (simp add: completes_access_def del: exec_comb_frame)
    then have "isa_mem ?d ?M = (mmu_rsp_rdata (cpu_dmmu_to_ex (m_cpu s)), ram_of (m_mem t))"
      using cycle_access [OF cycle p(2) ok(1-3) mem _ t(3) [OF m]] by simp
    then show ?thesis
      using m arch by (simp add: seq_of_def seq_step_def d [symmetric])
  next
    case m: False
    then have "ram_of (m_mem t) = ?M"
      using plain_ram [OF run plain cycle] by (auto simp: completes_access_def)
    then show ?thesis
      using m arch isa_step_value [OF m t(2)] by (simp add: seq_of_def seq_step_def d [symmetric])
  qed
qed

lemma seq_idle:
  assumes "program_run C code r s" and "plain_cycle C i s" and "machine_cycle i s = Some t" and "\<not> retires i s"
  shows "seq_of t = seq_of s"
proof -
  note p = plain_cycle_parts [OF assms(2)]
  have "arch_of (m_cpu t) = arch_of (m_cpu s)"
    using cycle_idle [OF assms(3) p(2,1) program_run_facts(1) [OF assms(1)] p(4)] assms(4) by (simp add: retires_def del: exec_comb_frame)
  moreover have "ram_of (m_mem t) = ram_of (m_mem s)"
    using plain_ram [OF assms(1-3)] assms(4) by (auto simp: retires_def completes_access_def)
  ultimately show ?thesis
    by (simp add: seq_of_def)
qed

lemma plain_run_state:
  assumes "plain_run C s n t" and "program_run C (code_of (ram_of (m_mem s))) r s" and "mem_ok (m_mem s)"
  shows "(\<exists>r'. program_run C (code_of (ram_of (m_mem s))) r' t) \<and> holds_code C (code_of (ram_of (m_mem s))) t \<and> mem_ok (m_mem t) \<and>
     seq_of t = (seq_step ^^ n) (seq_of s)"
  using assms
proof (induction rule: plain_run.induct)
  case start
  then show ?case
    by (auto simp: code_of_state)
next
  case (cycle n t i u)
  then obtain r' where run: "program_run C (code_of (ram_of (m_mem s))) r' t" and hold: "holds_code C (code_of (ram_of (m_mem s))) t"
    and mem: "mem_ok (m_mem t)" and seq: "seq_of t = (seq_step ^^ n) (seq_of s)"
    by blast
  note p = plain_cycle_parts [OF cycle.hyps(2)]
  have "machine_ok t"
    using program_run_facts(1) [OF run] by (simp add: pipeline_ok_def)
  then have "mem_ok (m_mem u)"
    using mem_ok_cycle [OF cycle.hyps(3) p(2) _ mem] by blast
  moreover have "program_run C (code_of (ram_of (m_mem s))) (mi_rst i) u"
    by (rule program_run.cycle [OF run _ p(2) cycle.hyps(3) p(3) cycle.hyps(4)]) (use p(1) in simp)
  ultimately show ?case
    using seq_retires [OF run hold mem cycle.hyps(2,3)] seq_idle [OF run cycle.hyps(2,3)] seq cycle.hyps(4) by auto
qed

end
