(* ===== verification/Cpu_Progress.thy ===== *)
theory Cpu_Progress
  imports Cpu_Memory
begin

unbundle bit_operations_syntax

text \<open>
  Progress of the execute stage: with address translation off, an instruction that waits for the
  memory or for the multiplier has its answer in the next cycle, so no instruction but
  \<^verbatim>\<open>wfi\<close> stalls the pipeline twice.
\<close>

definition answered :: "MACHINE \<Rightarrow> bool" where
  "answered s \<longleftrightarrow>
     (waits mem_types (m_cpu s) \<longrightarrow> mmu_rsp_ack (cpu_dmmu_to_ex (m_cpu s))) \<and>
     (waits mext_types (m_cpu s) \<longrightarrow> mx_rsp_ack (cpu_mext (m_cpu s)))"

text \<open>An instruction whose answer is there does not stall.\<close>

lemma answered_stage:
  assumes "answered s" and "waits (mem_types @ mext_types) (m_cpu s)" and "\<not> mi_rst i"
  shows "\<not> ex_stall (stage i s)"
proof -
  have "waits mem_types (m_cpu s) \<or> waits mext_types (m_cpu s)"
    using assms(2) by (auto simp: waits_def)
  then show ?thesis
    using answer_completes(1) [of s i] stage_groups(2) [OF waits_executes [of mext_types s i]] assms(1,3)
    by (auto simp: answered_def waits_def)
qed

lemma mext_total: "t \<in> set mext_types \<Longrightarrow> mext_result t a b \<noteq> None"
  by (auto simp: mext_types_def mext_result_def)

lemma mext_answered:
  assumes cycle: "machine_cycle i s = Some t" "schedule (mi_order i)"
    and ex: "executes (cycle_exec_in i s) (cpu_exec (m_cpu s))" "ie_type (cpu_id_ex (m_cpu s)) \<in> set mext_types"
      "\<not> wb_stall (cpu_exec (m_cpu s))"
  shows "mx_rsp_ack (cpu_mext (m_cpu t))"
proof -
  have "c_mext_req (x_comb (stage i s))"
    using ex unfolding stage_mext_request by simp
  then show ?thesis
    using mext_total [OF ex(2)] unfolding cycle_mext [OF cycle] by (auto simp: mext_seq_def simp del: exec_comb_frame split: option.split)
qed

text \<open>The instruction that waits after a cycle stalled the stage in that cycle.\<close>

lemma answered_cycle:
  assumes cycle: "machine_cycle i s = Some t" "schedule (mi_order i)" and ok: "pipeline_ok s" "data_bare s" "translation_off s"
    and ans: "answered s"
  shows "answered t"
proof -
  have data: "data_ok s"
    using ok(1) by (simp add: pipeline_ok_def)
  have step: "ex_stall (stage i s) \<and> executes (cycle_exec_in i s) (cpu_exec (m_cpu s)) \<and> ie_type (cpu_id_ex (m_cpu s)) \<in> set ts \<and>
      \<not> wb_stall (cpu_exec (m_cpu s))" if w: "waits ts (m_cpu t)" "set ts \<subseteq> set (mem_types @ mext_types)" for ts
  proof -
    have "wb_stall (cpu_exec (m_cpu t))"
      using w(1) by (simp add: waits_def)
    then have stall: "ex_stall (stage i s)"
      using cycle_wb [OF cycle] by (auto simp: wb_part_def writeback_seq_def simp del: exec_comb_frame split: if_splits)
    note st = stage_stall [OF stall] cycle_stalled [OF cycle stall data_ok_rsp [OF data]]
    have ex: "executes (cycle_exec_in i s) (cpu_exec (m_cpu s))"
      using st(1) data_ok_rsp [OF data] by simp
    have t: "ie_type (cpu_id_ex (m_cpu s)) \<in> set ts"
      using w(1) st(6) by (simp add: waits_def)
    moreover have "\<not> wb_stall (cpu_exec (m_cpu s))"
    proof
      assume "wb_stall (cpu_exec (m_cpu s))"
      then have "waits (mem_types @ mext_types) (m_cpu s)"
        using t w(2) ex by (auto simp: waits_def executes_def)
      then show False
        using answered_stage [OF ans] st(10) stall by blast
    qed
    ultimately show ?thesis
      using stall ex by blast
  qed
  show ?thesis
    unfolding answered_def
    using step [of mem_types] step [of mext_types] access_answered(2) [OF cycle ok] mext_answered [OF cycle] by auto
qed

lemma program_run_answered: "program_run C code r s \<Longrightarrow> answered s"
proof (induction rule: program_run.induct)
  case (power_on m entry linux sh tj ij fj s)
  obtain i c where c: "cpu_power_on i (CPU_ctor entry tj ij fj) = Some c" and s: "m_cpu s = c"
    using power_on(3) by (auto simp: machine_power_on_def Let_def bind_eq_Some_conv)
  then show ?case
    using power_on_state(1) [OF c] by (simp add: answered_def waits_def empty_slot_def)
next
  case (cycle r s i t)
  show ?case
    by (rule answered_cycle [OF cycle.hyps(4,3) _ _ cycle.hyps(5) cycle.IH])
      (use reachable_pipeline [OF program_run_reachable [OF cycle.hyps(1)]] program_run_bare [OF cycle.hyps(1)] in auto)
qed

end
