(* ===== verification/Cpu_Example.thy ===== *)
theory Cpu_Example
  imports Cpu_Boot Cpu_Sequential Cpu_Progress
begin

unbundle bit_operations_syntax

text \<open>
  Concrete runs of the machine: memories that hold one instruction at the entry address, the machine
  booted on them, and the cycles in which that instruction, an addition or a store, is carried out.
\<close>

subsection \<open>Memories that hold a word\<close>

lemma put_word:
  assumes "mem_safe m" and "mem_ok m"
  obtains m' where "mem_safe m'" and "mem_ok m'"
    and "mem_byte m' = (\<lambda>x. if unat (x - a) < 4 then byte_of w (unat (x - a)) else mem_byte m x)"
proof -
  have ok: "ram_ok (mem_ram m)"
    using assms(2) by (simp add: mem_ok_def)
  obtain r where r: "store_bytes ram_write a 4 w (mem_ram m) = Some r" "ram_ok r"
    "ram_byte r = (\<lambda>x. if unat (x - a) < 4 then byte_of w (unat (x - a)) else mem_byte m x)"
    using ram.store_bytes_ok [OF ok, of 4 a w] by auto
  note range = store_bytes_range [OF r(1)]
  have "mem_safe (m\<lparr>mem_ram := r\<rparr>)"
    using assms(1) ram_safe_range [OF r(2) range] by (simp add: mem_safe_def)
  then show thesis
    using that [of "m\<lparr>mem_ram := r\<rparr>"] mem_ok_ram [OF assms(2) r(2) range] r(3) by simp
qed

lemma code_memory:
  obtains m where "mem_safe m" and "mem_ok m" and "le_word (mem_byte m) 0x80000000 4 = w" and "le_word (mem_byte m) 0xFFFFFFFC 4 = v"
proof -
  obtain m1 where m1: "mem_safe m1" "mem_ok m1"
    "mem_byte m1 = (\<lambda>x. if unat (x - 0xFFFFFFFC) < 4 then byte_of v (unat (x - 0xFFFFFFFC)) else mem_byte (Testbench_memory []) x)"
    using put_word [OF mem_safe_benches(1) mem_ok_Testbench] .
  obtain m2 where m2: "mem_safe m2" "mem_ok m2"
    "mem_byte m2 = (\<lambda>x. if unat (x - 0x80000000) < 4 then byte_of w (unat (x - 0x80000000)) else mem_byte m1 x)"
    using put_word [OF m1(1,2)] .
  have "le_word (mem_byte m2) 0xFFFFFFFC 4 = le_word (mem_byte m1) 0xFFFFFFFC 4"
    by (simp add: eval_nat_numeral) (simp add: m2(3))
  then show thesis
    using that [OF m2(1,2)] by (simp add: m1(3) m2(3) le_word_stored)
qed

subsection \<open>The booted machine\<close>

definition example_run :: "MACHINE_IN list" where
  "example_run = [example_cycle True, example_cycle False, example_cycle False, example_cycle False, example_cycle False]"

lemma mem_ok_run:
  assumes "machine_run is s = Some t" and "machine_ok s" and "mem_ok (m_mem s)" and "\<forall>i \<in> set is. schedule (mi_order i)"
  shows "mem_ok (m_mem t)"
  using assms
proof (induction "is" arbitrary: s)
  case (Cons i "is")
  then obtain u where u: "machine_cycle i s = Some u" "machine_run is u = Some t"
    by (auto simp: bind_eq_Some_conv)
  then show ?case
    using Cons.IH [OF u(2)] Cons.prems machine_cycle_ok [OF Cons.prems(2), of i] mem_ok_cycle [OF u(1)] by auto
qed simp

lemma example_schedule: "schedule (mi_order (example_cycle b))" "mi_rst (example_cycle b) = b"
  by (simp_all add: example_cycle_def schedule_def all_processes_def)

text \<open>The machine four cycles after its reset, on any memory.\<close>

lemma example_boot:
  assumes "mem_safe m" and "mem_ok m"
  obtains s t where "machine_power_on True 0x80000000 m setup_shared_memory example_entry False example_buffer = Some s"
    and "machine_run example_run s = Some t" and "machine_ok t"
    and "program_run (\<lambda>_. True) (\<lambda>a. le_word (mem_byte m) a 4) False t"
    and "arch_of (m_cpu t) = (0x80000000, RegFile_ctor)"
    and "cpu_id_ex (m_cpu t) = program_slot (\<lambda>a. le_word (mem_byte m) a 4) (0x80000000, RegFile_ctor)"
    and "idle (mem_byte m) 0x80000000 RegFile_ctor t" and "mem_ok (m_mem t)" and "translation_off t"
proof -
  obtain s where s: "machine_power_on True 0x80000000 m setup_shared_memory example_entry False example_buffer = Some s" "machine_ok s"
    using machine_power_on_ok [OF assms(1)] by blast
  obtain t where t: "machine_run example_run s = Some t" "machine_ok t"
    using machine_run_total [OF s(2)] by blast
  let ?code = "\<lambda>a. le_word (mem_byte m) a 4"
  have t': "machine_run ([example_cycle True] @ [example_cycle False, example_cycle False, example_cycle False, example_cycle False]) s = Some t"
    using t(1) by (simp add: example_run_def)
  have boot: "program_run (\<lambda>_. True) ?code False t" "arch_of (m_cpu t) = (0x80000000, RegFile_ctor)"
    "cpu_id_ex (m_cpu t) = program_slot ?code (0x80000000, RegFile_ctor)" "idle (mem_byte m) 0x80000000 RegFile_ctor t"
    by (rule boot_first [OF assms(1) _ _ s(1) _ _ _ _ _ _ _ t' refl]; simp add: example_schedule)+
  have "mem_ok (m_mem t)"
    using mem_ok_run [OF t(1) s(2)] boot_power_on(3) [OF _ s(1)] assms(2) by (simp add: example_run_def example_schedule)
  then show thesis
    using that [OF s(1) t boot] boot(4) by (simp add: idle_def translation_off_def SATP_ON_def Let_def)
qed

subsection \<open>An addition\<close>

lemma addi_slot:
  assumes "code 0x80000000 = 0x00500093" and "d = program_slot code (0x80000000, RegFile_ctor)"
  shows "ie_type d = I_ADDI" "ie_imm d = 5" "ie_rd d = 1" "ie_rs1 d = 0" "ie_rs2 d = 5" "ie_writes_rd d" "\<not> ie_flush d"
    "\<not> ie_on_trap d" "\<not> ie_is_compressed d"
proof -
  have "half_at code 0x80000000 = 0x0093" "half_at code 0x80000002 = 0x0050"
    using assms by (simp_all add: half_at_def)
  then have inst: "instr_at code 0x80000000 = 0x00500093"
    by (simp add: instr_at_def)
  have bits: "get_bits 0x00500093 6 0 = 0x13" "get_bits 0x00500093 11 7 = 1" "get_bits 0x00500093 14 12 = 0"
    "get_bits 0x00500093 19 15 = 0" "get_bits 0x00500093 24 20 = 5" "get_bits 0x00500093 31 20 = 5" "sign_extend 5 12 = 5"
    by (simp_all add: get_bits_def sign_extend_def)
  have "decode_word i 0x00500093 = dec_op_imm 0x00500093 (dec_common i 0x00500093)" for i
    by (simp add: decode_word_def decode_def Let_def bits(1))
  moreover have "decode_fault (plain_in st) e = e" if "ie_type e \<noteq> I_INVALID" for st e
    using that by (simp add: decode_fault_def plain_in_def Let_def)
  moreover have "ie_type (dec_op_imm 0x00500093 e) = I_ADDI" for e
    by (simp add: dec_op_imm_def bits Let_def)
  ultimately have "d = (dec_op_imm 0x00500093 (dec_common (plain_in (0x80000000, RegFile_ctor)) 0x00500093))\<lparr>ie_flush := False\<rparr>"
    by (simp add: assms(2) program_slot_def inst Let_def)
  then show "ie_type d = I_ADDI" "ie_imm d = 5" "ie_rd d = 1" "ie_rs1 d = 0" "ie_rs2 d = 5" "ie_writes_rd d" "\<not> ie_flush d"
    "\<not> ie_on_trap d" "\<not> ie_is_compressed d"
    by (simp_all add: dec_op_imm_def dec_common_def bits ID_EX_ctor_def Let_def)
qed

lemma example_first:
  obtains m s t u where "mem_safe m" and "le_word (mem_byte m) 0x80000000 4 = 0x00500093"
    and "machine_power_on True 0x80000000 m setup_shared_memory example_entry False example_buffer = Some s"
    and "machine_run example_run s = Some t" and "machine_cycle (example_cycle False) t = Some u"
    and "program_run (\<lambda>_. True) (\<lambda>a. le_word (mem_byte m) a 4) False t"
    and "arch_of (m_cpu t) = (0x80000000, RegFile_ctor)"
    and "cpu_id_ex (m_cpu t) = program_slot (\<lambda>a. le_word (mem_byte m) a 4) (0x80000000, RegFile_ctor)"
    and "\<not> c_on_trap (x_comb (stage (example_cycle False) t))" and "\<not> ex_stall (stage (example_cycle False) t)"
    and "mem_ok (m_mem t)" and "translation_off t" and "mem_byte (m_mem t) = mem_byte m"
proof -
  obtain m where m: "mem_safe m" "mem_ok m" "le_word (mem_byte m) 0x80000000 4 = 0x00500093" "le_word (mem_byte m) 0xFFFFFFFC 4 = 0"
    using code_memory .
  obtain s t where s: "machine_power_on True 0x80000000 m setup_shared_memory example_entry False example_buffer = Some s"
    and t: "machine_run example_run s = Some t" and mo: "machine_ok t"
    and boot: "program_run (\<lambda>_. True) (\<lambda>a. le_word (mem_byte m) a 4) False t" "arch_of (m_cpu t) = (0x80000000, RegFile_ctor)"
    "cpu_id_ex (m_cpu t) = program_slot (\<lambda>a. le_word (mem_byte m) a 4) (0x80000000, RegFile_ctor)"
    "idle (mem_byte m) 0x80000000 RegFile_ctor t" "mem_ok (m_mem t)" "translation_off t"
    using example_boot [OF m(1,2)] .
  let ?code = "\<lambda>a. le_word (mem_byte m) a 4"
  obtain u where u: "machine_cycle (example_cycle False) t = Some u"
    using machine_cycle_ok [OF mo] by blast
  let ?i = "cycle_exec_in (example_cycle False) t" and ?x = "cpu_exec (m_cpu t)"
  note d = addi_slot [of ?code, OF m(3) boot(3)]
  have ex: "executes ?i ?x"
    using d boot(4) by (simp add: executes_def example_schedule check_interrupt_disabled idle_def Let_def)
  have "alu_result (cpu_id_ex (m_cpu t)) \<noteq> None"
    using d(1) by (simp add: alu_result_def Let_def)
  then have "\<not> c_on_trap (ex_instr ?i ?x (comb_exec ?i ?x))" "\<not> c_stall (ex_instr ?i ?x (comb_exec ?i ?x))"
    by (auto simp: ex_instr_def)
  then have "\<not> c_on_trap (x_comb (stage (example_cycle False) t))" "\<not> ex_stall (stage (example_cycle False) t)"
    by (simp_all add: exec_comb_executes [OF ex] exec_outputs_def Let_def del: exec_comb_frame)
  then show thesis
    using that [OF m(1,3) s t u boot(1-3) _ _ boot(5,6)] boot(4) by (auto simp: idle_def Let_def)
qed

lemma addi_step:
  assumes "code 0x80000000 = 0x00500093"
  shows "isa_step v (program_slot code (0x80000000, RegFile_ctor)) (0x80000000, RegFile_ctor) = (0x80000004, RegFile_ctor[1 := 5])"
proof -
  define d where "d = program_slot code (0x80000000, RegFile_ctor)"
  define e where "e = with_operands RegFile_ctor 0x80000000 d"
  note slot = addi_slot [OF assms d_def]
  have e: "ie_type e = I_ADDI" "ie_rs1_val e = 0" "ie_imm e = 5" "ie_rd e = 1" "ie_writes_rd e" "\<not> ie_is_compressed e"
    using slot by (simp_all add: e_def with_operands_def RegFile_ctor_def)
  then have "alu_spec e = Some 5"
    by (simp add: alu_spec_def arith_spec_def imm_types_def)
  then show ?thesis
    unfolding d_def [symmetric] isa_step_def Let_def prod.case e_def [symmetric] using e by simp
qed

subsection \<open>A store\<close>

text \<open>\<^verbatim>\<open>sw x0, -4(x0)\<close>, a store to the last word of the memory.\<close>

lemma store_slot:
  assumes "code 0x80000000 = 0xFE002E23" and "d = program_slot code (0x80000000, RegFile_ctor)"
  shows "ie_type d = I_SW" "ie_imm d = - 4" "ie_rs1_val d = 0" "ie_rs2_val d = 0" "ie_mem_size d = 4" "ie_is_store d" "\<not> ie_is_atomic d"
    "\<not> ie_flush d" "\<not> ie_on_trap d"
proof -
  have "half_at code 0x80000000 = 0x2E23" "half_at code 0x80000002 = 0xFE00"
    using assms by (simp_all add: half_at_def)
  then have inst: "instr_at code 0x80000000 = 0xFE002E23"
    by (simp add: instr_at_def)
  have bits: "get_bits 0xFE002E23 6 0 = 0x23" "get_bits 0xFE002E23 11 7 = 0x1C" "get_bits 0xFE002E23 14 12 = 2"
    "get_bits 0xFE002E23 19 15 = 0" "get_bits 0xFE002E23 24 20 = 0" "get_bits 0xFE002E23 31 25 = 0x7F" "sign_extend 0xFFC 12 = - 4"
    by (simp_all add: get_bits_def sign_extend_def)
  have "decode_word i 0xFE002E23 = dec_store 0xFE002E23 (dec_common i 0xFE002E23)" for i
    by (simp add: decode_word_def decode_def Let_def bits(1))
  moreover have "decode_fault (plain_in st) e = e" if "ie_type e \<noteq> I_INVALID" for st e
    using that by (simp add: decode_fault_def plain_in_def Let_def)
  moreover have "ie_type (dec_store 0xFE002E23 e) = I_SW" for e
    by (simp add: dec_store_def bits Let_def)
  ultimately have "d = (dec_store 0xFE002E23 (dec_common (plain_in (0x80000000, RegFile_ctor)) 0xFE002E23))\<lparr>ie_flush := False\<rparr>"
    by (simp add: assms(2) program_slot_def inst Let_def)
  moreover have "operand (plain_in (0x80000000, RegFile_ctor)) 0 = 0"
    by (simp add: operand_def plain_in_def RegFile_ctor_def Let_def)
  ultimately show "ie_type d = I_SW" "ie_imm d = - 4" "ie_rs1_val d = 0" "ie_rs2_val d = 0" "ie_mem_size d = 4" "ie_is_store d"
    "\<not> ie_is_atomic d" "\<not> ie_flush d" "\<not> ie_on_trap d"
    by (simp_all add: dec_store_def dec_common_def bits ID_EX_ctor_def Let_def)
qed

lemma store_isa:
  assumes "code 0x80000000 = 0xFE002E23" and "d = program_slot code (0x80000000, RegFile_ctor)"
  shows "isa_addr d = 0xFFFFFFFC" and "snd (isa_mem d M) = put_bytes 0xFFFFFFFC 4 0 M"
proof -
  note d = store_slot [OF assms]
  show a: "isa_addr d = 0xFFFFFFFC"
    using d by (simp add: isa_addr_def amo_table_def)
  show "snd (isa_mem d M) = put_bytes 0xFFFFFFFC 4 0 M"
    using d by (simp add: isa_mem_def a amo_table_def access_of_def)
qed

lemma put_last:
  "le_word (fst (put_bytes 0xFFFFFFFC 4 w M)) 0x80000000 4 = le_word (fst M) 0x80000000 4"
  "le_word (fst (put_bytes 0xFFFFFFFC 4 w M)) 0xFFFFFFFC 4 = w"
proof -
  show "le_word (fst (put_bytes 0xFFFFFFFC 4 w M)) 0x80000000 4 = le_word (fst M) 0x80000000 4"
    by (simp add: numeral_eq_Suc) (simp add: put_bytes_def)
  show "le_word (fst (put_bytes 0xFFFFFFFC 4 w M)) 0xFFFFFFFC 4 = w"
    by (simp add: put_bytes_def le_word_stored)
qed

text \<open>A memory instruction that waits changes neither the privilege nor the PMP.\<close>

lemma mem_stage_quiet:
  assumes "executes i x" and "ie_type (xi_id_ex i) \<in> set mem_types" and "mmu_rsp_fault (xi_dmmu_to_ex i) = 0"
  shows "seq_part (exec_seq i (exec_comb i x)) = seq_part x"
proof -
  have c: "x_comb (exec_comb i x) = ex_mem i x (comb_exec i x)"
    using assms(1,2) by (simp add: dispatch_executes ex_instr_groups)
  show ?thesis
    by (rule seq_part_quiet; unfold c) (simp_all add: assms(3) ex_mem_def comb_exec_def comb_init_def Let_def)
qed

text \<open>A store in machine mode without PMP entries is accepted by the data port.\<close>

lemma store_accepted:
  assumes cycle: "machine_cycle i t = Some u" "schedule (mi_order i)" and ok: "pipeline_ok t" "data_bare t"
    and t: "idle B pc rf t" "ie_type (cpu_id_ex (m_cpu t)) = I_SW" "\<not> ie_is_atomic (cpu_id_ex (m_cpu t))" "ie_is_store (cpu_id_ex (m_cpu t))"
    and ex: "executes (cycle_exec_in i t) (cpu_exec (m_cpu t))"
    and a: "a = dmem_addr (data_request (cpu_id_ex (m_cpu t)))" "0x80000000 \<le> a" "a AND - ucast (ie_mem_size (cpu_id_ex (m_cpu t))) = a"
  shows "mmu_rsp_fault (cpu_dmmu_to_ex (m_cpu u)) = 0" and "translation_off u"
proof -
  have mt: "ie_type (cpu_id_ex (m_cpu t)) \<in> set mem_types"
    using t(2) by (simp add: mem_types_def)
  have data: "data_ok t" and mo: "machine_ok t"
    using ok(1) by (simp_all add: pipeline_ok_def)
  have st: "d_state (cpu_dmmu (m_cpu t)) = 0" "\<not> wb_stall (cpu_exec (m_cpu t))" "translation_off t"
    using t(1) by (simp_all add: idle_def translation_off_def SATP_ON_def Let_def)
  have fault: "mmu_rsp_fault (cpu_dmmu_to_ex (m_cpu t)) = 0"
    using data data_ok_rsp [OF data] st(2) by (auto simp: data_ok_def rsp_ok_def waits_def Let_def)
  have req: "dmem_req_ack (ex_to_dmmu (stage i t))"
    using ex mt st(2) by (simp add: exec_comb_executes ex_instr_groups exec_outputs_def ex_mem_def Let_def)
  have run: "\<not> mi_rst i" "\<not> ex_flush (stage i t)"
    using ex stage_groups(1) [OF ex] mt fault by (simp_all add: executes_def)
  have quiet: "seq_part (exec_seq (cycle_exec_in i t) (stage i t)) = seq_part (cpu_exec (m_cpu t))"
    using mem_stage_quiet [OF ex] mt fault by simp
  then have "x_csr (cpu_exec (m_cpu u)) CSR_SATP = x_csr (cpu_exec (m_cpu t)) CSR_SATP"
    using cycle_priv [OF cycle] by (intro seq_part_csr) (simp_all add: volatile_csrs_def)
  then show "translation_off u"
    using st(3) by (simp add: translation_off_def)
  obtain junk y tlb where y: "seq_part y = seq_part (cpu_exec (m_cpu t))"
    and w: "cpu_dmmu (m_cpu u) = fst (dmem_req_seq junk (dmmu_in i t y) (cpu_dmmu (m_cpu t)) tlb)"
    using cycle_ports_quiet(2) [OF cycle quiet] by blast
  let ?x = "dm_exec (dmmu_in i t y)" and ?w = "cpu_dmmu (m_cpu u)" and ?r = "data_request (cpu_id_ex (m_cpu t))"
  have r: "access_req (ex_to_dmmu (stage i t)) (dmem_addr (ex_to_dmmu (stage i t))) = ?r"
    using stage_data_request [OF req] by (simp del: exec_comb_frame)
  have "x_priv ?x = 3" "pmpentry_id (x_pmp ?x) = []" "x_csr ?x CSR_MSTATUS AND MSTATUS_MPRV = 0"
    using y t(1) by (simp_all add: dmmu_in_def dmmu_ports_def seen_exec_def seq_part_def idle_def PMP_ctor_def Let_def)
  then have pmp: "pmp_dcheck ?x b op sz" for b op sz
    by (simp add: pmp_dcheck_def dcheck_def)
  have bare: "\<not> SATP_ON (x_csr ?x CSR_SATP)"
    using st by (simp add: translation_off_def)
  have "?w = dmem_check ?x ((dmem_latch ?x (ex_to_dmmu (stage i t)) ((cpu_dmmu (m_cpu t))\<lparr>d_page_fault := False\<rparr>))
      \<lparr>d_state := 3, d_mmu_mem := ?r\<rparr>)"
    using bare_accept [OF bare st(1), of junk tlb, folded w] req run unfolding r [symmetric] by (simp del: exec_comb_frame)
  then have port: "\<not> d_page_fault ?w" "\<not> d_pmp_fault ?w" "\<not> d_misaligned_fault ?w" "dmmu_to_mem ?w = ?r"
    using a pmp by (simp_all add: dmem_check_def dmem_latch_def is_pma_valid_def data_request_def Let_def)
  have "\<not> dmem_req_ack (dmmu_to_mem (cpu_dmmu (m_cpu t)))" and ack: "dmem_req_ack ?r" "dmem_is_store ?r" "\<not> dmem_is_amo ?r"
    using ok(2) st(1) t(3,4) by (simp_all add: data_bare_def data_request_def Let_def)
  then have "data_answer (m_mem u) ?r (m_dout u)"
    using cycle_data_answer [OF cycle(1) mo] port(4) by auto
  then have "mem_rsp_fault (m_dout u) = 0"
    using store_no_fault [OF _ ack] by (auto simp: data_answer_def)
  then show "mmu_rsp_fault (cpu_dmmu_to_ex (m_cpu u)) = 0"
    using cycle_rsp [OF cycle] port(1-3) by (simp add: dmem_rsp_comb_def MMU_RSP_ctor_def Let_def)
qed

lemma example_store:
  obtains m s t u v where "mem_safe m" and "le_word (mem_byte m) 0x80000000 4 = 0xFE002E23" and "le_word (mem_byte m) 0xFFFFFFFC 4 = 1"
    and "machine_power_on True 0x80000000 m setup_shared_memory example_entry False example_buffer = Some s"
    and "machine_run example_run s = Some t" and "machine_cycle (example_cycle False) t = Some u"
    and "machine_cycle (example_cycle False) u = Some v"
    and "program_run (\<lambda>_. True) (\<lambda>a. le_word (mem_byte m) a 4) False t"
    and "program_run (\<lambda>_. True) (\<lambda>a. le_word (mem_byte m) a 4) False u"
    and "cpu_id_ex (m_cpu u) = program_slot (\<lambda>a. le_word (mem_byte m) a 4) (0x80000000, RegFile_ctor)"
    and "mem_ok (m_mem u)" and "mem_byte (m_mem u) = mem_byte m" and "completes_access (example_cycle False) u"
    and "mem_ok (m_mem t)" and "mem_byte (m_mem t) = mem_byte m" and "translation_off t" and "translation_off u"
    and "arch_of (m_cpu t) = (0x80000000, RegFile_ctor)" and "arch_of (m_cpu u) = (0x80000000, RegFile_ctor)"
    and "ex_stall (stage (example_cycle False) t)" and "ie_type (cpu_id_ex (m_cpu t)) = I_SW"
    and "\<not> c_on_trap (x_comb (stage (example_cycle False) t))"
proof -
  let ?i = "example_cycle False"
  obtain m where m: "mem_safe m" "mem_ok m" "le_word (mem_byte m) 0x80000000 4 = 0xFE002E23" "le_word (mem_byte m) 0xFFFFFFFC 4 = 1"
    using code_memory .
  let ?code = "\<lambda>a. le_word (mem_byte m) a 4"
  obtain s t where s: "machine_power_on True 0x80000000 m setup_shared_memory example_entry False example_buffer = Some s"
    and t: "machine_run example_run s = Some t" and mo: "machine_ok t"
    and boot: "program_run (\<lambda>_. True) ?code False t" "arch_of (m_cpu t) = (0x80000000, RegFile_ctor)"
    "cpu_id_ex (m_cpu t) = program_slot ?code (0x80000000, RegFile_ctor)"
    "idle (mem_byte m) 0x80000000 RegFile_ctor t" "mem_ok (m_mem t)" "translation_off t"
    using example_boot [OF m(1,2)] .
  obtain u where u: "machine_cycle ?i t = Some u" "machine_ok u"
    using machine_cycle_ok [OF mo] by blast
  obtain v where v: "machine_cycle ?i u = Some v"
    using machine_cycle_ok [OF u(2)] by blast
  note d = store_slot [of ?code, OF m(3) boot(3)] and sched = example_schedule(1) [of False] and rst = example_schedule(2)
  note ok = program_run_facts(1,2) [OF boot(1)]
  have ex: "executes (cycle_exec_in ?i t) (cpu_exec (m_cpu t))"
    using d boot(4) by (simp add: executes_def rst check_interrupt_disabled idle_def Let_def)
  have mt: "ie_type (cpu_id_ex (m_cpu t)) \<in> set mem_types" and nw: "\<not> wb_stall (cpu_exec (m_cpu t))"
    using d(1) boot(4) by (simp_all add: mem_types_def idle_def Let_def)
  note ans = access_answered [OF u(1) sched ok boot(6) ex mt nw]
  have nf: "mmu_rsp_fault (cpu_dmmu_to_ex (m_cpu u)) = 0" "translation_off u"
    by (rule store_accepted [OF u(1) sched ok boot(4) d(1,7,6) ex refl]; simp add: d data_request_def)+
  then have acc: "completes_access ?i u"
    using ans(5) nf(1) rst by simp
  have "ram_of (m_mem u) = ram_of (m_mem t)"
    using ram_of_state [OF cycle_no_access [OF u(1) sched ok]] ans(1) rst by (simp add: completes_access_def del: exec_comb_frame)
  then have bytes: "mem_byte (m_mem u) = mem_byte m"
    using boot(4) by (simp add: ram_of_def idle_def Let_def)
  have "program_run (\<lambda>_. True) ?code (mi_rst ?i) u"
    by (rule program_run.cycle [OF boot(1) _ sched u(1) boot(6)]) (simp_all add: rst holds_code_def bytes)
  then have run: "program_run (\<lambda>_. True) ?code False u"
    by (simp add: rst)
  have "rsp_ok (xi_dmmu_to_ex (cycle_exec_in ?i t))"
    using ok(1) data_ok_rsp [of t] by (simp add: pipeline_ok_def)
  then have trap: "\<not> c_on_trap (x_comb (stage ?i t))"
    using stage_stall(3) [OF ans(1)] by (simp add: exec_comb_def exec_outputs_def Let_def)
  then have arch: "arch_of (m_cpu u) = (0x80000000, RegFile_ctor)"
    using cycle_idle [OF u(1) sched _ ok(1)] ans(1) boot(2) rst by (simp del: exec_comb_frame)
  have slot: "cpu_id_ex (m_cpu u) = program_slot ?code (0x80000000, RegFile_ctor)" "mem_byte (m_mem t) = mem_byte m"
    using ans(3) boot(3,4) by (simp_all add: idle_def Let_def)
  show thesis
    by (rule that [OF m(1,3,4) s t u(1) v boot(1) run slot(1) mem_ok_cycle [OF u(1) sched mo boot(5)] bytes acc boot(5) slot(2) boot(6)
          nf(2) boot(2) arch ans(1) d(1) trap])
qed

text \<open>Its two cycles as a run of the sequential machine.\<close>

lemma example_store_run:
  obtains m s t v where "mem_safe m" and "le_word (mem_byte m) 0x80000000 4 = 0xFE002E23" and "le_word (mem_byte m) 0xFFFFFFFC 4 = 1"
    and "machine_power_on True 0x80000000 m setup_shared_memory example_entry False example_buffer = Some s"
    and "machine_run example_run s = Some t" and "machine_run [example_cycle False, example_cycle False] t = Some v"
    and "program_run (\<lambda>a. a = 0x80000000) (code_of (ram_of (m_mem t))) False t" and "mem_ok (m_mem t)"
    and "plain_run (\<lambda>a. a = 0x80000000) t 1 v" and "le_word (mem_byte (m_mem v)) 0xFFFFFFFC 4 = 0"
proof -
  let ?i = "example_cycle False" and ?C = "\<lambda>a. a = 0x80000000"
  obtain m s t u v where m: "mem_safe m" "le_word (mem_byte m) 0x80000000 4 = 0xFE002E23" "le_word (mem_byte m) 0xFFFFFFFC 4 = 1"
    and s: "machine_power_on True 0x80000000 m setup_shared_memory example_entry False example_buffer = Some s"
    and c: "machine_run example_run s = Some t" "machine_cycle ?i t = Some u" "machine_cycle ?i u = Some v"
    and run: "program_run (\<lambda>_. True) (\<lambda>a. le_word (mem_byte m) a 4) False t" "program_run (\<lambda>_. True) (\<lambda>a. le_word (mem_byte m) a 4) False u"
    and slot: "cpu_id_ex (m_cpu u) = program_slot (\<lambda>a. le_word (mem_byte m) a 4) (0x80000000, RegFile_ctor)"
    and u: "mem_ok (m_mem u)" "mem_byte (m_mem u) = mem_byte m" "completes_access ?i u"
    and t: "mem_ok (m_mem t)" "mem_byte (m_mem t) = mem_byte m" "translation_off t" "translation_off u"
    and arch: "arch_of (m_cpu t) = (0x80000000, RegFile_ctor)" "arch_of (m_cpu u) = (0x80000000, RegFile_ctor)"
    and stall: "ex_stall (stage ?i t)" "\<not> c_on_trap (x_comb (stage ?i t))"
    by (rule example_store)
  note d = store_slot [of "\<lambda>a. le_word (mem_byte m) a 4", OF m(2) slot]
  have code: "code_of (ram_of (m_mem t)) = (\<lambda>a. le_word (mem_byte m) a 4)" "code_of (ram_of (m_mem u)) = (\<lambda>a. le_word (mem_byte m) a 4)"
    by (simp_all add: fun_eq_iff code_of_def ram_of_def t(2) u(2))
  note isa = store_isa [of "\<lambda>a. le_word (mem_byte m) a 4", OF m(2) slot]
  have plain: "plain_instr (cpu_id_ex (m_cpu u))"
    using d by (simp add: plain_instr_def isa_types_def csr_types_def isa(1) in_ram_def)
  have fetch: "in_code ?C (\<lambda>a. le_word (mem_byte m) a 4) 0x80000000"
    by (simp add: in_code_def)
  have c1: "plain_cycle ?C ?i t" "plain_cycle ?C ?i u"
    using t(3,4) fetch plain stall(2) u(3) example_schedule [of False]
    by (simp_all add: plain_cycle_def code arch slot [symmetric] completes_access_def Let_def del: exec_comb_frame)
  note ok = program_run_facts(1-3) [OF run(2)]
  have "isa_mem (cpu_id_ex (m_cpu u)) (ram_of (m_mem u)) = (mmu_rsp_rdata (cpu_dmmu_to_ex (m_cpu u)), ram_of (m_mem v))"
    using cycle_access [OF c(3) example_schedule(1) ok u(1,3)] isa(1) by (simp add: in_ram_def)
  then have v: "ram_of (m_mem v) = put_bytes 0xFFFFFFFC 4 0 (ram_of (m_mem u))"
    using isa(2) by (metis snd_conv)
  have word: "le_word (mem_byte (m_mem v)) 0x80000000 4 = 0xFE002E23" "le_word (mem_byte (m_mem v)) 0xFFFFFFFC 4 = 0"
    using put_last [of 0 "ram_of (m_mem u)"] m(2) u(2) unfolding v [symmetric] by (simp_all add: ram_of_def)
  have "plain_run ?C t (if retires ?i t then Suc 0 else 0) u"
    by (rule plain_run.cycle [OF plain_run.start c1(1) c(2)]) (simp add: holds_code_def code u(2))
  then have "plain_run ?C t 0 u"
    using stall(1) by (simp add: retires_def del: exec_comb_frame)
  then have "plain_run ?C t (if retires ?i u then Suc 0 else 0) v"
    by (rule plain_run.cycle [OF _ c1(2) c(3)]) (simp add: holds_code_def code word(1) m(2))
  then have two: "plain_run ?C t 1 v"
    using u(3) by (simp add: retires_def completes_access_def del: exec_comb_frame)
  have "program_run ?C (code_of (ram_of (m_mem t))) False t"
    by (rule program_run_mono [OF run(1)]) (simp_all add: code)
  moreover have "machine_run [?i, ?i] t = Some v"
    using c(2,3) by simp
  ultimately show thesis
    using that [OF m s c(1) _ _ t(1) two word(2)] by blast
qed

end
