(* ===== verification/Cpu_Correct.thy ===== *)
theory Cpu_Correct
  imports Cpu_Example
begin

unbundle bit_operations_syntax

text \<open>
  The properties of the machine as a whole, from the module lemmas of the theories below: the
  hand-shakes of the pipeline, the sequential instruction set it implements, the program it
  executes, how it starts, how it uses memory, the sequential computer it is, and its progress.
\<close>

subsection \<open>The properties\<close>

text \<open>
  C10. The stages stay in step. In every state the machine can reach, the execute stage is either empty
  or holds the instruction that its program counter names, with operands equal to the contents of
  the register file once the pending write-back is done, so the forwarding paths never deliver a
  stale value; an answer of the data memory is only ever there for the memory instruction that
  waits for it; and an answer of the multiplier only for the multiplication or division that waits
  for it, with its result.
\<close>

theorem pipeline_in_step:
  assumes "reachable r s"
  shows "let c = m_cpu s; d = cpu_id_ex c; x = cpu_exec c
         in (d = empty_slot \<or>
             \<not> ie_flush d \<and> ie_pc d = ex_pc x \<and> ie_rs1_val d = arch_regs c ! unat (ie_rs1 d) \<and>
             ie_rs2_val d = arch_regs c ! unat (ie_rs2 d)) \<and>
            (mmu_rsp_ack (cpu_dmmu_to_ex c) \<longrightarrow> wb_stall x \<and> \<not> ie_flush d \<and> ie_type d \<in> set mem_types) \<and>
            (mx_rsp_ack (cpu_mext c) \<longrightarrow> wb_stall x \<and> \<not> ie_flush d \<and> ie_type d \<in> set mext_types \<and>
               mext_result (ie_type d) (ie_rs1_val d) (ie_rs2_val d) = Some (mx_result (cpu_mext c)))"
  using reachable_pipeline [OF assms]
  by (auto simp: pipeline_ok_def pc_ok_def reads_ok_def data_ok_def mext_ok_def waits_def Let_def)

theorem pipeline_in_step_witness:
  "\<exists>m s t. mem_safe m \<and> le_word (mem_byte m) 0x80000000 4 = 0x00500093 \<and>
     machine_power_on True 0x80000000 m setup_shared_memory example_entry False example_buffer = Some s \<and>
     machine_run example_run s = Some t \<and> ie_type (cpu_id_ex (m_cpu t)) = I_ADDI \<and> ie_pc (cpu_id_ex (m_cpu t)) = 0x80000000 \<and>
     ie_rs1_val (cpu_id_ex (m_cpu t)) = 0"
proof -
  obtain m s t u where m: "mem_safe m" "le_word (mem_byte m) 0x80000000 4 = 0x00500093"
    and s: "machine_power_on True 0x80000000 m setup_shared_memory example_entry False example_buffer = Some s"
    and t: "machine_run example_run s = Some t" and u: "machine_cycle (example_cycle False) t = Some u"
    and run: "program_run (\<lambda>_. True) (\<lambda>a. le_word (mem_byte m) a 4) False t"
    and arch: "arch_of (m_cpu t) = (0x80000000, RegFile_ctor)"
    and slot: "cpu_id_ex (m_cpu t) = program_slot (\<lambda>a. le_word (mem_byte m) a 4) (0x80000000, RegFile_ctor)"
    by (rule example_first)
  note d = addi_slot [of "\<lambda>a. le_word (mem_byte m) a 4", OF m(2) slot]
  have "ie_pc (cpu_id_ex (m_cpu t)) = 0x80000000 \<and> ie_rs1_val (cpu_id_ex (m_cpu t)) = 0"
    using pipeline_in_step [OF program_run_reachable [OF run]] d(4,7) arch
    by (auto simp: arch_of_def empty_slot_def RegFile_ctor_def Let_def)
  then show ?thesis
    using m s t d(1) by blast
qed

text \<open>
  C3. The pipeline implements the sequential instruction set. In every reachable state, with the
  sequential state being the program counter of the execute stage and the register file with the
  pending write-back applied, one clock cycle does one of three things: it takes a trap, that is,
  goes to the trap vector and changes no register; it leaves the sequential state as it is, when the
  execute stage is empty or waits; or it performs exactly one instruction of the sequential machine
  on it, with operands read from that register file: arithmetic, multiplication and division, loads
  and stores (the value being the answer of the memory), CSR accesses (the value being that of the
  CSR), jumps, branches, fences, and the returns from traps. Forwarding, stalling, flushing, the order of the processes and the timing of memory and
  multiplier are invisible.
\<close>

theorem cycle_refines_isa:
  assumes "reachable r s" and "schedule (mi_order i)" and "\<not> mi_rst i" and "machine_cycle i s = Some t"
  shows "let d = cpu_id_ex (m_cpu s); x = stage i s; c = x_comb x; csr = x_csr x; before = arch_of (m_cpu s); after = arch_of (m_cpu t)
         in if c_on_trap c then after = (trap_pc csr (x_priv x) (c_cause c), snd before)
            else if ie_flush d \<or> ex_stall x then after = before
            else if ie_type d = I_SRET then after = (csr CSR_SEPC AND NOT 1, snd before)
            else if ie_type d = I_MRET then after = (csr CSR_MEPC AND NOT 1, snd before)
            else after = isa_step (result_in (cycle_exec_in i s) (cpu_exec (m_cpu s))) d before"
proof -
  have ok: "pipeline_ok s" and quiet: "branch_quiet (cpu_id_ex (m_cpu s))"
    using reachable_pipeline [OF assms(1)] reachable_branch_quiet [OF assms(1)] by auto
  note cyc = assms(4,2,3)
  show ?thesis
    unfolding Let_def
    using cycle_trap [OF cyc] cycle_idle [OF cyc ok] cycle_return [OF cyc ok] cycle_instruction [OF cyc ok _ _ _ quiet]
    by (auto simp: isa_types_def simp del: exec_comb_frame)
qed

text \<open>The first instruction of a program, in the execute stage four cycles after the reset.\<close>

theorem cycle_refines_isa_witness:
  "\<exists>m s t u. mem_safe m \<and> le_word (mem_byte m) 0x80000000 4 = 0x00500093 \<and>
     machine_power_on True 0x80000000 m setup_shared_memory example_entry False example_buffer = Some s \<and>
     machine_run example_run s = Some t \<and> machine_cycle (example_cycle False) t = Some u \<and>
     arch_of (m_cpu u) = (0x80000004, RegFile_ctor[1 := 5])"
proof -
  obtain m s t u where m: "mem_safe m" "le_word (mem_byte m) 0x80000000 4 = 0x00500093"
    and s: "machine_power_on True 0x80000000 m setup_shared_memory example_entry False example_buffer = Some s"
    and t: "machine_run example_run s = Some t" and u: "machine_cycle (example_cycle False) t = Some u"
    and run: "program_run (\<lambda>_. True) (\<lambda>a. le_word (mem_byte m) a 4) False t"
    and arch: "arch_of (m_cpu t) = (0x80000000, RegFile_ctor)"
    and slot: "cpu_id_ex (m_cpu t) = program_slot (\<lambda>a. le_word (mem_byte m) a 4) (0x80000000, RegFile_ctor)"
    and quiet: "\<not> c_on_trap (x_comb (stage (example_cycle False) t))" "\<not> ex_stall (stage (example_cycle False) t)"
    by (rule example_first)
  note d = addi_slot [of "\<lambda>a. le_word (mem_byte m) a 4", OF m(2) slot]
  have "arch_of (m_cpu u) = (0x80000004, RegFile_ctor[1 := 5])"
    using cycle_refines_isa [OF program_run_reachable [OF run] example_schedule(1) _ u] quiet d(1,7)
      addi_step [of "\<lambda>a. le_word (mem_byte m) a 4", OF m(2)]
    by (simp add: example_schedule arch slot Let_def del: exec_comb_frame)
  then show ?thesis
    using m s t u by blast
qed

text \<open>
  C2. The machine executes the program in its memory. While address translation is off and the words
  of the code region keep their contents, whenever the program counter is in the code region, a clock
  cycle that takes no trap either leaves the program counter and the registers alone or performs on
  them exactly the instruction that the code holds at the program counter, as the decoder of the
  manual's encodings reads it: fetched from memory, taken from the buffer across word boundaries,
  expanded if it is compressed, with operands from the register file, in program order and only once.
\<close>

theorem program_executed:
  assumes "program_run C code r s" and "schedule (mi_order i)" and "\<not> mi_rst i" and "machine_cycle i s = Some t"
    and "arch_of (m_cpu s) = (pc, rf)" and "in_code C code pc" and "\<not> c_on_trap (x_comb (stage i s))"
    and "isa_types (ie_type (program_slot code (pc, rf)))"
  shows "if ie_flush (cpu_id_ex (m_cpu s)) \<or> ex_stall (stage i s) then arch_of (m_cpu t) = (pc, rf)
     else arch_of (m_cpu t) = isa_step (result_in (cycle_exec_in i s) (cpu_exec (m_cpu s))) (program_slot code (pc, rf)) (pc, rf)"
proof -
  note ok = program_run_facts(1) [OF assms(1)] and quiet = program_run_facts(4) [OF assms(1)]
  have pc: "in_code C code (ex_pc (cpu_exec (m_cpu s)))"
    using assms(5,6) by (simp add: arch_of_def)
  note cyc = assms(4,2,3)
  show ?thesis
  proof (cases "ie_flush (cpu_id_ex (m_cpu s)) \<or> ex_stall (stage i s)")
    case True
    then show ?thesis
      using cycle_idle [OF cyc ok assms(7)] assms(5) by (simp del: exec_comb_frame)
  next
    case False
    then have "cpu_id_ex (m_cpu s) = program_slot code (pc, rf)"
      using program_slot_in_stage [OF program_run_ok [OF assms(1)] pc assms(3,7)] assms(5) by simp
    then show ?thesis
      using cycle_instruction [OF cyc ok assms(7) _ _ quiet] False assms(5,8) by (simp del: exec_comb_frame)
  qed
qed

theorem program_executed_witness:
  "\<exists>m s t u. mem_safe m \<and> le_word (mem_byte m) 0x80000000 4 = 0x00500093 \<and>
     machine_power_on True 0x80000000 m setup_shared_memory example_entry False example_buffer = Some s \<and>
     machine_run example_run s = Some t \<and> machine_cycle (example_cycle False) t = Some u \<and>
     arch_of (m_cpu t) = (0x80000000, RegFile_ctor) \<and> arch_of (m_cpu u) = (0x80000004, RegFile_ctor[1 := 5])"
proof -
  obtain m s t u where m: "mem_safe m" "le_word (mem_byte m) 0x80000000 4 = 0x00500093"
    and s: "machine_power_on True 0x80000000 m setup_shared_memory example_entry False example_buffer = Some s"
    and t: "machine_run example_run s = Some t" and u: "machine_cycle (example_cycle False) t = Some u"
    and run: "program_run (\<lambda>_. True) (\<lambda>a. le_word (mem_byte m) a 4) False t"
    and arch: "arch_of (m_cpu t) = (0x80000000, RegFile_ctor)"
    and slot: "cpu_id_ex (m_cpu t) = program_slot (\<lambda>a. le_word (mem_byte m) a 4) (0x80000000, RegFile_ctor)"
    and quiet: "\<not> c_on_trap (x_comb (stage (example_cycle False) t))" "\<not> ex_stall (stage (example_cycle False) t)"
    by (rule example_first)
  let ?code = "\<lambda>a. le_word (mem_byte m) a 4"
  note d = addi_slot [of ?code, OF m(2) slot]
  have "isa_types (ie_type (program_slot ?code (0x80000000, RegFile_ctor)))"
    using d(1) by (simp add: slot isa_types_def)
  then have "arch_of (m_cpu u) = (0x80000004, RegFile_ctor[1 := 5])"
    using program_executed [OF run example_schedule(1) _ u arch _ quiet(1)] quiet(2) d(7) addi_step [of ?code, OF m(2)]
    by (simp add: example_schedule in_code_def del: exec_comb_frame)
  then show ?thesis
    using m s t u arch by blast
qed



text \<open>
  C4. Memory is accessed in program order. While address translation is off, the RAM changes in a clock
  cycle exactly when the execute stage completes a memory instruction: then the value the instruction
  reads and the RAM after the cycle are those of the sequential load, store, load-reserved,
  store-conditional or read-modify-write operation on the RAM before it, so each access happens once,
  in program order, and sees all accesses before it. A load or store outside the RAM leaves it alone,
  and so does every other cycle, resets and traps included.
\<close>

theorem memory_in_order:
  assumes "program_run C code r s" and "mem_ok (m_mem s)" and "mi_rst i \<Longrightarrow> r" and "schedule (mi_order i)" and "machine_cycle i s = Some t"
  shows "let d = cpu_id_ex (m_cpu s)
     in if \<not> completes_access i s then ram_of (m_mem t) = ram_of (m_mem s)
        else if in_ram (isa_addr d) then (mmu_rsp_rdata (cpu_dmmu_to_ex (m_cpu s)), ram_of (m_mem t)) = isa_mem d (ram_of (m_mem s))
        else map_of amo_table (ie_type d) = None \<longrightarrow> ram_of (m_mem t) = ram_of (m_mem s)"
proof -
  note ok = program_run_facts(1-3) [OF assms(1)]
  have "mi_rst i \<Longrightarrow> cpu_id_ex (m_cpu s) = empty_slot"
    using reachable_pipeline [OF program_run_reachable [OF assms(1)]] assms(3) by auto
  then show ?thesis
    unfolding Let_def
    using ram_of_state [OF cycle_no_access [OF assms(5,4) ok(1,2)]] cycle_access [OF assms(5,4) ok assms(2)]
      cycle_device [OF assms(5,4) ok assms(2)]
    by (auto split: if_split)
qed

text \<open>The program \<^verbatim>\<open>sw x0, -4(x0)\<close>: the word is 1 before the cycle that completes the store and 0 after it.\<close>

theorem memory_in_order_witness:
  "\<exists>m s t u v. mem_safe m \<and> le_word (mem_byte m) 0x80000000 4 = 0xFE002E23 \<and>
     machine_power_on True 0x80000000 m setup_shared_memory example_entry False example_buffer = Some s \<and>
     machine_run example_run s = Some t \<and> machine_cycle (example_cycle False) t = Some u \<and> machine_cycle (example_cycle False) u = Some v \<and>
     le_word (mem_byte (m_mem u)) 0xFFFFFFFC 4 = 1 \<and> le_word (mem_byte (m_mem v)) 0xFFFFFFFC 4 = 0"
proof -
  obtain m s t u v where m: "mem_safe m" "le_word (mem_byte m) 0x80000000 4 = 0xFE002E23" "le_word (mem_byte m) 0xFFFFFFFC 4 = 1"
    and s: "machine_power_on True 0x80000000 m setup_shared_memory example_entry False example_buffer = Some s"
    and c: "machine_run example_run s = Some t" "machine_cycle (example_cycle False) t = Some u" "machine_cycle (example_cycle False) u = Some v"
    and run: "program_run (\<lambda>_. True) (\<lambda>a. le_word (mem_byte m) a 4) False t" "program_run (\<lambda>_. True) (\<lambda>a. le_word (mem_byte m) a 4) False u"
    and slot: "cpu_id_ex (m_cpu u) = program_slot (\<lambda>a. le_word (mem_byte m) a 4) (0x80000000, RegFile_ctor)"
    and u: "mem_ok (m_mem u)" "mem_byte (m_mem u) = mem_byte m" "completes_access (example_cycle False) u"
    by (rule example_store)
  note isa = store_isa [of "\<lambda>a. le_word (mem_byte m) a 4", OF m(2) slot]
  have "(mmu_rsp_rdata (cpu_dmmu_to_ex (m_cpu u)), ram_of (m_mem v)) = isa_mem (cpu_id_ex (m_cpu u)) (ram_of (m_mem u))"
    using memory_in_order [OF run(2) u(1) _ example_schedule(1) c(3)] u(3) isa(1) by (simp add: example_schedule in_ram_def Let_def)
  then have "ram_of (m_mem v) = put_bytes 0xFFFFFFFC 4 0 (ram_of (m_mem u))"
    using isa(2) by (metis snd_conv)
  then have "le_word (mem_byte (m_mem v)) 0xFFFFFFFC 4 = 0"
    using put_last(2) [of 0 "ram_of (m_mem u)"] by (metis fst_conv ram_of_def)
  then show ?thesis
    using m s c u(2) by auto
qed

text \<open>
  C1. The machine is a sequential computer. Take the sequential machine that consists of a program
  counter, a register file and a RAM and that, in a step, fetches the instruction at the program
  counter from the RAM, decodes it and carries it out on the registers and the RAM. Any run of the
  pipelined machine, in any process order, without translation, traps, CSR accesses, devices and
  writes to the code region, in which the execute stage completes n instructions, takes the program
  counter, the registers and the RAM exactly where n steps of the sequential machine take them.
\<close>

theorem run_is_sequential:
  assumes "program_run C (code_of (ram_of (m_mem s))) r s" and "mem_ok (m_mem s)" and "plain_run C s n t"
  shows "seq_of t = (seq_step ^^ n) (seq_of s)"
  using plain_run_state [OF assms(3,1,2)] by blast

text \<open>Two cycles of the program \<^verbatim>\<open>sw x0, -4(x0)\<close> are one step of the sequential machine.\<close>

theorem run_is_sequential_witness:
  "\<exists>m s t v. mem_safe m \<and> le_word (mem_byte m) 0x80000000 4 = 0xFE002E23 \<and> le_word (mem_byte m) 0xFFFFFFFC 4 = 1 \<and>
     machine_power_on True 0x80000000 m setup_shared_memory example_entry False example_buffer = Some s \<and>
     machine_run example_run s = Some t \<and> machine_run [example_cycle False, example_cycle False] t = Some v \<and>
     seq_of v = seq_step (seq_of t) \<and> le_word (mem_byte (m_mem v)) 0xFFFFFFFC 4 = 0"
proof -
  obtain m s t v where m: "mem_safe m" "le_word (mem_byte m) 0x80000000 4 = 0xFE002E23" "le_word (mem_byte m) 0xFFFFFFFC 4 = 1"
    and s: "machine_power_on True 0x80000000 m setup_shared_memory example_entry False example_buffer = Some s"
    and c: "machine_run example_run s = Some t" "machine_run [example_cycle False, example_cycle False] t = Some v"
    and run: "program_run (\<lambda>a. a = 0x80000000) (code_of (ram_of (m_mem t))) False t" "mem_ok (m_mem t)"
    "plain_run (\<lambda>a. a = 0x80000000) t 1 v" and v: "le_word (mem_byte (m_mem v)) 0xFFFFFFFC 4 = 0"
    by (rule example_store_run)
  have "seq_of v = seq_step (seq_of t)"
    using run_is_sequential [OF run] by simp
  then show ?thesis
    using m s c v by blast
qed

text \<open>
  C7. The pipeline never hangs on an instruction. While address translation is off, an instruction that
  stalls the execute stage in a clock cycle, whatever it waits for but an interrupt, that is, the
  memory or the multiplier, is still there in the next cycle and then goes on, completing or
  trapping: the request made in the first cycle is always answered before the second.
\<close>

theorem stall_ends:
  assumes "program_run C code r s" and "translation_off s" and "schedule (mi_order i)" and "machine_cycle i s = Some t"
    and "ex_stall (stage i s)" and "ie_type (cpu_id_ex (m_cpu s)) \<noteq> I_WFI" and "\<not> mi_rst j"
  shows "cpu_id_ex (m_cpu t) = cpu_id_ex (m_cpu s) \<and> \<not> ex_stall (stage j t)"
proof -
  note ok = program_run_facts(1,2) [OF assms(1)]
  have data: "data_ok s"
    using ok(1) by (simp add: pipeline_ok_def)
  note st = stage_stall [OF assms(5)] and kept = cycle_stalled [OF assms(4,3,5) data_ok_rsp [OF data]]
  have "ie_type (cpu_id_ex (m_cpu s)) \<in> set stall_types" "executes (cycle_exec_in i s) (cpu_exec (m_cpu s))"
    using st(1,2) data_ok_rsp [OF data] by simp_all
  then have "waits (mem_types @ mext_types) (m_cpu t)"
    using assms(6) kept(1,2) by (auto simp: waits_def stall_types_def executes_def)
  then show ?thesis
    using answered_stage [OF answered_cycle [OF assms(4,3) ok assms(2) program_run_answered [OF assms(1)]] _ assms(7)] kept(1) by blast
qed

theorem stall_ends_witness:
  "\<exists>m s t u. mem_safe m \<and> le_word (mem_byte m) 0x80000000 4 = 0xFE002E23 \<and>
     machine_power_on True 0x80000000 m setup_shared_memory example_entry False example_buffer = Some s \<and>
     machine_run example_run s = Some t \<and> machine_cycle (example_cycle False) t = Some u \<and>
     ex_stall (stage (example_cycle False) t) \<and> \<not> ex_stall (stage (example_cycle False) u)"
proof -
  obtain m s t u v where m: "mem_safe m" "le_word (mem_byte m) 0x80000000 4 = 0xFE002E23" "le_word (mem_byte m) 0xFFFFFFFC 4 = 1"
    and s: "machine_power_on True 0x80000000 m setup_shared_memory example_entry False example_buffer = Some s"
    and c: "machine_run example_run s = Some t" "machine_cycle (example_cycle False) t = Some u" "machine_cycle (example_cycle False) u = Some v"
    and run: "program_run (\<lambda>_. True) (\<lambda>a. le_word (mem_byte m) a 4) False t" "program_run (\<lambda>_. True) (\<lambda>a. le_word (mem_byte m) a 4) False u"
    and slot: "cpu_id_ex (m_cpu u) = program_slot (\<lambda>a. le_word (mem_byte m) a 4) (0x80000000, RegFile_ctor)"
    and u: "mem_ok (m_mem u)" "mem_byte (m_mem u) = mem_byte m" "completes_access (example_cycle False) u"
    and t: "mem_ok (m_mem t)" "mem_byte (m_mem t) = mem_byte m" "translation_off t" "translation_off u"
    and arch: "arch_of (m_cpu t) = (0x80000000, RegFile_ctor)" "arch_of (m_cpu u) = (0x80000000, RegFile_ctor)"
    and stall: "ex_stall (stage (example_cycle False) t)" and d: "ie_type (cpu_id_ex (m_cpu t)) = I_SW"
    by (rule example_store)
  have "\<not> ex_stall (stage (example_cycle False) u)"
    using stall_ends [OF run(1) t(3) example_schedule(1) c(2) stall] d by (simp add: example_schedule del: exec_comb_frame)
  then show ?thesis
    using m s c stall by blast
qed

end
