(* ===== verification/Startup.thy ===== *)
theory Startup
  imports Cpu_Example Options
begin

unbundle bit_operations_syntax

text \<open>
  From the command line to the first instruction: what \<^verbatim>\<open>sc_main\<close> makes of the options and the files, and
  the machine started on it.
\<close>

subsection \<open>Linux mode\<close>

definition file_bytes :: "(string \<Rightarrow> u8 list option) \<Rightarrow> string \<Rightarrow> u8 list" where
  "file_bytes files p = (case files p of None \<Rightarrow> [] | Some bs \<Rightarrow> bs)"

lemma load_file_ok:
  assumes "ram_ok r" and "length (file_bytes files p) \<le> 2 ^ 32"
  shows "\<exists>r'. load_to_ram (files p) a r = Some r' \<and> ram_ok r' \<and> ram_SIZE r' = ram_SIZE r \<and>
     ram_byte r' = with_image a (file_bytes files p) (ram_byte r)"
proof (cases "files p")
  case None
  then show ?thesis
    using assms(1) by (simp add: load_to_ram_def file_bytes_def with_image_def fun_eq_iff)
next
  case (Some bs)
  then show ?thesis
    using place_ok [OF assms(1), of bs a] assms(2) by (auto simp: load_to_ram_def file_bytes_def)
qed

definition linux_image :: "(string \<Rightarrow> u8 list option) \<Rightarrow> Config \<Rightarrow> (u32 \<Rightarrow> u8) \<Rightarrow> u32 \<Rightarrow> u8" where
  "linux_image files cfg =
     with_image 0x80400000 (file_bytes files (cfg_linux_path cfg)) \<circ> with_image 0x80100000 (file_bytes files (cfg_dtb_path cfg)) \<circ>
     with_image 0x80000000 (file_bytes files (cfg_sbi_path cfg))"

lemma linux_mode_ok:
  assumes "length (file_bytes files (cfg_sbi_path cfg)) \<le> 2 ^ 32" and "length (file_bytes files (cfg_dtb_path cfg)) \<le> 2 ^ 32"
    and "length (file_bytes files (cfg_linux_path cfg)) \<le> 2 ^ 32"
  obtains R where "LinuxMode uart files cfg = Inr R" and "run_linux R" and "run_entry R = 0x80000000" and "mem_safe (run_memory R)"
    and "mem_byte (run_memory R) = linux_image files cfg (mem_byte (Testbench_memory uart))" and "run_limit R = time_limit cfg"
proof -
  let ?m = "Testbench_memory uart"
  have r0: "ram_ok (mem_ram ?m)" "4 \<le> ram_SIZE (mem_ram ?m)"
    using mem_safe_benches(1) [of uart] by (simp_all add: mem_safe_def ram_safe_def)
  obtain r1 where r1: "load_to_ram (files (cfg_sbi_path cfg)) 0x80000000 (mem_ram ?m) = Some r1" "ram_ok r1"
    "ram_SIZE r1 = ram_SIZE (mem_ram ?m)" "ram_byte r1 = with_image 0x80000000 (file_bytes files (cfg_sbi_path cfg)) (mem_byte ?m)"
    using load_file_ok [OF r0(1) assms(1)] by metis
  obtain r2 where r2: "load_to_ram (files (cfg_dtb_path cfg)) 0x80100000 r1 = Some r2" "ram_ok r2" "ram_SIZE r2 = ram_SIZE r1"
    "ram_byte r2 = with_image 0x80100000 (file_bytes files (cfg_dtb_path cfg)) (ram_byte r1)"
    using load_file_ok [OF r1(2) assms(2)] by metis
  obtain r3 where r3: "load_to_ram (files (cfg_linux_path cfg)) 0x80400000 r2 = Some r3" "ram_ok r3" "ram_SIZE r3 = ram_SIZE r2"
    "ram_byte r3 = with_image 0x80400000 (file_bytes files (cfg_linux_path cfg)) (ram_byte r2)"
    using load_file_ok [OF r2(2) assms(3)] by metis
  show thesis
  proof (rule that)
    show "LinuxMode uart files cfg = Inr \<lparr>run_linux = True, run_entry = 0x80000000, run_memory = ?m\<lparr>mem_ram := r3\<rparr>, run_limit = time_limit cfg\<rparr>"
      by (simp add: LinuxMode_def linux_init_def r1(1) r2(1) r3(1))
  qed (use r0(2) r1 r2 r3 in \<open>simp_all add: mem_safe_def ram_safe_def linux_image_def\<close>)
qed

text \<open>The first word of the firmware is the word at the entry address.\<close>

lemma with_image_outside: "length bs \<le> unat (x - a) \<Longrightarrow> with_image a bs m x = m x"
  by (simp add: with_image_def)

lemma firmware_word:
  assumes "file_bytes files (cfg_sbi_path cfg) = b0 # b1 # b2 # b3 # bs"
    and "length (file_bytes files (cfg_dtb_path cfg)) \<le> 0x7FF00000" and "length (file_bytes files (cfg_linux_path cfg)) \<le> 0x7FC00000"
  shows "le_word (linux_image files cfg m) 0x80000000 4 =
     ucast b0 OR push_bit 8 (ucast b1) OR push_bit 16 (ucast b2) OR push_bit 24 (ucast b3)"
proof -
  have "linux_image files cfg m x = with_image 0x80000000 (b0 # b1 # b2 # b3 # bs) m x" if "x \<in> {0x80000000, 0x80000001, 0x80000002, 0x80000003}" for x
    using that assms by (auto simp: linux_image_def with_image_outside)
  then show ?thesis
    by (simp add: numeral_eq_Suc) (simp add: with_image_def or.assoc)
qed

subsection \<open>Architecture-test mode\<close>

lemma archtest_mode_ok:
  assumes "files (cfg_elf_path cfg) = Some file" and "elf_wf file" and "2 \<le> length (elf_loads file)"
  obtains R entry where "ArchTestMode uart files cfg = Inr R" and "\<not> run_linux R" and "word_at file 24 = Some entry" and "run_entry R = entry"
    and "mem_safe (run_memory R)" and "mem_tohost (run_memory R) = p_vaddr (elf_loads file ! 1)"
    and "mem_byte (run_memory R) =
      fold (\<lambda>ph. with_image (p_vaddr ph) (segment_bytes file ph)) (elf_loads file) (ram_byte (RAM_ctor (2 ^ 22)))"
    and "run_limit R = time_limit cfg"
proof -
  have r0: "ram_ok (RAM_ctor (2 ^ 22))" "4 \<le> ram_SIZE (RAM_ctor (2 ^ 22))"
    using mem_safe_benches(2) [of "[]" 0] by (simp_all add: mem_safe_def ram_safe_def Testbench_RVARCHTEST_memory_def)
  obtain e where e: "word_at file 24 = Some e"
    "load_elf32 file = Inr \<lparr>elf_entry = e, elf_segments = map (segment_of file) (elf_loads file)\<rparr>"
    using load_elf32_wf [OF assms(2)] by blast
  have "list_all (segment_fits file) (elf_loads file)"
    using assms(2) by (simp add: elf_wf_def)
  then obtain r where r: "place_segments (map (segment_of file) (elf_loads file)) (RAM_ctor (2 ^ 22)) = Some r" "ram_ok r"
    "ram_SIZE r = ram_SIZE (RAM_ctor (2 ^ 22))"
    "ram_byte r = fold (\<lambda>ph. with_image (p_vaddr ph) (segment_bytes file ph)) (elf_loads file) (ram_byte (RAM_ctor (2 ^ 22)))"
    using place_segments_wf [OF r0(1)] by blast
  let ?t = "p_vaddr (elf_loads file ! 1)"
  have init: "archtest_init file (RAM_ctor (2 ^ 22)) = Inr (e, ?t, r)"
    using e r(1) assms(3) by (simp add: archtest_init_def segment_of_def)
  show thesis
  proof (rule that)
    show "ArchTestMode uart files cfg = Inr \<lparr>run_linux = False, run_entry = e,
        run_memory = (Testbench_RVARCHTEST_memory uart ?t)\<lparr>mem_ram := r\<rparr>, run_limit = time_limit cfg\<rparr>"
      unfolding ArchTestMode_def assms(1) option.case init by simp
  qed (use e(1) r r0(2) in \<open>simp_all add: mem_safe_def ram_safe_def Testbench_RVARCHTEST_memory_def\<close>)
qed

subsection \<open>The exit code\<close>

lemma load_segments_sized: "load_segments f at n = Inr segs \<Longrightarrow> list_all (\<lambda>s. length (seg_mem s) = unat (seg_memsz s)) segs"
proof (induction f at n arbitrary: segs rule: load_segments.induct)
  case (2 f at n)
  then show ?case
    by (auto simp: load_segment_def word_less_nat_alt split: option.splits if_splits sum.splits)
qed simp

lemma load_elf32_sized: "load_elf32 f = Inr elf \<Longrightarrow> list_all (\<lambda>s. length (seg_mem s) = unat (seg_memsz s)) (elf_segments elf)"
  by (auto simp: load_elf32_def dest: load_segments_sized split: if_splits option.splits sum.splits)

lemma place_segments_sized:
  assumes "ram_ok r" and "list_all (\<lambda>s. length (seg_mem s) = unat (seg_memsz s)) segs"
  shows "\<exists>r'. place_segments segs r = Some r'"
  using assms
proof (induction segs arbitrary: r)
  case (Cons seg segs)
  have "length (seg_mem seg) \<le> 2 ^ 32"
    using Cons.prems(2) unsigned_less [of "seg_memsz seg", where 'a = nat] by simp
  then obtain r1 where "place (seg_vaddr seg) (seg_mem seg) r = Some r1" "ram_ok r1"
    using place_ok [OF Cons.prems(1)] by metis
  then show ?case
    using Cons by (simp add: place_segment_def)
qed simp

lemma archtest_exit:
  "exit_code (ArchTestMode uart files cfg) =
     (case files (cfg_elf_path cfg) of
        None \<Rightarrow> Some 1
      | Some file \<Rightarrow>
          (case load_elf32 file of
             Inl e \<Rightarrow> if e = Undefined then None else Some 1
           | Inr elf \<Rightarrow> if length (elf_segments elf) < 2 then None else Some 0))"
proof -
  have ok: "ram_ok (RAM_ctor (2 ^ 22))"
    using ram_ok_ctor [of 22] by simp
  have "\<exists>r. place_segments (elf_segments elf) (RAM_ctor (2 ^ 22)) = Some r" if "load_elf32 f = Inr elf" for f elf
    by (rule place_segments_sized [OF ok load_elf32_sized [OF that]])
  then show ?thesis
    by (fastforce simp: exit_code_def ArchTestMode_def archtest_init_def split: option.splits sum.splits)
qed



subsection \<open>The first instruction\<close>

text \<open>The machine four cycles after the end of its reset, as it comes out of a mode.\<close>

definition first_in :: "MACHINE_IN list \<Rightarrow> MACHINE_IN list \<Rightarrow> bool" where
  "first_in rs is \<longleftrightarrow> rs \<noteq> [] \<and> (\<forall>i \<in> set rs. mi_rst i) \<and> length is = 4 \<and> (\<forall>i \<in> set is. \<not> mi_rst i) \<and>
     (\<forall>i \<in> set (rs @ is). schedule (mi_order i))"

lemma runner_starts:
  assumes "mem_safe (run_memory R)" and "run_entry R AND 3 = 0" and "0x80000000 \<le> run_entry R" and "first_in rs is"
  shows "\<exists>s t. machine_power_on (run_linux R) (run_entry R) (run_memory R) sh tj ij fj = Some s \<and> machine_run (rs @ is) s = Some t \<and>
     arch_of (m_cpu t) = (run_entry R, RegFile_ctor) \<and>
     cpu_id_ex (m_cpu t) = program_slot (\<lambda>a. le_word (mem_byte (run_memory R)) a 4) (run_entry R, RegFile_ctor)"
proof -
  have "length is = Suc (Suc (Suc (Suc 0)))"
    using assms(4) by (simp add: first_in_def)
  then obtain i1 i2 i3 i4 where "is": "is = [i1, i2, i3, i4]"
    by (auto simp: length_Suc_conv)
  obtain s where s: "machine_power_on (run_linux R) (run_entry R) (run_memory R) sh tj ij fj = Some s" "machine_ok s"
    using machine_power_on_ok [OF assms(1)] by blast
  obtain t where t: "machine_run (rs @ [i1, i2, i3, i4]) s = Some t"
    using machine_run_total [OF s(2)] by blast
  have f: "rs \<noteq> []" "\<forall>i \<in> set rs. mi_rst i" "\<not> mi_rst i1" "\<not> mi_rst i2" "\<not> mi_rst i3" "\<not> mi_rst i4"
    "\<forall>i \<in> set (rs @ [i1, i2, i3, i4]). schedule (mi_order i)"
    using assms(4) by (simp_all add: first_in_def "is")
  show ?thesis
    using boot_first(2,3) [OF assms(1-3) s(1) f t refl] s(1) t unfolding "is" by blast
qed

text \<open>
  C6. Linux mode starts the firmware. When the options parse and choose Linux mode, and the three
  images fit where they are loaded, the parent process starts the simulation, whatever becomes of the
  device tree and the kernel file, with the firmware, the device tree and the kernel at their
  addresses; and when the simulation runs, from any contents of uninitialised storage, with any number
  of reset cycles and the processes in any order, the execute stage holds, four cycles after the reset,
  the instruction at the start of the firmware, with the program counter at \<^verbatim>\<open>0x80000000\<close> and all
  registers zero.
\<close>

theorem linux_starts_firmware:
  assumes "parse_args args = Inr cfg" and "cfg_mode cfg = ''linux''"
    and "file_bytes files (cfg_sbi_path cfg) = b0 # b1 # b2 # b3 # bs" and "length bs < 0x7FFFFFFC"
    and "length (file_bytes files (cfg_dtb_path cfg)) \<le> 0x7FF00000" and "length (file_bytes files (cfg_linux_path cfg)) \<le> 0x7FC00000"
    and "first_in rs is"
  shows "\<exists>R s t. sc_main args False uart files = Inr (Some R) \<and>
     mem_byte (run_memory R) = linux_image files cfg (mem_byte (Testbench_memory uart)) \<and> run_limit R = time_limit cfg \<and>
     le_word (mem_byte (run_memory R)) 0x80000000 4 =
       ucast b0 OR push_bit 8 (ucast b1) OR push_bit 16 (ucast b2) OR push_bit 24 (ucast b3) \<and>
     machine_power_on True 0x80000000 (run_memory R) sh tj ij fj = Some s \<and> machine_run (rs @ is) s = Some t \<and>
     arch_of (m_cpu t) = (0x80000000, RegFile_ctor) \<and>
     cpu_id_ex (m_cpu t) = program_slot (\<lambda>a. le_word (mem_byte (run_memory R)) a 4) (0x80000000, RegFile_ctor)"
proof -
  obtain R where R: "LinuxMode uart files cfg = Inr R" "run_linux R" "run_entry R = 0x80000000" "mem_safe (run_memory R)"
    "mem_byte (run_memory R) = linux_image files cfg (mem_byte (Testbench_memory uart))" "run_limit R = time_limit cfg"
    using linux_mode_ok [of files cfg uart] assms(3-6) by auto
  have "sc_main args False uart files = Inr (Some R)"
    using assms(1,2) R(1) by (simp add: sc_main_def)
  then show ?thesis
    using runner_starts [OF R(4) _ _ assms(7), of sh tj ij fj] R(2,3,5,6) firmware_word [OF assms(3,5,6)] by auto
qed

theorem linux_starts_firmware_witness:
  "\<exists>R s t. sc_main [(CHR ''s'', ''fw'')] False [] (\<lambda>p. if p = ''fw'' then Some [0x93, 0, 0x50, 0] else None) = Inr (Some R) \<and>
     machine_power_on True 0x80000000 (run_memory R) setup_shared_memory example_entry False example_buffer = Some s \<and>
     machine_run ([example_cycle True] @ replicate 4 (example_cycle False)) s = Some t \<and> ie_type (cpu_id_ex (m_cpu t)) = I_ADDI"
proof -
  let ?files = "\<lambda>p. if p = ''fw'' then Some [0x93, 0, 0x50, 0] else None :: u8 list option"
  let ?cfg = "Config_init\<lparr>cfg_sbi_path := ''fw''\<rparr>"
  have cfg: "parse_args [(CHR ''s'', ''fw'')] = Inr ?cfg" "cfg_mode ?cfg = ''linux''" "file_bytes ?files (cfg_sbi_path ?cfg) = [0x93, 0, 0x50, 0]"
    "file_bytes ?files (cfg_dtb_path ?cfg) = []" "file_bytes ?files (cfg_linux_path ?cfg) = []"
    by (simp_all add: parse_args_def set_option_def Config_init_def file_bytes_def)
  have "first_in [example_cycle True] (replicate 4 (example_cycle False))"
    by (auto simp: first_in_def example_schedule)
  then obtain R s t where R: "sc_main [(CHR ''s'', ''fw'')] False [] ?files = Inr (Some R)"
    "le_word (mem_byte (run_memory R)) 0x80000000 4 = ucast (0x93 :: u8) OR push_bit 8 (ucast (0 :: u8)) OR push_bit 16 (ucast (0x50 :: u8)) OR
       push_bit 24 (ucast (0 :: u8))"
    "machine_power_on True 0x80000000 (run_memory R) setup_shared_memory example_entry False example_buffer = Some s"
    "machine_run ([example_cycle True] @ replicate 4 (example_cycle False)) s = Some t"
    "cpu_id_ex (m_cpu t) = program_slot (\<lambda>a. le_word (mem_byte (run_memory R)) a 4) (0x80000000, RegFile_ctor)"
    using linux_starts_firmware [OF cfg(1-3), of "[example_cycle True]" "replicate 4 (example_cycle False)" "[]" setup_shared_memory
        example_entry False example_buffer] cfg(4,5) by auto
  have "le_word (mem_byte (run_memory R)) 0x80000000 4 = 0x00500093"
    using R(2) by simp
  then have "ie_type (cpu_id_ex (m_cpu t)) = I_ADDI"
    using addi_slot(1) [of "\<lambda>a. le_word (mem_byte (run_memory R)) a 4", OF _ R(5)] by simp
  then show ?thesis
    using R(1,3,4) by blast
qed

text \<open>
  C8. The test modes start the test program. When the options parse and choose one of the two test modes,
  and the file is a well-formed ELF file with at least two loadable segments and an aligned entry
  address in memory, the simulation starts with every loadable segment at its address and the
  test device at the second one; and when it runs, the execute stage holds, four cycles after the
  reset, the instruction that the program has at its entry address.
\<close>

theorem archtest_starts_program:
  assumes "parse_args args = Inr cfg" and "cfg_mode cfg = ''arch-test'' \<or> cfg_mode cfg = ''riscv-tests''"
    and "files (cfg_elf_path cfg) = Some file" and "elf_wf file" and "2 \<le> length (elf_loads file)"
    and "word_at file 24 = Some entry" and "entry AND 3 = 0" and "0x80000000 \<le> entry" and "first_in rs is"
  shows "\<exists>R s t. sc_main args child uart files = Inr (Some R) \<and>
     mem_byte (run_memory R) =
       fold (\<lambda>ph. with_image (p_vaddr ph) (segment_bytes file ph)) (elf_loads file) (ram_byte (RAM_ctor (2 ^ 22))) \<and>
     mem_tohost (run_memory R) = p_vaddr (elf_loads file ! 1) \<and> run_limit R = time_limit cfg \<and>
     machine_power_on False entry (run_memory R) sh tj ij fj = Some s \<and> machine_run (rs @ is) s = Some t \<and>
     arch_of (m_cpu t) = (entry, RegFile_ctor) \<and>
     cpu_id_ex (m_cpu t) = program_slot (\<lambda>a. le_word (mem_byte (run_memory R)) a 4) (entry, RegFile_ctor)"
proof -
  obtain R e where R: "ArchTestMode uart files cfg = Inr R" "\<not> run_linux R" and e: "word_at file 24 = Some e" "run_entry R = e"
    and m: "mem_safe (run_memory R)" "mem_tohost (run_memory R) = p_vaddr (elf_loads file ! 1)"
    "mem_byte (run_memory R) = fold (\<lambda>ph. with_image (p_vaddr ph) (segment_bytes file ph)) (elf_loads file) (ram_byte (RAM_ctor (2 ^ 22)))"
    "run_limit R = time_limit cfg"
    by (rule archtest_mode_ok [of files cfg, OF assms(3-5), of uart])
  have entry: "run_entry R = entry" and off: "run_linux R = False"
    using e assms(6) R(2) by simp_all
  have "sc_main args child uart files = Inr (Some R)"
    using assms(1,2) R(1) by (auto simp: sc_main_def)
  then show ?thesis
    using runner_starts [OF m(1) _ _ assms(9), of sh tj ij fj] m(2-4) assms(7,8) unfolding entry off by blast
qed

text \<open>A file whose first segment starts with a jump to itself.\<close>

theorem archtest_starts_program_witness:
  "\<exists>R s t. sc_main [(CHR ''m'', ''riscv-tests''), (CHR ''e'', ''a.elf'')] False [] (\<lambda>p. Some small_elf) = Inr (Some R) \<and>
     mem_tohost (run_memory R) = 0x80001000 \<and>
     machine_power_on False 0x80000000 (run_memory R) setup_shared_memory example_entry False example_buffer = Some s \<and>
     machine_run ([example_cycle True] @ replicate 4 (example_cycle False)) s = Some t \<and> arch_of (m_cpu t) = (0x80000000, RegFile_ctor)"
proof -
  let ?cfg = "Config_init\<lparr>cfg_mode := ''riscv-tests'', cfg_elf_path := ''a.elf''\<rparr>"
  have cfg: "parse_args [(CHR ''m'', ''riscv-tests''), (CHR ''e'', ''a.elf'')] = Inr ?cfg"
    "cfg_mode ?cfg = ''arch-test'' \<or> cfg_mode ?cfg = ''riscv-tests''"
    by (simp_all add: parse_args_def set_option_def)
  have first: "first_in [example_cycle True] (replicate 4 (example_cycle False))"
    by (auto simp: first_in_def example_schedule)
  show ?thesis
    using archtest_starts_program [OF cfg, of "\<lambda>p. Some small_elf" small_elf "0x80000000" "[example_cycle True]"
        "replicate 4 (example_cycle False)" False "[]" setup_shared_memory example_entry False example_buffer]
      small_elf_wf small_elf_headers(3) first
    by (auto simp: small_elf_eq)
qed

end
