(* ===== verification/Spec2Isabelle.thy ===== *)
theory Spec2Isabelle
  imports Tlb Pmp Memory Fetch Decode Compressed Decode_Stage Signals Mext Exec_Inv Mmu_Safety Test_Bench Loader Options Cpu_Correct Startup
begin

text \<open>
  Turtle_RV32: a verification development for a SystemC emulator of an RV32IMAC processor with
  machine, supervisor and user mode.

  \<^bold>\<open>The program.\<close> A five-part pipeline (\<^verbatim>\<open>prefetch.hpp\<close>, \<^verbatim>\<open>fetch.hpp\<close>, \<^verbatim>\<open>decode.hpp\<close>, \<^verbatim>\<open>exec.hpp\<close> with
  \<^verbatim>\<open>mext.hpp\<close>, and the write-back in \<^verbatim>\<open>exec.hpp\<close> and \<^verbatim>\<open>regfile.hpp\<close>) fetches through the instruction port
  and accesses data through the data port of an MMU (\<^verbatim>\<open>mmu.hpp\<close>), which uses the TLB (\<^verbatim>\<open>tlb.hpp\<close>) and the
  PMP (\<^verbatim>\<open>pmp.hpp\<close>) kept by the execute stage. Both ports end at a memory bus with RAM and devices
  (\<^verbatim>\<open>memory.hpp\<close>). \<^verbatim>\<open>cpu.hpp\<close> connects the stages. A test bench (\<^verbatim>\<open>tb.hpp\<close>) gives the clock, and a console process
  (\<^verbatim>\<open>utils.hpp\<close>) steers it through shared memory. \<^verbatim>\<open>elf_loader32.hpp\<close>, \<^verbatim>\<open>utils.hpp\<close> and \<^verbatim>\<open>main.cpp\<close> read the command
  line, fill the memory, start the simulation and dump the memory.

  \<^bold>\<open>How it is modelled.\<close> A SystemC module is a record of its signals and members. A clocked process is
  a function from the input ports and the state before the edge to the state after it, since signals
  written at an edge are visible only after it; a process that runs on the other edge or one
  nanosecond later is a second function, composed in that order (\<open>exec_cycle\<close>, \<open>i_cycle\<close>). Integers are
  words of the width the code gives them, with wrap-around; accesses outside a vector and thrown
  exceptions are \<open>None\<close> or an error value. Memory the code leaves uninitialised is a parameter named
  \<open>junk\<close>.

  \<^bold>\<open>The theories.\<close>
  \<^item> \<open>Turtle_Prelude\<close>: word lemmas, checked vector access, and the locale of functional refinement of
    a clocked module. \<open>Csr_Cfg\<close>, \<open>Instr_Cfg\<close>: the constants, the bit-field helpers and the enumeration of
    instructions.
  \<^item> \<open>Tlb\<close>: lookup, insertion and flush; the locale \<open>translation_cache\<close> is what the MMU relies on.
    Provenance of every translation handed out, and lookup after insertion.
  \<^item> \<open>Pmp\<close>: both checks and the register writes; agreement with a scan of all entries, locked
    entries, NAPOT regions.
  \<^item> \<open>Mem_Types\<close>, \<open>Uart\<close>, \<open>Clint\<close>, \<open>Plic\<close>, \<open>Ram\<close>, \<open>Memory\<close>: the bus structures and devices. The locales of
    byte memories and reservable memories state what the bus relies on; they are interpreted on the
    segmented RAM and on the bus. Store/load, atomics, LR/SC, fetch after store, the life cycle of an
    interrupt.
  \<^item> \<open>Fetch\<close>: the prefetcher and the 64-bit instruction buffer, refined to a queue of halfwords; what
    is presented is what memory holds.
  \<^item> \<open>Decode\<close>, \<open>Compressed\<close>, \<open>Decode_Stage\<close>, \<open>Regfile\<close>: the decoder against an encoder written from the
    manual, the decompressor against the expansions of RV32C, the clocked stage, forwarding. \<open>Signals\<close>: a write
    to a structured signal is an assignment, although the code's equality operators decide.
  \<^item> \<open>Mext\<close>: multiplication and division against the integers.
  \<^item> \<open>Exec\<close>: the execute stage, all three processes. \<open>Exec_Instr\<close>: arithmetic, branches, jumps and memory
    instructions. \<open>Exec_Trap\<close>: trap entry and return. \<open>Exec_Interrupt\<close>: which interrupt is taken.
    \<open>Exec_Csr\<close>: CSR instructions and counters. \<open>Exec_Inv\<close>: what a lower mode cannot change, and the
    invariant of the stage over all runs.
  \<^item> \<open>Mmu\<close>: the four processes of the MMU. \<open>Mmu_Walk\<close>: the Sv32 specification, coherence of the TLB with
    the page table, and the locale \<open>table_walker\<close> of a port that waits for table entries; \<open>Mmu_Data\<close> and
    \<open>Mmu_Fetch\<close> interpret it on the two ports and show that each ends with the outcome of the
    specification and reports it. \<open>Mmu_Safety\<close>: what reaches the memory bus is checked.
  \<^item> \<open>Test_Bench\<close>: run control, platform update and console. \<open>Loader\<close>: ELF files, images in memory, the
    signature. \<open>Options\<close>: the command line and \<^verbatim>\<open>sc_main\<close>.
  \<^item> \<open>Cpu\<close>: the modules wired together as in \<^verbatim>\<open>cpu.hpp\<close> and \<^verbatim>\<open>tb.hpp\<close>. A clock cycle (\<open>machine_cycle\<close>) is the
    falling edge, the processes of the rising edge in the order the input \<open>mi_order\<close> gives, the answers of
    the memory to the requests that changed, and the processes one nanosecond later. A process reads the
    signals as they were before the edge; the few plain members that one process writes and
    another reads are read as the order of the processes leaves them. \<open>machine_power_on\<close> is the
    start of the simulation.
  \<^item> \<open>Cpu_Inv\<close>: every cycle of the machine is defined and keeps its well-formedness. \<open>Cpu_Order\<close>: what each
    module does in a cycle, whatever the order of the processes (\<open>schedule\<close>); the reachable states, and the
    hand-shakes between the stages as their invariant (\<open>pipeline_ok\<close>). \<open>Cpu_Isa\<close>: the sequential instruction
    set (\<open>isa_step\<close>) and that a cycle does at most one of its steps. \<open>Cpu_Program\<close>: with translation off, the
    instruction in the execute stage is the one in memory at its address. \<open>Cpu_Boot\<close>: the cycles after the
    reset. \<open>Cpu_Memory\<close>: loads, stores and atomics as sequential operations on the RAM (\<open>isa_mem\<close>).
    \<open>Cpu_Progress\<close>: no instruction waits for more than one cycle. \<open>Cpu_Sequential\<close>: a sequential computer
    (\<open>seq_step\<close>) and its agreement with runs of the machine. \<open>Cpu_Example\<close>: concrete runs. \<open>Cpu_Correct\<close>: the
    properties of the whole machine.
  \<^item> \<open>Startup\<close>: from the command line to the first instruction, and the exit code.

  \<^bold>\<open>How the parts fit.\<close> The theorems about single stages hold for every input at their ports. The
  theorems about the machine need no assumption about the stages: the wiring supplies their inputs, and what
  a stage relies on is part of the invariant of the reachable states. The chain ends with
  \<open>run_is_sequential\<close>: a run that completes \<open>n\<close> instructions leaves the program counter, the registers and the
  RAM as \<open>n\<close> steps of fetching from that RAM, decoding and executing do; \<open>linux_starts_firmware\<close> and
  \<open>archtest_starts_program\<close> connect its start with the options and files of the program.

  \<^bold>\<open>Bounds.\<close> No model uses fuel. Loops over bytes, entries, headers and options are structural recursion;
  the signature loop, which can run forever, is a partial function and is shown to end for the ranges the
  tests use. A page walk is run against any schedule of memory answers that contains two of them
  after the first edge, as a two-level table needs at most two. Runs of the machine are lists of
  cycles of any length.

  \<^bold>\<open>Not modelled.\<close> Tracing, debug strings, monitors and messages. The SystemC kernel: its evaluate and
  update phases are built into \<open>machine_cycle\<close>, with every order of the processes of an edge. The reset
  falls together with a clock edge; \<open>reset_release\<close> shows that it makes no difference on which side.
  \<^verbatim>\<open>getopt_long\<close>, the file system and the side of the \<^verbatim>\<open>fork\<close> are parameters of \<open>Options\<close>; the wait for the start
  command is left out. Races between the console process and the test bench on the shared memory are
  not modelled: a console command takes effect between two heartbeats. The theorems that compare the
  machine with the program in memory and with the sequential computer are for runs with address
  translation off; translation is verified at the ports of the MMU, and \<open>cycle_refines_isa\<close>, \<open>pipeline_in_step\<close> and
  \<open>machine_never_stuck\<close> hold with translation on as well.
\<close>

end
